theory Spec2Isabelle
  imports
    Complex_Main
    "HOL-Library.Word"
    "HOL-Library.Signed_Division"
    "HOL-Library.Multiset"
    "HOL-Library.Monad_Syntax"
begin

unbundle bit_operations_syntax

section \<open>The mousepad widget of pd-mouse-trial (src/mousepad/mousepad.c)\<close>

text \<open>
  The widget is one C file of callbacks that Pure Data (Pd) invokes. The embedding keeps
  the C functions one by one, under their own names:
  \<^item> a C \<open>int\<close> is a \<open>32 word\<close>: \<open>+\<close>, \<open>-\<close> and \<open>*\<close> wrap as they do on the
    two's-complement targets Pd runs on, comparisons are the signed ones (\<open>\<le>s\<close>, \<open><s\<close>),
    \<open>>>\<close> on an \<open>int\<close> is the arithmetic shift \<open>signed_drop_bit\<close>, and \<open>/\<close> is
    \<open>c_div\<close>, which has no value (\<open>None\<close>) where the C division traps;
  \<^item> a \<open>t_symbol *\<close> is the symbol's name: \<open>gensym\<close> interns names, so two symbol
    pointers are equal exactly when the names are, and \<open>&s_\<close> is the empty name;
  \<^item> a \<open>t_float\<close> is the real number the float stands for; \<open>(int)f\<close> truncates towards
    zero and has no value (\<open>None\<close>) where the truncated number is not an \<open>int\<close>, and
    \<open>(t_float)i\<close> rounds to Pd's single precision (24 significant bits);
  \<^item> the struct \<open>t_mousepad\<close> is a record, passed in and returned;
  \<^item> every call into Pd that has an effect (drawing command, outlet message, message to
    a named channel, bind, unbind) is an element of the list of \<open>host_call\<close>s that the
    function returns, in the order of the calls;
  \<^item> what a callback reads from Pd (visibility of the glist, the pixel position of the
    object, whether a symbol has receivers, dollar expansion, the constant \<open>IOWIDTH\<close> of
    g_canvas.h) is a field of the record \<open>host\<close> it is given. A callback sees one host
    from beginning to end: what the receivers of its messages do in the meantime (they
    could bind a name, or send a message back to the object) is Pd's part, not the file's.
\<close>

subsection \<open>C integers, floats and atoms\<close>

type_synonym cint = "32 word"
type_synonym cshort = "16 word"
type_synonym t_symbol = string
type_synonym t_float = real

text \<open>\<open>a / b\<close> on \<open>int\<close>: truncating division; undefined (a trap on the usual targets) for
  a zero divisor and for \<open>INT_MIN / -1\<close>.\<close>

definition c_quot :: "cint \<Rightarrow> cint \<Rightarrow> cint" where
  "c_quot a b = word_of_int (sint a sdiv sint b)"

definition c_div :: "cint \<Rightarrow> cint \<Rightarrow> cint option" where
  "c_div a b =
     (if b = 0 \<or> (a = - (2 ^ 31) \<and> b = - 1) then None else Some (c_quot a b))"

text \<open>Conversion of a float to an integer type discards the fraction.\<close>

definition c_trunc :: "t_float \<Rightarrow> int" where
  "c_trunc f = (if 0 \<le> f then \<lfloor>f\<rfloor> else \<lceil>f\<rceil>)"

text \<open>\<open>(int)f\<close>, and the conversion of a float that is assigned to an \<open>int\<close>: C defines
  it only when the truncated value is an \<open>int\<close>. Outside that range the behaviour is
  undefined, and the conversion has no value here.\<close>

definition c_int_of_float :: "t_float \<Rightarrow> cint option" where
  "c_int_of_float f =
     (if - (2 ^ 31) \<le> c_trunc f \<and> c_trunc f < 2 ^ 31 then Some (word_of_int (c_trunc f))
      else None)"

text \<open>\<open>(t_int)f\<close>: \<open>t_int\<close> is Pd's pointer-sized integer, a \<open>long\<close> of 64 bits on the
  targets modelled here. \<open>mousepad_motion\<close> assigns the result to an \<open>int\<close>, which keeps
  the low 32 bits (\<open>ucast\<close>). The deltas that Pd passes are pixel distances; for a float
  beyond the range of \<open>long\<close>, where C leaves the conversion undefined, the model goes on
  wrapping.\<close>

type_synonym t_int = "64 word"

definition t_int_of_float :: "t_float \<Rightarrow> t_int" where
  "t_int_of_float f = word_of_int (c_trunc f)"

text \<open>Rounding of an integer to the nearest single-precision float (ties to even): below
  \<open>2 ^ 24\<close> every integer is a float, from \<open>2 ^ (24 + e - 1)\<close> on the floats are
  \<open>2 ^ e\<close> apart.\<close>

definition float_round :: "int \<Rightarrow> int" where
  "float_round k =
     (let a = \<bar>k\<bar>;
          e = length (filter (\<lambda>i. 2 ^ (24 + i) \<le> a) [0..<8]);
          q = a div 2 ^ e;
          r = a mod 2 ^ e;
          q' = (if 2 ^ e < 2 * r \<or> (2 ^ e = 2 * r \<and> odd q) then q + 1 else q)
      in sgn k * (q' * 2 ^ e))"

definition t_float_of_int :: "cint \<Rightarrow> t_float" where
  "t_float_of_int i = real_of_int (float_round (sint i))"

datatype t_atom =
    A_NULL
  | A_FLOAT t_float
  | A_SYMBOL t_symbol
  | A_POINTER
  | A_SEMI
  | A_DOLLSYM t_symbol

text \<open>The accessors of Pd's m_atom.c. For an atom that is not a symbol \<open>atom_getsymbol\<close>
  returns \<open>&s_float\<close>, the symbol \<open>float\<close>, whereas \<open>atom_getsymbolarg\<close> returns \<open>&s_\<close>,
  the empty symbol, as it does for a missing argument.\<close>

definition atom_getsymbol :: "t_atom \<Rightarrow> t_symbol" where
  "atom_getsymbol a = (case a of A_SYMBOL s \<Rightarrow> s | _ \<Rightarrow> ''float'')"

definition atom_getsymbolarg :: "nat \<Rightarrow> t_atom list \<Rightarrow> t_symbol" where
  "atom_getsymbolarg which argv =
     (if length argv \<le> which then []
      else (case argv ! which of A_SYMBOL s \<Rightarrow> s | _ \<Rightarrow> []))"

definition atom_getfloatarg :: "nat \<Rightarrow> t_atom list \<Rightarrow> t_float" where
  "atom_getfloatarg which argv =
     (if length argv \<le> which then 0
      else (case argv ! which of A_FLOAT f \<Rightarrow> f | _ \<Rightarrow> 0))"

subsection \<open>Constants and symbols\<close>

definition COLOR_SELECTED :: cint where "COLOR_SELECTED = 0x0000FF"
definition COLOR_NORMAL :: cint where "COLOR_NORMAL = 0x000000"
definition DEFCOLOR :: cint where "DEFCOLOR = 0xDDDDDD"
definition DEFSIZE :: cint where "DEFSIZE = 64"
definition DEFZOOM :: cint where "DEFZOOM = 1"
definition IOHEIGHT :: cint where "IOHEIGHT = 3"

definition BASE :: cint where "BASE = 1"
definition INLET :: cint where "INLET = 2"
definition OUTLET :: cint where "OUTLET = 4"

definition symEmpty :: t_symbol where "symEmpty = ''empty''"
definition symSize :: t_symbol where "symSize = ''size''"
definition symColor :: t_symbol where "symColor = ''color''"
definition symPos :: t_symbol where "symPos = ''pos''"
definition symZoom :: t_symbol where "symZoom = ''zoom''"
definition symNames :: t_symbol where "symNames = ''names''"
definition symButton :: t_symbol where "symButton = ''button''"
definition symDrag :: t_symbol where "symDrag = ''drag''"
definition symHover :: t_symbol where "symHover = ''hover''"
definition symDeltas :: t_symbol where "symDeltas = ''deltas''"

subsection \<open>Utility functions: the colour codec\<close>

definition hexchar :: "cint \<Rightarrow> char" where
  "hexchar nibble =
     (if nibble <s 10 then char_of (uint (nibble + 48)) else char_of (uint (nibble + 55)))"

text \<open>The loop of \<open>int2hexcolor\<close>, with its variables \<open>i\<close>, \<open>j\<close> and \<open>nibblemask\<close>.\<close>

function int2hexcolor_loop :: "nat \<Rightarrow> nat \<Rightarrow> cint \<Rightarrow> cint \<Rightarrow> char list \<Rightarrow> char list" where
  "int2hexcolor_loop i j intcolor nibblemask hexcolor =
     (if i < 7
      then int2hexcolor_loop (i + 1) (j - 1) intcolor (signed_drop_bit 4 nibblemask)
             (hexcolor[i := hexchar (signed_drop_bit (4 * j) (intcolor AND nibblemask))])
      else hexcolor)"
  by pat_completeness auto
termination
  by (relation "measure (\<lambda>(i, j, c, m, h). 7 - i)") auto

text \<open>The string a \<open>char\<close> array holds: what precedes the first NUL.\<close>

definition c_string :: "char list \<Rightarrow> string" where
  "c_string buf = takeWhile (\<lambda>c. c \<noteq> CHR 0x00) buf"

definition int2hexcolor :: "cint \<Rightarrow> t_symbol" where
  "int2hexcolor intcolor =
     c_string ((int2hexcolor_loop 1 5 intcolor 0xF00000
                  ((replicate 8 (CHR 0x00))[0 := CHR ''#'']))[7 := CHR 0x00])"

text \<open>\<open>hexcolor[k]\<close> for a NUL-terminated string: the terminator sits at index
  \<open>length s\<close>; beyond it there is nothing to read. A character is read as a number from
  0 to 255; where \<open>char\<close> is signed the numbers from 128 on are negative instead, and
  either way they are neither 0 nor in one of the three ranges of digits.\<close>

definition c_char_at :: "string \<Rightarrow> nat \<Rightarrow> cint option" where
  "c_char_at s k =
     (if k < length s then Some (of_char (s ! k)) else if k = length s then Some 0 else None)"

definition store_digit :: "cint \<Rightarrow> nat \<Rightarrow> cint list \<Rightarrow> cint list" where
  "store_digit h i intbuf =
     (if 48 \<le>s h \<and> h \<le>s 57 then intbuf[i := h - 48]
      else if 65 \<le>s h \<and> h \<le>s 70 then intbuf[i := h - 55]
      else if 97 \<le>s h \<and> h \<le>s 102 then intbuf[i := h - 87]
      else intbuf)"

text \<open>The first loop of \<open>hexcolor2int\<close>; it returns \<open>i\<close> and \<open>intbuf\<close> as the loop
  leaves them.\<close>

function hexcolor2int_scan :: "nat \<Rightarrow> string \<Rightarrow> cint list \<Rightarrow> (nat \<times> cint list) option" where
  "hexcolor2int_scan i hexcolor intbuf =
     (if i < 6
      then (case c_char_at hexcolor (i + 1) of
              None \<Rightarrow> None
            | Some h \<Rightarrow>
                if h = 0 then Some (i, intbuf)
                else hexcolor2int_scan (i + 1) hexcolor (store_digit h i intbuf))
      else Some (i, intbuf))"
  by pat_completeness auto
termination
  by (relation "measure (\<lambda>(i, h, b). 6 - i)") auto

text \<open>The 'up-sample-and-hold' of three digits to six, assignment by assignment.\<close>

definition upsample :: "cint list \<Rightarrow> cint list" where
  "upsample intbuf =
     (let b1 = intbuf[5 := intbuf ! 2];
          b2 = b1[4 := b1 ! 5];
          b3 = b2[3 := b2 ! 1];
          b4 = b3[2 := b3 ! 3]
      in b4[1 := b4 ! 0])"

function hexcolor2int_pack :: "nat \<Rightarrow> cint list \<Rightarrow> cint \<Rightarrow> cint" where
  "hexcolor2int_pack i intbuf intcolor =
     (if i < 6 then hexcolor2int_pack (i + 1) intbuf (push_bit 4 intcolor + intbuf ! i)
      else intcolor)"
  by pat_completeness auto
termination
  by (relation "measure (\<lambda>(i, b, c). 6 - i)") auto

definition hexcolor2int :: "string \<Rightarrow> cint option" where
  "hexcolor2int hexcolor =
     (case hexcolor2int_scan 0 hexcolor (replicate 6 0) of
        None \<Rightarrow> None
      | Some (i, intbuf) \<Rightarrow>
          Some (hexcolor2int_pack 0 (if i = 3 then upsample intbuf else intbuf) 0))"

text \<open>The value of a hexadecimal digit, for the statements about the codec: its place in
  \<open>0123456789ABCDEF\<close>, or in \<open>abcdef\<close> plus ten.\<close>

definition hex_value :: "char \<Rightarrow> nat option" where
  "hex_value ch =
     map_of (zip ''0123456789ABCDEF'' [0..<16] @ zip ''abcdef'' [10..<16]) ch"

subsection \<open>The object and its host\<close>

text \<open>The fields of \<open>t_mousepad\<close>; \<open>te_xpix\<close>, \<open>te_ypix\<close> (\<open>short\<close> in m_pd.h) and
  \<open>te_binbuf\<close> are the fields of the embedded \<open>t_object\<close> that the file uses, \<open>out0\<close>,
  \<open>out1\<close>, \<open>out2\<close> are the array \<open>out[3]\<close>. The pointers \<open>glist\<close> and \<open>initclock\<close> are
  only handed back to Pd.\<close>

record t_mousepad =
  te_xpix :: cshort
  te_ypix :: cshort
  te_binbuf :: "t_atom list"
  width :: cint
  height :: cint
  xval :: cint
  yval :: cint
  pixw :: cint
  pixh :: cint
  zoomfactor :: cint
  buttonstate :: cint
  intcolor :: cint
  sendname :: t_symbol
  receivename :: t_symbol
  sendname_unexpanded :: t_symbol
  receivename_unexpanded :: t_symbol
  objID :: t_symbol
  sendname_fixed :: t_symbol
  receivename_fixed :: t_symbol
  out0 :: t_atom
  out1 :: t_atom
  out2 :: t_atom

text \<open>What the callbacks read from Pd: \<open>glist_isvisible\<close>, \<open>text_xpix\<close> and \<open>text_ypix\<close>
  (the pixel position Pd derives from \<open>te_xpix\<close>, \<open>te_ypix\<close> and the glist),
  \<open>s_thing\<close> (whether the symbol's \<open>s_thing\<close> is non-null, that is, whether anything is
  bound to it), \<open>canvas_realizedollar\<close>, \<open>atom_string\<close> and \<open>IOWIDTH\<close>.\<close>

record host =
  glist_isvisible :: bool
  text_xpix :: "cshort \<Rightarrow> cint"
  text_ypix :: "cshort \<Rightarrow> cint"
  s_thing :: "t_symbol \<Rightarrow> bool"
  canvas_realizedollar :: "t_symbol \<Rightarrow> t_symbol"
  atom_string :: "t_atom \<Rightarrow> string"
  IOWIDTH :: cint

datatype post_arg = Post_int cint | Post_str string

text \<open>The calls into Pd with an effect. The four \<open>Sys_vgui\<close> commands are the Tk commands
  of \<open>draw_rect\<close> (\<open>create rectangle\<close>, \<open>coords\<close>), \<open>draw_outlinecolor\<close>,
  \<open>draw_fillcolor\<close> and \<open>draw_erase\<close>, with the part and the numbers they print.
  \<open>Typedmess s sel av\<close> is \<open>typedmess(s->s_thing, sel, argc, argv)\<close>.\<close>

datatype host_call =
    Sys_vgui_create cint "cint list" cint
  | Sys_vgui_coords cint "cint list"
  | Sys_vgui_outline cint cint
  | Sys_vgui_fill cint cint
  | Sys_vgui_delete cint
  | Canvas_fixlinesfor
  | Canvas_deletelinesfor
  | Canvas_dirty
  | Sys_unqueuegui
  | Glist_grab t_float t_float
  | Outlet_new
  | Outlet_anything t_symbol "t_atom list"
  | Typedmess t_symbol t_symbol "t_atom list"
  | Pd_bind t_symbol
  | Pd_unbind t_symbol
  | Clock_delay
  | Post string post_arg

subsection \<open>Drawing calls for Tk\<close>

definition draw_rect :: "cint \<Rightarrow> cint list \<Rightarrow> cint \<Rightarrow> bool \<Rightarrow> host_call" where
  "draw_rect part pix w isnew =
     (if isnew then Sys_vgui_create part pix w else Sys_vgui_coords part pix)"

definition draw_outlinecolor :: "cint \<Rightarrow> cint \<Rightarrow> host_call" where
  "draw_outlinecolor part color = Sys_vgui_outline part color"

definition draw_fillcolor :: "cint \<Rightarrow> cint \<Rightarrow> host_call" where
  "draw_fillcolor part color = Sys_vgui_fill part color"

definition draw_erase :: "cint \<Rightarrow> host_call" where
  "draw_erase part = Sys_vgui_delete part"

subsection \<open>Pixel calculator\<close>

text \<open>The rectangles \<open>base\<close>, \<open>inlet\<close> and \<open>outlet\<close> of \<open>mousepad_draw\<close>, each the array
  \<open>x1, y1, x2, y2\<close> the function fills in.\<close>

definition base_rect :: "host \<Rightarrow> t_mousepad \<Rightarrow> cint list" where
  "base_rect h mp =
     [text_xpix h (te_xpix mp), text_ypix h (te_ypix mp),
      text_xpix h (te_xpix mp) + pixw mp, text_ypix h (te_ypix mp) + pixh mp]"

definition inlet_rect :: "host \<Rightarrow> t_mousepad \<Rightarrow> cint list" where
  "inlet_rect h mp =
     [text_xpix h (te_xpix mp), text_ypix h (te_ypix mp),
      text_xpix h (te_xpix mp) + IOWIDTH h * zoomfactor mp,
      text_ypix h (te_ypix mp) + IOHEIGHT * zoomfactor mp]"

definition outlet_rect :: "host \<Rightarrow> t_mousepad \<Rightarrow> cint list" where
  "outlet_rect h mp =
     [text_xpix h (te_xpix mp), text_ypix h (te_ypix mp) + pixh mp - IOHEIGHT * zoomfactor mp,
      text_xpix h (te_xpix mp) + IOWIDTH h * zoomfactor mp, text_ypix h (te_ypix mp) + pixh mp]"

text \<open>What to draw if \<open>rects\<close> is 0.\<close>

definition default_rects :: "t_mousepad \<Rightarrow> cint" where
  "default_rects mp =
     (BASE OR (if sendname mp = symEmpty then INLET else 0))
       OR (if receivename mp = symEmpty then OUTLET else 0)"

definition mousepad_draw :: "host \<Rightarrow> t_mousepad \<Rightarrow> bool \<Rightarrow> cint \<Rightarrow> host_call list" where
  "mousepad_draw h mp isnew rects0 =
     (if \<not> isnew \<and> \<not> glist_isvisible h then []
      else
        (let rects = (if rects0 = 0 then default_rects mp else rects0)
         in (if rects AND BASE \<noteq> 0
             then [draw_rect BASE (base_rect h mp) (zoomfactor mp) isnew] else [])
          @ (if rects AND INLET \<noteq> 0
             then [draw_rect INLET (inlet_rect h mp) (zoomfactor mp) isnew] else [])
          @ (if rects AND OUTLET \<noteq> 0
             then [draw_rect OUTLET (outlet_rect h mp) (zoomfactor mp) isnew] else [])
          @ [if isnew then draw_fillcolor BASE (intcolor mp) else Canvas_fixlinesfor]))"

definition mousepad_change_io :: "host \<Rightarrow> t_mousepad \<Rightarrow> cint \<Rightarrow> cint \<Rightarrow> host_call list" where
  "mousepad_change_io h mp change iolet =
     (if \<not> glist_isvisible h then []
      else if change = 1 then mousepad_draw h mp True iolet
      else if change = - 1 then [draw_erase iolet]
      else [])"

subsection \<open>Widget behaviour callbacks\<close>

definition mousepad_vis :: "host \<Rightarrow> t_mousepad \<Rightarrow> bool \<Rightarrow> host_call list" where
  "mousepad_vis h mp vis =
     (if vis then mousepad_draw h mp True 0
      else [draw_erase BASE]
         @ (if sendname mp = symEmpty then [draw_erase INLET] else [])
         @ (if receivename mp = symEmpty then [draw_erase OUTLET] else [])
         @ [Sys_unqueuegui])"

text \<open>\<open>te_xpix += dx\<close> on a \<open>short\<close>: the sum is taken in \<open>int\<close> and cut to 16 bits.\<close>

definition mousepad_displace ::
  "host \<Rightarrow> t_mousepad \<Rightarrow> cint \<Rightarrow> cint \<Rightarrow> host_call list \<times> t_mousepad" where
  "mousepad_displace h mp dx dy =
     (let mp' = mp\<lparr>te_xpix := ucast (scast (te_xpix mp) + dx),
                   te_ypix := ucast (scast (te_ypix mp) + dy)\<rparr>
      in (mousepad_draw h mp' False 0, mp'))"

definition mousepad_select :: "host \<Rightarrow> bool \<Rightarrow> host_call list" where
  "mousepad_select h selected =
     (if glist_isvisible h
      then [draw_outlinecolor BASE (if selected then COLOR_SELECTED else COLOR_NORMAL)]
      else [])"

definition mousepad_delete :: "host_call list" where
  "mousepad_delete = [Canvas_deletelinesfor]"

definition mousepad_getrect :: "host \<Rightarrow> t_mousepad \<Rightarrow> cint \<times> cint \<times> cint \<times> cint" where
  "mousepad_getrect h mp =
     (text_xpix h (te_xpix mp), text_ypix h (te_ypix mp),
      text_xpix h (te_xpix mp) + pixw mp, text_ypix h (te_ypix mp) + pixh mp)"

subsection \<open>Other callbacks\<close>

text \<open>The atoms \<open>mousepad_save\<close> appends to the binbuf: \<open>binbuf_addv\<close> stores an \<open>s\<close>
  argument as a symbol and an \<open>i\<close> argument as a float. The class name is the first atom
  of the object's own binbuf; there is none to read in an empty binbuf.\<close>

definition mousepad_save :: "t_mousepad \<Rightarrow> t_atom list option" where
  "mousepad_save mp =
     do {
       xpos \<leftarrow> c_div (scast (te_xpix mp)) (zoomfactor mp);
       ypos \<leftarrow> c_div (scast (te_ypix mp)) (zoomfactor mp);
       (case te_binbuf mp of
          [] \<Rightarrow> None
        | a # _ \<Rightarrow>
            Some [A_SYMBOL ''#X'', A_SYMBOL ''obj'',
                  A_FLOAT (t_float_of_int xpos), A_FLOAT (t_float_of_int ypos),
                  A_SYMBOL (atom_getsymbol a),
                  A_FLOAT (t_float_of_int (width mp)), A_FLOAT (t_float_of_int (height mp)),
                  A_SYMBOL (sendname_unexpanded mp), A_SYMBOL (receivename_unexpanded mp),
                  A_SYMBOL (int2hexcolor (intcolor mp)),
                  A_SEMI])
     }"

text \<open>The message pair every event is forwarded as: to the outlet, and to the send name
  when the object is sendable and the name has receivers.\<close>

definition forward :: "host \<Rightarrow> t_mousepad \<Rightarrow> bool \<Rightarrow> t_symbol \<Rightarrow> t_atom list \<Rightarrow> host_call list" where
  "forward h mp sendable sel av =
     Outlet_anything sel av
       # (if sendable \<and> s_thing h (sendname mp) then [Typedmess (sendname mp) sel av] else [])"

text \<open>\<open>int deltax = (t_int)dx\<close>. The result is \<open>None\<close> when one of the four divisions
  traps.\<close>

definition mousepad_motion ::
  "host \<Rightarrow> t_mousepad \<Rightarrow> t_float \<Rightarrow> t_float \<Rightarrow> (host_call list \<times> t_mousepad) option" where
  "mousepad_motion h mp dx dy =
     (let deltax = (ucast (t_int_of_float dx) :: cint);
          deltay = (ucast (t_int_of_float dy) :: cint)
      in if deltax OR deltay = 0 then Some ([], mp)
         else
           do {
             let sendable = (sendname mp \<noteq> symEmpty);
             let mp1 = mp\<lparr>xval := xval mp + deltax, yval := yval mp + deltay\<rparr>;
             x \<leftarrow> c_div (xval mp1) (zoomfactor mp1);
             y \<leftarrow> c_div (yval mp1) (zoomfactor mp1);
             let mp2 = mp1\<lparr>out0 := A_FLOAT (t_float_of_int x), out1 := A_FLOAT (t_float_of_int y)\<rparr>;
             let drag = forward h mp2 sendable symDrag [out0 mp2, out1 mp2];
             ddx \<leftarrow> c_div deltax (zoomfactor mp2);
             ddy \<leftarrow> c_div deltay (zoomfactor mp2);
             let mp3 = mp2\<lparr>out0 := A_FLOAT (t_float_of_int ddx), out1 := A_FLOAT (t_float_of_int ddy)\<rparr>;
             Some (drag @ forward h mp3 sendable symDeltas [out0 mp3, out1 mp3], mp3)
           })"

text \<open>The click callback returns the events, the object and its \<open>int\<close> result.\<close>

definition mousepad_click ::
  "host \<Rightarrow> t_mousepad \<Rightarrow> cint \<Rightarrow> cint \<Rightarrow> cint \<Rightarrow> cint \<Rightarrow> cint \<Rightarrow> cint
     \<Rightarrow> (host_call list \<times> t_mousepad \<times> cint) option" where
  "mousepad_click h mp xpix ypix shift alt dbl buttonstate' =
     do {
       let sendable = (sendname mp \<noteq> symEmpty);
       let xpos = text_xpix h (te_xpix mp);
       let ypos = text_ypix h (te_ypix mp);
       let (button, mp1) =
         (if buttonstate' \<noteq> buttonstate mp
          then (let m = mp\<lparr>out0 := A_FLOAT (t_float_of_int buttonstate'),
                             out1 := A_FLOAT (t_float_of_int shift),
                             out2 := A_FLOAT (t_float_of_int (if alt \<noteq> 0 then 1 else 0))\<rparr>
                in (forward h m sendable symButton [out0 m, out1 m, out2 m],
                    m\<lparr>buttonstate := buttonstate'\<rparr>))
          else ([], mp));
       let mp2 = mp1\<lparr>xval := xpix - xpos, yval := ypix - ypos\<rparr>;
       x \<leftarrow> c_div (xval mp2) (zoomfactor mp2);
       y \<leftarrow> c_div (yval mp2) (zoomfactor mp2);
       let mp3 = mp2\<lparr>out0 := A_FLOAT (t_float_of_int x), out1 := A_FLOAT (t_float_of_int y)\<rparr>;
       Some (button
             @ (if buttonstate' \<noteq> 0
                then Glist_grab (t_float_of_int xpix) (t_float_of_int ypix)
                       # forward h mp3 sendable symDrag [out0 mp3, out1 mp3]
                else forward h mp3 sendable symHover [out0 mp3, out1 mp3]),
             mp3, 1)
     }"

text \<open>\<open>(int)zoomfactor\<close> twice, and once more where the float is assigned to the \<open>int\<close>
  field.\<close>

definition mousepad_zoom ::
  "host \<Rightarrow> t_mousepad \<Rightarrow> t_float \<Rightarrow> (host_call list \<times> t_mousepad) option" where
  "mousepad_zoom h mp zoomfactor' =
     do {
       z \<leftarrow> c_int_of_float zoomfactor';
       let mp1 = mp\<lparr>pixw := width mp * z, pixh := height mp * z, zoomfactor := z\<rparr>;
       let sendable = (sendname mp1 \<noteq> symEmpty);
       let mp2 = mp1\<lparr>out0 := A_FLOAT zoomfactor'\<rparr>;
       Some (forward h mp2 sendable symZoom [out0 mp2]
             @ (if s_thing h (sendname_fixed mp2)
                then [Typedmess (sendname_fixed mp2) symZoom [out0 mp2]] else []),
             mp2)
     }"

subsection \<open>Settings\<close>

text \<open>\<open>mousepad_get\<close>: the atoms and their number for the selector, then the three
  destinations when there is something to send.\<close>

definition mousepad_get ::
  "host \<Rightarrow> t_mousepad \<Rightarrow> t_symbol \<Rightarrow> (host_call list \<times> t_mousepad) option" where
  "mousepad_get h mp selector =
     do {
       let sendable = (sendname mp \<noteq> symEmpty);
       (argc, mp1) \<leftarrow>
         (if selector = symSize
          then Some (2 :: nat, mp\<lparr>out0 := A_FLOAT (t_float_of_int (width mp)),
                                    out1 := A_FLOAT (t_float_of_int (height mp))\<rparr>)
          else if selector = symNames
          then Some (2, mp\<lparr>out0 := A_SYMBOL (sendname_unexpanded mp),
                            out1 := A_SYMBOL (receivename_unexpanded mp)\<rparr>)
          else if selector = symColor
          then Some (1, mp\<lparr>out0 := A_FLOAT (t_float_of_int (intcolor mp))\<rparr>)
          else if selector = symPos
          then do {
                 xpos \<leftarrow> c_div (text_xpix h (te_xpix mp)) (zoomfactor mp);
                 ypos \<leftarrow> c_div (text_ypix h (te_ypix mp)) (zoomfactor mp);
                 Some (2, mp\<lparr>out0 := A_FLOAT (t_float_of_int xpos),
                               out1 := A_FLOAT (t_float_of_int ypos)\<rparr>)
               }
          else if selector = symZoom
          then Some (1, mp\<lparr>out0 := A_FLOAT (t_float_of_int (zoomfactor mp))\<rparr>)
          else Some (0, mp));
       Some (if argc \<noteq> 0
             then forward h mp1 sendable selector (take argc [out0 mp1, out1 mp1, out2 mp1])
                  @ (if s_thing h (sendname_fixed mp1)
                     then [Typedmess (sendname_fixed mp1) selector
                             (take argc [out0 mp1, out1 mp1, out2 mp1])]
                     else [])
             else [],
             mp1)
     }"

definition mousepad_status :: "t_mousepad \<Rightarrow> host_call list" where
  "mousepad_status mp =
     [Post ''mousepad width: %d'' (Post_int (width mp)),
      Post ''mousepad height: %d'' (Post_int (height mp)),
      Post ''mousepad send name: %s'' (Post_str (sendname_unexpanded mp)),
      Post ''mousepad receive name: %s'' (Post_str (receivename_unexpanded mp)),
      Post ''mousepad color is %s'' (Post_str (int2hexcolor (intcolor mp))),
      Post ''object ID is %s'' (Post_str (objID mp))]"

definition mousepad_delta ::
  "host \<Rightarrow> t_mousepad \<Rightarrow> t_float \<Rightarrow> t_float \<Rightarrow> (host_call list \<times> t_mousepad) option" where
  "mousepad_delta h mp dx dy =
     do {
       deltax \<leftarrow> c_int_of_float dx;
       deltay \<leftarrow> c_int_of_float dy;
       let mp' = mp\<lparr>te_xpix := ucast (scast (te_xpix mp) + deltax * zoomfactor mp),
                     te_ypix := ucast (scast (te_ypix mp) + deltay * zoomfactor mp)\<rparr>;
       Some (mousepad_draw h mp' False 0, mp')
     }"

definition mousepad_pos ::
  "host \<Rightarrow> t_mousepad \<Rightarrow> t_float \<Rightarrow> t_float \<Rightarrow> (host_call list \<times> t_mousepad) option" where
  "mousepad_pos h mp xpos ypos =
     do {
       x \<leftarrow> c_int_of_float xpos;
       y \<leftarrow> c_int_of_float ypos;
       let mp' = mp\<lparr>te_xpix := ucast (x * zoomfactor mp),
                     te_ypix := ucast (y * zoomfactor mp)\<rparr>;
       Some (mousepad_draw h mp' False 0, mp')
     }"

text \<open>\<open>mousepad_color\<close> reads \<open>argv[0]\<close> only. \<open>s_name[0] == '#'\<close> is false for the empty
  name, whose first character is the terminator. The result is \<open>None\<close> where \<open>(int)\<close> has
  no value, and if \<open>hexcolor2int\<close> were to read beyond the end of the name.\<close>

definition mousepad_color ::
  "host \<Rightarrow> t_mousepad \<Rightarrow> t_atom list \<Rightarrow> (host_call list \<times> t_mousepad) option" where
  "mousepad_color h mp argv =
     (case argv of
        [] \<Rightarrow> Some ([], mp)
      | a # _ \<Rightarrow>
          do {
            c \<leftarrow> (case a of
                    A_FLOAT f \<Rightarrow>
                      map_option (\<lambda>i. i AND 0xFFFFFF) (c_int_of_float (atom_getfloatarg 0 [a]))
                  | A_SYMBOL s \<Rightarrow>
                      (case atom_getsymbolarg 0 [a] of
                         [] \<Rightarrow> Some DEFCOLOR
                       | ch # _ \<Rightarrow>
                           if ch = CHR ''#'' then hexcolor2int (atom_getsymbolarg 0 [a])
                           else Some DEFCOLOR)
                  | _ \<Rightarrow> Some DEFCOLOR);
            Some (if glist_isvisible h then [draw_fillcolor BASE c] else [],
                  mp\<lparr>intcolor := c\<rparr>)
          })"

text \<open>Nominal width and height; \<open>w\<close> and \<open>h\<close> are the locals \<open>width\<close> and \<open>height\<close>.\<close>

definition mousepad_size :: "t_mousepad \<Rightarrow> t_atom list \<Rightarrow> t_mousepad option" where
  "mousepad_size mp argv =
     do {
       w0 \<leftarrow> (if 1 \<le> length argv
              then (case argv ! 0 of A_FLOAT f \<Rightarrow> c_int_of_float f | _ \<Rightarrow> Some DEFSIZE)
              else Some DEFSIZE);
       h0 \<leftarrow> (if 1 \<le> length argv
              then (if length argv = 1 then Some w0
                    else (case argv ! 1 of A_FLOAT f \<Rightarrow> c_int_of_float f | _ \<Rightarrow> Some DEFSIZE))
              else Some DEFSIZE);
       let w = (if w0 <s 1 then 1 else w0);
       let h = (if h0 <s 1 then 1 else h0);
       Some (mp\<lparr>width := w, height := h, pixw := w * zoomfactor mp, pixh := h * zoomfactor mp\<rparr>)
     }"

definition mousepad_resize ::
  "host \<Rightarrow> t_mousepad \<Rightarrow> t_atom list \<Rightarrow> (host_call list \<times> t_mousepad) option" where
  "mousepad_resize h mp argv =
     do {
       mp' \<leftarrow> mousepad_size mp argv;
       Some (mousepad_draw h mp' False 0, mp')
     }"

definition mousepad_dirty :: "host_call list" where
  "mousepad_dirty = [Canvas_dirty]"

subsection \<open>Send and receive names\<close>

text \<open>\<open>change\<close> is \<open>was_sendable - is_sendable\<close> on the two flags, each 0 or 1.\<close>

definition mousepad_send ::
  "host \<Rightarrow> t_mousepad \<Rightarrow> t_symbol \<Rightarrow> host_call list \<times> t_mousepad" where
  "mousepad_send h mp sendname' =
     (let was_sendable = (sendname mp \<noteq> symEmpty);
          name = (if sendname' = [] then symEmpty else sendname');
          is_sendable = (name \<noteq> symEmpty);
          mp' = mp\<lparr>sendname_unexpanded := name, sendname := canvas_realizedollar h name\<rparr>;
          change = (of_bool was_sendable - of_bool is_sendable :: cint)
      in (if change \<noteq> 0 then mousepad_change_io h mp' change INLET else [], mp'))"

definition mousepad_receive ::
  "host \<Rightarrow> t_mousepad \<Rightarrow> t_symbol \<Rightarrow> host_call list \<times> t_mousepad" where
  "mousepad_receive h mp receivename' =
     (let was_receivable = (receivename mp \<noteq> symEmpty);
          unbind = (if was_receivable then [Pd_unbind (receivename mp)] else []);
          name = (if receivename' = [] then symEmpty else receivename');
          mp1 = mp\<lparr>receivename_unexpanded := name\<rparr>;
          expanded = canvas_realizedollar h name;
          is_receivable = (expanded \<noteq> symEmpty);
          bind = (if is_receivable then [Pd_bind expanded] else []);
          mp2 = mp1\<lparr>receivename := expanded\<rparr>;
          change = (of_bool was_receivable - of_bool is_receivable :: cint)
      in (unbind @ bind @ (if change \<noteq> 0 then mousepad_change_io h mp2 change OUTLET else []),
          mp2))"

subsection \<open>Creation, init, deletion\<close>

definition mousepad_init_unexpanded :: "host \<Rightarrow> t_mousepad \<Rightarrow> t_mousepad" where
  "mousepad_init_unexpanded h mp =
     (if 4 < length (te_binbuf mp)
      then
        (let mp1 = (if sendname_unexpanded mp = symEmpty
                    then mp\<lparr>sendname_unexpanded := atom_string h (te_binbuf mp ! 3)\<rparr>
                    else mp)
         in if receivename_unexpanded mp1 = symEmpty
            then mp1\<lparr>receivename_unexpanded := atom_string h (te_binbuf mp1 ! 4)\<rparr>
            else mp1)
      else mp)"

text \<open>\<open>sprintf\<close> with \<open>%#lX\<close>: upper-case hexadecimal, prefixed with \<open>0X\<close> unless the
  value is 0. \<open>self\<close> is the address of the object.\<close>

fun hex_upper :: "nat \<Rightarrow> string" where
  "hex_upper n =
     (if n < 16 then [''0123456789ABCDEF'' ! n]
      else hex_upper (n div 16) @ [''0123456789ABCDEF'' ! (n mod 16)])"

definition sprintf_lX :: "nat \<Rightarrow> string" where
  "sprintf_lX n = (if n = 0 then ''0'' else ''0X'' @ hex_upper n)"

definition mousepad_fixed_sendreceive ::
  "nat \<Rightarrow> t_mousepad \<Rightarrow> host_call list \<times> t_mousepad" where
  "mousepad_fixed_sendreceive self mp =
     (let mp' = mp\<lparr>objID := sprintf_lX self,
                   sendname_fixed := ''from-mousepad-'' @ sprintf_lX self,
                   receivename_fixed := ''to-mousepad-'' @ sprintf_lX self\<rparr>
      in ([Pd_bind (receivename_fixed mp')], mp'))"

text \<open>\<open>pd_new\<close> hands out zeroed memory: numbers are 0, atoms have type \<open>A_NULL\<close>; the
  symbol pointers are null, and every one of them is assigned before it is read.\<close>

definition pd_new :: t_mousepad where
  "pd_new =
     \<lparr>te_xpix = 0, te_ypix = 0, te_binbuf = [],
      width = 0, height = 0, xval = 0, yval = 0, pixw = 0, pixh = 0,
      zoomfactor = 0, buttonstate = 0, intcolor = 0,
      sendname = [], receivename = [], sendname_unexpanded = [], receivename_unexpanded = [],
      objID = [], sendname_fixed = [], receivename_fixed = [],
      out0 = A_NULL, out1 = A_NULL, out2 = A_NULL\<rparr>"

text \<open>\<open>mousepad_color(mp, s, 1, argv + 4)\<close> sees the one atom \<open>argv[4]\<close>.\<close>

definition mousepad_new ::
  "host \<Rightarrow> nat \<Rightarrow> t_atom list \<Rightarrow> (host_call list \<times> t_mousepad) option" where
  "mousepad_new h self argv =
     do {
       let mp0 = pd_new\<lparr>intcolor := DEFCOLOR, zoomfactor := DEFZOOM, xval := 0, yval := 0,
                        buttonstate := 0, sendname := symEmpty, receivename := symEmpty\<rparr>;
       mp1 \<leftarrow> mousepad_size mp0 argv;
       let (e2, mp2) = mousepad_send h mp1 (atom_getsymbolarg 2 argv);
       let (e3, mp3) = mousepad_receive h mp2 (atom_getsymbolarg 3 argv);
       (e4, mp4) \<leftarrow> (if 5 \<le> length argv then mousepad_color h mp3 (take 1 (drop 4 argv))
                      else Some ([], mp3));
       let mp5 = mp4\<lparr>sendname_unexpanded := symEmpty, receivename_unexpanded := symEmpty\<rparr>;
       let (e6, mp6) = mousepad_fixed_sendreceive self mp5;
       Some (Outlet_new # e2 @ e3 @ e4 @ Clock_delay # e6, mp6)
     }"

definition mousepad_free :: "t_mousepad \<Rightarrow> host_call list" where
  "mousepad_free mp =
     Pd_unbind (receivename_fixed mp)
       # (if receivename mp \<noteq> symEmpty then [Pd_unbind (receivename mp)] else [])"

subsection \<open>The life of an object\<close>

text \<open>The callbacks Pd can invoke on a live object, as registered in \<open>mousepad_setup\<close>:
  the methods for the selectors \<open>motion\<close>, \<open>size\<close>, \<open>color\<close>, \<open>delta\<close>, \<open>pos\<close>, \<open>send\<close>,
  \<open>receive\<close>, \<open>status\<close>, \<open>get\<close>, \<open>dirty\<close> and \<open>zoom\<close>, the widget behaviour, the save
  function and the clock callback. (\<open>mousepad_properties\<close> opens a file and a patch; it
  reads \<open>objID\<close> and writes no field.)\<close>

datatype callback =
    Motion t_float t_float
  | Size "t_atom list"
  | Color "t_atom list"
  | Delta t_float t_float
  | Pos t_float t_float
  | Send t_symbol
  | Receive t_symbol
  | Status
  | Get t_symbol
  | Dirty
  | Zoom t_float
  | Getrect
  | Displace cint cint
  | Select bool
  | Delete
  | Vis bool
  | Click cint cint cint cint cint cint
  | Save
  | Init_unexpanded

definition invoke ::
  "host \<Rightarrow> callback \<Rightarrow> t_mousepad \<Rightarrow> (host_call list \<times> t_mousepad) option" where
  "invoke h cb mp =
     (case cb of
        Motion dx dy \<Rightarrow> mousepad_motion h mp dx dy
      | Size argv \<Rightarrow> mousepad_resize h mp argv
      | Color argv \<Rightarrow> mousepad_color h mp argv
      | Delta dx dy \<Rightarrow> mousepad_delta h mp dx dy
      | Pos x y \<Rightarrow> mousepad_pos h mp x y
      | Send s \<Rightarrow> Some (mousepad_send h mp s)
      | Receive s \<Rightarrow> Some (mousepad_receive h mp s)
      | Status \<Rightarrow> Some (mousepad_status mp, mp)
      | Get s \<Rightarrow> mousepad_get h mp s
      | Dirty \<Rightarrow> Some (mousepad_dirty, mp)
      | Zoom z \<Rightarrow> mousepad_zoom h mp z
      | Getrect \<Rightarrow> Some ([], mp)
      | Displace dx dy \<Rightarrow> Some (mousepad_displace h mp dx dy)
      | Select b \<Rightarrow> Some (mousepad_select h b, mp)
      | Delete \<Rightarrow> Some (mousepad_delete, mp)
      | Vis b \<Rightarrow> Some (mousepad_vis h mp b, mp)
      | Click xpix ypix shift alt dbl b \<Rightarrow>
          map_option (\<lambda>(e, mp', r). (e, mp')) (mousepad_click h mp xpix ypix shift alt dbl b)
      | Save \<Rightarrow> map_option (\<lambda>b. ([], mp)) (mousepad_save mp)
      | Init_unexpanded \<Rightarrow> Some ([], mousepad_init_unexpanded h mp))"

text \<open>A run: callbacks one after the other, each with the host as it is at that moment.
  Between two callbacks Pd may replace the object's binbuf (it installs it after
  \<open>mousepad_new\<close> has returned); the third component is the binbuf now in place, if Pd
  changed it.\<close>

fun run ::
  "(host \<times> callback \<times> t_atom list option) list \<Rightarrow> t_mousepad
     \<Rightarrow> (host_call list \<times> t_mousepad) option" where
  "run [] mp = Some ([], mp)"
| "run ((h, cb, b) # rest) mp =
     (case invoke h cb (case b of None \<Rightarrow> mp | Some bb \<Rightarrow> mp\<lparr>te_binbuf := bb\<rparr>) of
        None \<Rightarrow> None
      | Some (e, mp') \<Rightarrow>
          (case run rest mp' of None \<Rightarrow> None | Some (e', mp'') \<Rightarrow> Some (e @ e', mp'')))"

text \<open>The names an object is bound to, as a multiset: \<open>pd_bind\<close> adds one binding,
  \<open>pd_unbind\<close> removes one (and reports an error, changing nothing, if there is none).\<close>

fun bindings :: "host_call list \<Rightarrow> t_symbol multiset \<Rightarrow> t_symbol multiset" where
  "bindings [] m = m"
| "bindings (Pd_bind s # es) m = bindings es (add_mset s m)"
| "bindings (Pd_unbind s # es) m = bindings es (m - {#s#})"
| "bindings (_ # es) m = bindings es m"

subsection \<open>Invariants\<close>

text \<open>The nominal size is at least 1 by 1, and the pixel size is the nominal size times
  the zoom factor.\<close>

definition size_inv :: "t_mousepad \<Rightarrow> bool" where
  "size_inv mp \<longleftrightarrow>
     1 \<le>s width mp \<and> 1 \<le>s height mp
     \<and> pixw mp = width mp * zoomfactor mp \<and> pixh mp = height mp * zoomfactor mp"

text \<open>The colour is a 24-bit colour.\<close>

definition color_inv :: "t_mousepad \<Rightarrow> bool" where
  "color_inv mp \<longleftrightarrow> 0 \<le>s intcolor mp \<and> intcolor mp \<le>s 0xFFFFFF"

text \<open>Six cells that each hold one hexadecimal digit: the buffer of \<open>hexcolor2int\<close>.\<close>

definition nibbles :: "cint list \<Rightarrow> bool" where
  "nibbles buf \<longleftrightarrow> length buf = 6 \<and> (\<forall>x \<in> set buf. x < 16)"

text \<open>An integer that \<open>(t_float)\<close> converts without rounding.\<close>

definition float_exact :: "cint \<Rightarrow> bool" where
  "float_exact i \<longleftrightarrow> float_round (sint i) = sint i"

text \<open>The reals that a \<open>t_float\<close> can hold are among those with at most 24 significant
  bits (the bounds on the exponent play no role here); \<open>float_atoms\<close> says that the float
  atoms of a message hold such values, \<open>float_callback\<close> says it of a \<open>size\<close> message.\<close>

definition is_t_float :: "real \<Rightarrow> bool" where
  "is_t_float f \<longleftrightarrow>
     (\<exists>(m :: int) (k :: nat). \<bar>m\<bar> < 2 ^ 24 \<and> (f = of_int m * 2 ^ k \<or> f = of_int m / 2 ^ k))"

definition float_atoms :: "t_atom list \<Rightarrow> bool" where
  "float_atoms argv \<longleftrightarrow> (\<forall>f. A_FLOAT f \<in> set argv \<longrightarrow> is_t_float f)"

definition float_callback :: "callback \<Rightarrow> bool" where
  "float_callback cb \<longleftrightarrow> (case cb of Size argv \<Rightarrow> float_atoms argv | _ \<Rightarrow> True)"

text \<open>The float atoms of a message hold values that \<open>(int)\<close> converts.\<close>

definition int_atoms :: "t_atom list \<Rightarrow> bool" where
  "int_atoms argv \<longleftrightarrow> (\<forall>f. A_FLOAT f \<in> set argv \<longrightarrow> c_int_of_float f \<noteq> None)"

text \<open>Width and height are integers that a float holds exactly.\<close>

definition float_size :: "t_mousepad \<Rightarrow> bool" where
  "float_size mp \<longleftrightarrow> float_exact (width mp) \<and> float_exact (height mp)"

text \<open>The calls that bind and unbind, and the invariant of the bindings: the object is
  bound to its fixed receive name, and to its receive name when that is not \<open>empty\<close>.\<close>

fun is_binding :: "host_call \<Rightarrow> bool" where
  "is_binding (Pd_bind s) = True"
| "is_binding (Pd_unbind s) = True"
| "is_binding _ = False"

definition bound_inv :: "t_mousepad \<Rightarrow> t_symbol multiset \<Rightarrow> bool" where
  "bound_inv mp m \<longleftrightarrow>
     m = {#receivename_fixed mp#}
           + (if receivename mp \<noteq> symEmpty then {#receivename mp#} else {#})"

text \<open>What a callback other than \<open>receive\<close> leaves alone.\<close>

definition keeps_receive :: "host_call list \<times> t_mousepad \<Rightarrow> t_mousepad \<Rightarrow> bool" where
  "keeps_receive r mp \<longleftrightarrow>
     filter is_binding (fst r) = [] \<and> receivename (snd r) = receivename mp
     \<and> receivename_fixed (snd r) = receivename_fixed mp"

subsection \<open>Saving and loading\<close>

text \<open>The five creation arguments in a save line (after \<open>#X obj x y mousepad\<close>), and the
  object that \<open>mousepad_new\<close> makes from the arguments an object saves.\<close>

definition saved_args :: "t_atom list \<Rightarrow> t_atom list" where
  "saved_args line = take 5 (drop 5 line)"

definition reload :: "host \<Rightarrow> nat \<Rightarrow> t_mousepad \<Rightarrow> (host_call list \<times> t_mousepad) option" where
  "reload h self mp =
     (case mousepad_save mp of None \<Rightarrow> None | Some line \<Rightarrow> mousepad_new h self (saved_args line))"

text \<open>The objects that \<open>mousepad_new\<close> and callbacks make from atoms that hold floats.\<close>

definition reached :: "t_mousepad \<Rightarrow> bool" where
  "reached mp \<longleftrightarrow>
     (\<exists>h self argv e mp0 cbs e'.
        mousepad_new h self argv = Some (e, mp0) \<and> float_atoms argv
        \<and> run cbs mp0 = Some (e', mp) \<and> (\<forall>x \<in> set cbs. float_callback (fst (snd x))))"

text \<open>The name that \<open>mousepad_send\<close> and \<open>mousepad_receive\<close> make of their argument, and
  the names of an object in step: the expanded names are the expansions of the unexpanded
  ones.\<close>

definition expansion :: "host \<Rightarrow> t_symbol \<Rightarrow> t_symbol" where
  "expansion h s = canvas_realizedollar h (if s = [] then symEmpty else s)"

definition names_inv :: "host \<Rightarrow> t_mousepad \<Rightarrow> bool" where
  "names_inv h mp \<longleftrightarrow>
     sendname mp = expansion h (sendname_unexpanded mp)
     \<and> receivename mp = expansion h (receivename_unexpanded mp)"

text \<open>The binbuf of an object box holds the class name and the text of the creation
  arguments, and \<open>mousepad_new\<close> is given what Pd makes of that text. \<open>box_names\<close> is
  the part of this that concerns the names, for the box \<open>bb\<close> of an object \<open>mp\<close> new
  from \<open>mousepad_new\<close>: in a box of more than four atoms the fourth and the fifth are
  the text of the names, and their expansions are the names of the object; in a shorter
  box the object has no names.\<close>

definition box_names :: "host \<Rightarrow> t_atom list \<Rightarrow> t_mousepad \<Rightarrow> bool" where
  "box_names h bb mp \<longleftrightarrow>
     bb \<noteq> []
     \<and> (if 4 < length bb
         then sendname mp = expansion h (atom_string h (bb ! 3))
            \<and> receivename mp = expansion h (atom_string h (bb ! 4))
         else sendname mp = expansion h symEmpty \<and> receivename mp = expansion h symEmpty)"

text \<open>Before the clock callback has run: a name whose unexpanded form is still \<open>empty\<close>
  is the name that the object \<open>m0\<close> came with from \<open>mousepad_new\<close>, and a name that a
  message has set is in step.\<close>

definition names_pre :: "host \<Rightarrow> t_mousepad \<Rightarrow> t_mousepad \<Rightarrow> bool" where
  "names_pre h m0 mp \<longleftrightarrow>
     (if sendname_unexpanded mp = symEmpty then sendname mp = sendname m0
      else sendname mp = expansion h (sendname_unexpanded mp))
     \<and> (if receivename_unexpanded mp = symEmpty then receivename mp = receivename m0
        else receivename mp = expansion h (receivename_unexpanded mp))"

text \<open>A loaded object: made by \<open>mousepad_new\<close> in the host \<open>h\<close> and given its box by Pd;
  then callbacks \<open>pre\<close> may run, among them messages that set a name, though none that
  sets a name to \<open>empty\<close>; then the clock callback runs; then any callbacks \<open>cbs\<close>. All
  of it happens in hosts that expand names as \<open>h\<close> does. (The clock is set once, and Pd
  gives an object its binbuf once.)\<close>

definition later :: "host \<Rightarrow> host \<times> callback \<times> t_atom list option \<Rightarrow> bool" where
  "later h x \<longleftrightarrow>
     (case x of (h', cb, b) \<Rightarrow>
        canvas_realizedollar h' = canvas_realizedollar h \<and> float_callback cb
        \<and> cb \<noteq> Init_unexpanded \<and> b = None)"

definition early :: "host \<Rightarrow> host \<times> callback \<times> t_atom list option \<Rightarrow> bool" where
  "early h x \<longleftrightarrow>
     later h x
     \<and> (case fst (snd x) of
          Send s \<Rightarrow> s \<noteq> [] \<and> s \<noteq> symEmpty
        | Receive s \<Rightarrow> s \<noteq> [] \<and> s \<noteq> symEmpty
        | _ \<Rightarrow> True)"

definition loaded :: "host \<Rightarrow> t_mousepad \<Rightarrow> bool" where
  "loaded h mp \<longleftrightarrow>
     (\<exists>self argv e0 m0 bb pre cbs e.
        mousepad_new h self argv = Some (e0, m0) \<and> float_atoms argv \<and> box_names h bb m0
        \<and> run (pre @ (h, Init_unexpanded, None) # cbs) (m0\<lparr>te_binbuf := bb\<rparr>) = Some (e, mp)
        \<and> (\<forall>x \<in> set pre. early h x) \<and> (\<forall>x \<in> set cbs. later h x))"

subsection \<open>A concrete host and object, for the examples\<close>

text \<open>A visible glist at the top level, where the name \<open>foo\<close> has receivers, and the
  object that \<open>mousepad_new\<close> makes there at address \<open>0x1000\<close> from the arguments
  \<open>100 50 foo bar #abc\<close>.\<close>

definition host0 :: host where
  "host0 = \<lparr>glist_isvisible = True, text_xpix = scast, text_ypix = scast,
            s_thing = (\<lambda>s. s = ''foo''), canvas_realizedollar = id,
            atom_string = (\<lambda>a. case a of A_SYMBOL s \<Rightarrow> s | A_DOLLSYM s \<Rightarrow> s | _ \<Rightarrow> []),
            IOWIDTH = 7\<rparr>"

definition argv0 :: "t_atom list" where
  "argv0 = [A_FLOAT 100, A_FLOAT 50, A_SYMBOL ''foo'', A_SYMBOL ''bar'', A_SYMBOL ''#abc'']"

definition mp0 :: t_mousepad where
  "mp0 = \<lparr>te_xpix = 0, te_ypix = 0, te_binbuf = [], width = 100, height = 50,
      xval = 0, yval = 0, pixw = 100, pixh = 50, zoomfactor = 1,
      buttonstate = 0, intcolor = 0xAABBCC, sendname = ''foo'',
      receivename = ''bar'', sendname_unexpanded = ''empty'',
      receivename_unexpanded = ''empty'', objID = ''0X1000'',
      sendname_fixed = ''from-mousepad-0X1000'',
      receivename_fixed = ''to-mousepad-0X1000'', out0 = A_NULL,
      out1 = A_NULL, out2 = A_NULL\<rparr>"

text \<open>The binbuf Pd installs in that object, and the object once the clock callback
  \<open>mousepad_init_unexpanded\<close> has read the names from it.\<close>

definition binbuf0 :: "t_atom list" where
  "binbuf0 = A_SYMBOL ''mousepad'' # argv0"

definition mp2 :: t_mousepad where
  "mp2 = mp0\<lparr>te_binbuf := binbuf0, sendname_unexpanded := ''foo'',
              receivename_unexpanded := ''bar''\<rparr>"

text \<open>The same object with its binbuf installed, before the clock callback has run.\<close>

definition mp3 :: t_mousepad where
  "mp3 = mp0\<lparr>te_binbuf := binbuf0\<rparr>"

text \<open>An object created with a send name only, \<open>mousepad 64 64 foo\<close>, after Pd has installed
  its binbuf and the clock callback has run.\<close>

definition argv1 :: "t_atom list" where
  "argv1 = [A_FLOAT 64, A_FLOAT 64, A_SYMBOL ''foo'']"

definition binbuf1 :: "t_atom list" where
  "binbuf1 = A_SYMBOL ''mousepad'' # argv1"

definition mp1 :: t_mousepad where
  "mp1 = \<lparr>te_xpix = 0, te_ypix = 0, te_binbuf = binbuf1, width = 64, height = 64,
      xval = 0, yval = 0, pixw = 64, pixh = 64, zoomfactor = 1,
      buttonstate = 0, intcolor = 0xDDDDDD, sendname = ''foo'',
      receivename = ''empty'', sendname_unexpanded = ''empty'',
      receivename_unexpanded = ''empty'', objID = ''0X1000'',
      sendname_fixed = ''from-mousepad-0X1000'',
      receivename_fixed = ''to-mousepad-0X1000'', out0 = A_NULL,
      out1 = A_NULL, out2 = A_NULL\<rparr>"

section \<open>The colour codec\<close>

lemma buf8: "replicate 8 x = [x, x, x, x, x, x, x, x]"
  by (simp add: eval_nat_numeral)

lemma buf6: "replicate 6 x = [x, x, x, x, x, x]"
  by (simp add: eval_nat_numeral)

lemma nibblemask_shifts:
  "signed_drop_bit 4 (0xF00000 :: cint) = 0xF0000"
  "signed_drop_bit 4 (0xF0000 :: cint) = 0xF000"
  "signed_drop_bit 4 (0xF000 :: cint) = 0xF00"
  "signed_drop_bit 4 (0xF00 :: cint) = 0xF0"
  "signed_drop_bit 4 (0xF0 :: cint) = 0xF"
  "signed_drop_bit 4 (0xF :: cint) = 0"
  by code_simp+

lemma nibble_of_color:
  fixes c :: cint
  shows "signed_drop_bit 20 (c AND 0xF00000) = take_bit 4 (drop_bit 20 c)"
    and "signed_drop_bit 16 (c AND 0xF0000) = take_bit 4 (drop_bit 16 c)"
    and "signed_drop_bit 12 (c AND 0xF000) = take_bit 4 (drop_bit 12 c)"
    and "signed_drop_bit 8 (c AND 0xF00) = take_bit 4 (drop_bit 8 c)"
    and "signed_drop_bit 4 (c AND 0xF0) = take_bit 4 (drop_bit 4 c)"
    and "c AND 0xF = take_bit 4 c"
proof -
  have m: "(0xF00000 :: cint) = push_bit 20 (mask 4)" "(0xF0000 :: cint) = push_bit 16 (mask 4)"
    "(0xF000 :: cint) = push_bit 12 (mask 4)" "(0xF00 :: cint) = push_bit 8 (mask 4)"
    "(0xF0 :: cint) = push_bit 4 (mask 4)" "(0xF :: cint) = mask 4"
    by (simp_all add: mask_eq_exp_minus_1)
  show "signed_drop_bit 20 (c AND 0xF00000) = take_bit 4 (drop_bit 20 c)"
    unfolding m by (rule bit_word_eqI) (auto simp add: bit_simps)
  show "signed_drop_bit 16 (c AND 0xF0000) = take_bit 4 (drop_bit 16 c)"
    unfolding m by (rule bit_word_eqI) (auto simp add: bit_simps)
  show "signed_drop_bit 12 (c AND 0xF000) = take_bit 4 (drop_bit 12 c)"
    unfolding m by (rule bit_word_eqI) (auto simp add: bit_simps)
  show "signed_drop_bit 8 (c AND 0xF00) = take_bit 4 (drop_bit 8 c)"
    unfolding m by (rule bit_word_eqI) (auto simp add: bit_simps)
  show "signed_drop_bit 4 (c AND 0xF0) = take_bit 4 (drop_bit 4 c)"
    unfolding m by (rule bit_word_eqI) (auto simp add: bit_simps)
  show "c AND 0xF = take_bit 4 c"
    unfolding m by (rule bit_word_eqI) (auto simp add: bit_simps)
qed

lemma int2hexcolor_chars:
  "int2hexcolor c =
     c_string [CHR ''#'', hexchar (take_bit 4 (drop_bit 20 c)),
       hexchar (take_bit 4 (drop_bit 16 c)), hexchar (take_bit 4 (drop_bit 12 c)),
       hexchar (take_bit 4 (drop_bit 8 c)), hexchar (take_bit 4 (drop_bit 4 c)),
       hexchar (take_bit 4 c), CHR 0x00]"
  by (simp add: int2hexcolor_def buf8 nibblemask_shifts nibble_of_color)

lemma nibble_cases:
  fixes n :: cint
  assumes "n < 16"
  shows "n \<in> {0, 1, 2, 3, 4, 5, 6, 7, 8, 9, 10, 11, 12, 13, 14, 15}"
proof -
  have "unat n < 16" using assms by (simp add: word_less_nat_alt)
  then have "unat n \<in> set [0..<16]" by simp
  then have "unat n \<in> {0, 1, 2, 3, 4, 5, 6, 7, 8, 9, 10, 11, 12, 13, 14, 15}"
    by (simp add: upt_rec numeral_eq_Suc)
  then have "of_nat (unat n)
      \<in> (of_nat ` {0, 1, 2, 3, 4, 5, 6, 7, 8, 9, 10, 11, 12, 13, 14, 15} :: cint set)"
    by (rule imageI)
  then show ?thesis by simp
qed

lemma take_bit_4_less: "take_bit 4 (w :: cint) < 16"
proof -
  have "unat (take_bit 4 w) < 2 ^ 4"
    unfolding unsigned_take_bit_eq by (rule take_bit_nat_less_exp)
  then show ?thesis by (simp add: word_less_nat_alt)
qed

lemma hexchar_digit:
  fixes n :: cint
  assumes "n < 16"
  shows "(of_char (hexchar n) :: cint) \<noteq> 0 \<and>
         store_digit (of_char (hexchar n)) i buf = buf[i := n]"
  using nibble_cases [OF assms]
  apply (elim insertE emptyE)
  apply (simp_all add: hexchar_def store_digit_def char_of_def word_sless_alt word_sle_eq)
  done

lemma hexchar_nonzero: "n < 16 \<Longrightarrow> hexchar n \<noteq> CHR 0x00"
  using hexchar_digit [of n] by auto

lemma hex_table:
  "zip ''0123456789ABCDEF'' [0..<16] @ zip ''abcdef'' [10..<16] =
     [(CHR ''0'', 0), (CHR ''1'', 1), (CHR ''2'', 2), (CHR ''3'', 3), (CHR ''4'', 4),
      (CHR ''5'', 5), (CHR ''6'', 6), (CHR ''7'', 7), (CHR ''8'', 8), (CHR ''9'', 9),
      (CHR ''A'', 10), (CHR ''B'', 11), (CHR ''C'', 12), (CHR ''D'', 13), (CHR ''E'', 14),
      (CHR ''F'', 15), (CHR ''a'', 10), (CHR ''b'', 11), (CHR ''c'', 12), (CHR ''d'', 13),
      (CHR ''e'', 14), (CHR ''f'', 15)]"
  by (simp add: upt_rec)

lemma hex_value_digit:
  assumes "hex_value d = Some v"
  shows "(of_char d :: cint) \<noteq> 0 \<and> store_digit (of_char d) i buf = buf[i := of_nat v]"
proof -
  from assms have "(d, v) \<in> set (zip ''0123456789ABCDEF'' [0..<16] @ zip ''abcdef'' [10..<16])"
    unfolding hex_value_def by (rule map_of_SomeD)
  then have "(d, v) \<in> {(CHR ''0'', 0), (CHR ''1'', 1), (CHR ''2'', 2), (CHR ''3'', 3), (CHR ''4'', 4),
      (CHR ''5'', 5), (CHR ''6'', 6), (CHR ''7'', 7), (CHR ''8'', 8), (CHR ''9'', 9),
      (CHR ''A'', 10), (CHR ''B'', 11), (CHR ''C'', 12), (CHR ''D'', 13), (CHR ''E'', 14),
      (CHR ''F'', 15), (CHR ''a'', 10), (CHR ''b'', 11), (CHR ''c'', 12), (CHR ''d'', 13),
      (CHR ''e'', 14), (CHR ''f'', 15)}"
    unfolding hex_table by simp
  then show ?thesis
    apply (elim insertE emptyE)
    apply (simp_all add: store_digit_def word_sless_alt word_sle_eq)
    done
qed

lemma scan6:
  assumes "of_char a \<noteq> (0::cint)" "of_char b \<noteq> (0::cint)" "of_char c \<noteq> (0::cint)" 
     "of_char d \<noteq> (0::cint)" "of_char e \<noteq> (0::cint)" "of_char f \<noteq> (0::cint)"
  shows "hexcolor2int_scan 0 (x # a # b # c # d # e # f # rest) buf = 
     Some (6, store_digit (of_char f) 5 (store_digit (of_char e) 4 (store_digit (of_char d) 3 
       (store_digit (of_char c) 2 (store_digit (of_char b) 1 (store_digit (of_char a) 0 buf))))))"
  using assms by (simp add: c_char_at_def eval_nat_numeral)

lemma scan3:
  assumes "of_char a \<noteq> (0::cint)" "of_char b \<noteq> (0::cint)" "of_char c \<noteq> (0::cint)" 
  shows "hexcolor2int_scan 0 [x, a, b, c] buf = 
     Some (3, (store_digit (of_char c) 2 (store_digit (of_char b) 1 (store_digit (of_char a) 0 buf))))"
  using assms by (simp add: c_char_at_def eval_nat_numeral)

lemma color_range:
  fixes c :: cint
  assumes "0 \<le>s c" "c \<le>s 0xFFFFFF"
  shows "take_bit 24 c = c"
proof -
  from assms have s: "0 \<le> sint c" "sint c \<le> 16777215"
    by (simp_all add: word_sle_eq)
  then have "take_bit 32 (sint c) = sint c"
    by (intro take_bit_int_eq_self) simp_all
  then have "uint c = sint c" by (simp add: uint_sint)
  with s have "uint c < 2 ^ 24" by simp
  then have "c AND mask 24 = c" by (simp only: mask_eq_iff)
  then show ?thesis by (simp only: take_bit_eq_mask)
qed

lemma pack_step:
  fixes c :: cint
  shows "push_bit 4 (take_bit k (drop_bit (m + 4) c)) + take_bit 4 (drop_bit m c)
           = take_bit (k + 4) (drop_bit m c)"
proof -
  have "push_bit 4 (drop_bit 4 (take_bit (k + 4) (drop_bit m c)))
          + take_bit 4 (take_bit (k + 4) (drop_bit m c)) = take_bit (k + 4) (drop_bit m c)"
    by (rule bits_ident)
  then show ?thesis
    by (simp add: drop_bit_take_bit add.commute [of m 4])
qed

lemma pack6:
  "hexcolor2int_pack 0 [a, b, c, d, e, f] 0 =
     push_bit 4 (push_bit 4 (push_bit 4 (push_bit 4 (push_bit 4 a + b) + c) + d) + e) + f"
  by simp

lemma nibbles_of_color:
  fixes c :: cint
  shows "push_bit 4 (push_bit 4 (push_bit 4 (push_bit 4 (push_bit 4
           (take_bit 4 (drop_bit 20 c)) + take_bit 4 (drop_bit 16 c))
           + take_bit 4 (drop_bit 12 c)) + take_bit 4 (drop_bit 8 c))
           + take_bit 4 (drop_bit 4 c)) + take_bit 4 c = take_bit 24 c"
  using pack_step [of 4 16 c] pack_step [of 8 12 c] pack_step [of 12 8 c]
    pack_step [of 16 4 c] pack_step [of 20 0 c]
  by simp

lemma int2hexcolor_string:
  "int2hexcolor c =
     [CHR ''#'', hexchar (take_bit 4 (drop_bit 20 c)),
       hexchar (take_bit 4 (drop_bit 16 c)), hexchar (take_bit 4 (drop_bit 12 c)),
       hexchar (take_bit 4 (drop_bit 8 c)), hexchar (take_bit 4 (drop_bit 4 c)),
       hexchar (take_bit 4 c)]"
  by (simp add: int2hexcolor_chars c_string_def hexchar_nonzero take_bit_4_less)

lemma hexcolor2int_int2hexcolor: "hexcolor2int (int2hexcolor c) = Some (take_bit 24 c)"
proof -
  note d = hexchar_digit [OF take_bit_4_less]
  have "hexcolor2int_scan 0 (int2hexcolor c) [0, 0, 0, 0, 0, 0] =
      Some (6, [take_bit 4 (drop_bit 20 c), take_bit 4 (drop_bit 16 c), take_bit 4 (drop_bit 12 c),
        take_bit 4 (drop_bit 8 c), take_bit 4 (drop_bit 4 c), take_bit 4 c])"
    unfolding int2hexcolor_string
    by (subst scan6) (simp_all add: d)
  then show ?thesis
    unfolding hexcolor2int_def buf6
    by (simp add: pack6 nibbles_of_color del: hexcolor2int_pack.simps)
qed

text \<open>
  Claim C1. For every colour \<open>c\<close> with \<open>0 \<le> c \<le> 0xFFFFFF\<close>, \<open>int2hexcolor c\<close> is a string of
  seven characters that starts with \<open>#\<close>, and \<open>hexcolor2int\<close> parses it back to \<open>c\<close>.
\<close>

theorem int2hexcolor_hexcolor2int_roundtrip:
  assumes "0 \<le>s c" and "c \<le>s 0xFFFFFF"
  shows "length (int2hexcolor c) = 7 \<and> hd (int2hexcolor c) = CHR ''#''
           \<and> hexcolor2int (int2hexcolor c) = Some c"
  using color_range [OF assms]
  by (simp add: hexcolor2int_int2hexcolor) (simp add: int2hexcolor_string)

theorem int2hexcolor_hexcolor2int_roundtrip_witness:
  "(0 :: cint) \<le>s 0x12AB0F \<and> (0x12AB0F :: cint) \<le>s 0xFFFFFF
     \<and> int2hexcolor 0x12AB0F = ''#12AB0F''
     \<and> hexcolor2int ''#12AB0F'' = Some 0x12AB0F"
proof -
  have s: "int2hexcolor 0x12AB0F = ''#12AB0F''" by code_simp
  have h: "(0 :: cint) \<le>s 0x12AB0F" "(0x12AB0F :: cint) \<le>s 0xFFFFFF"
    by (simp_all add: word_sle_eq)
  from int2hexcolor_hexcolor2int_roundtrip [OF h] show ?thesis
    using h unfolding s by simp
qed

text \<open>
  Claim C9. For three hexadecimal digits \<open>d0 d1 d2\<close> with values \<open>v0 v1 v2\<close>, the
  shorthand \<open>#d0d1d2\<close> (the name ends after the third digit) parses to the integer whose
  six nibbles, most significant first, are \<open>v0 v0 v1 v1 v2 v2\<close>, which is also what the
  full form \<open>#d0d0d1d1d2d2\<close> parses to.
\<close>

theorem hexcolor2int_shorthand:
  assumes "hex_value d0 = Some v0" and "hex_value d1 = Some v1" and "hex_value d2 = Some v2"
  shows "hexcolor2int [CHR ''#'', d0, d1, d2] =
           Some (of_nat (((((v0 * 16 + v0) * 16 + v1) * 16 + v1) * 16 + v2) * 16 + v2))
         \<and> hexcolor2int [CHR ''#'', d0, d1, d2] = hexcolor2int [CHR ''#'', d0, d0, d1, d1, d2, d2]"
proof -
  note d = hex_value_digit [OF assms(1)] hex_value_digit [OF assms(2)] hex_value_digit [OF assms(3)]
  have s3: "hexcolor2int_scan 0 [CHR ''#'', d0, d1, d2] [0, 0, 0, 0, 0, 0] =
      Some (3, [of_nat v0, of_nat v1, of_nat v2, 0, 0, 0])"
    by (subst scan3) (simp_all add: d)
  have s6: "hexcolor2int_scan 0 [CHR ''#'', d0, d0, d1, d1, d2, d2] [0, 0, 0, 0, 0, 0] =
      Some (6, [of_nat v0, of_nat v0, of_nat v1, of_nat v1, of_nat v2, of_nat v2])"
    by (subst scan6) (simp_all add: d)
  have u: "upsample [of_nat v0, of_nat v1, of_nat v2, 0, 0, 0] =
      [of_nat v0, of_nat v0, of_nat v1, of_nat v1, of_nat v2, of_nat v2 :: cint]"
    by (simp add: upsample_def)
  show ?thesis
    unfolding hexcolor2int_def buf6 s3 s6
    by (simp add: u pack6 push_bit_eq_mult del: hexcolor2int_pack.simps)
qed

theorem hexcolor2int_shorthand_witness:
  "hex_value CHR ''a'' = Some 10 \<and> hex_value CHR ''B'' = Some 11 \<and> hex_value CHR ''7'' = Some 7
     \<and> hexcolor2int ''#aB7'' = Some 0xAABB77 \<and> hexcolor2int ''#aB7'' = hexcolor2int ''#aaBB77''"
proof -
  have h: "hex_value CHR ''a'' = Some 10" "hex_value CHR ''B'' = Some 11"
    "hex_value CHR ''7'' = Some 7"
    unfolding hex_value_def hex_table by simp_all
  have r: "of_nat (((((10 * 16 + 10) * 16 + 11) * 16 + 11) * 16 + 7) * 16 + 7) = (0xAABB77 :: cint)"
    by simp
  from hexcolor2int_shorthand [OF h] h show ?thesis
    unfolding r by blast
qed

section \<open>Event callbacks\<close>

lemma c_div_pos: "0 <s b \<Longrightarrow> c_div a b = Some (c_quot a b)"
  by (auto simp add: c_div_def word_sless_alt)

lemma float_round_exact: "\<bar>k\<bar> < 2 ^ 24 \<Longrightarrow> float_round k = k"
proof -
  assume a: "\<bar>k\<bar> < 2 ^ 24"
  have "(2::int) ^ 24 \<le> 2 ^ (24 + i)" for i :: nat
    by (rule power_increasing) simp_all
  with a have "\<not> 2 ^ (24 + i) \<le> \<bar>k\<bar>" for i :: nat
    by (meson less_le_trans not_le)
  then have "filter (\<lambda>i. 2 ^ (24 + i) \<le> \<bar>k\<bar>) [0..<8] = []"
    unfolding filter_empty_conv by blast
  then show ?thesis
    by (simp add: float_round_def Let_def del: upt_Suc) (simp add: mult_sgn_abs)
qed

lemma t_float_of_int_exact:
  "- (2 ^ 24) < sint i \<Longrightarrow> sint i < 2 ^ 24 \<Longrightarrow> t_float_of_int i = real_of_int (sint i)"
  by (simp add: t_float_of_int_def float_round_exact)

lemma hex_upper_4096: "sprintf_lX 4096 = ''0X1000''"
  by (simp add: sprintf_lX_def)

lemma abc: "hexcolor2int ''#abc'' = Some 0xAABBCC"
  by code_simp

lemma trunc_lits: "c_trunc 0 = 0" "c_trunc 2 = 2" "c_trunc 3 = 3" "c_trunc (- 2) = - 2"
  "c_trunc 10 = 10" "c_trunc 50 = 50" "c_trunc 64 = 64" "c_trunc 100 = 100"
  by (simp_all add: c_trunc_def)

lemma cif_lits:
  "(ucast (t_int_of_float 0) :: cint) = 0" "(ucast (t_int_of_float 3) :: cint) = 3"
  "(ucast (t_int_of_float (- 2)) :: cint) = - 2"
  by (simp_all add: t_int_of_float_def trunc_lits)

lemma int_lits:
  "c_int_of_float 0 = Some 0" "c_int_of_float 2 = Some 2" "c_int_of_float (- 2) = Some (- 2)"
  "c_int_of_float 10 = Some 10" "c_int_of_float 50 = Some 50" "c_int_of_float 64 = Some 64"
  "c_int_of_float 100 = Some 100"
  by (simp_all add: c_int_of_float_def trunc_lits)

lemma mousepad_new_example:
  "mousepad_new host0 4096 argv0 =
     Some ([Outlet_new, Sys_vgui_delete 2, Pd_bind ''bar'', Sys_vgui_delete 4,
            Sys_vgui_fill 1 0xAABBCC, Clock_delay, Pd_bind ''to-mousepad-0X1000''], mp0)"
  by (simp add: mousepad_new_def host0_def argv0_def mp0_def pd_new_def mousepad_size_def
       mousepad_send_def mousepad_receive_def mousepad_color_def mousepad_fixed_sendreceive_def
       mousepad_change_io_def draw_erase_def draw_fillcolor_def atom_getsymbolarg_def
       atom_getfloatarg_def int_lits symEmpty_def
       DEFCOLOR_def DEFZOOM_def DEFSIZE_def INLET_def OUTLET_def BASE_def hex_upper_4096 abc
       Let_def word_sless_alt)

lemma zoom0: "0 <s zoomfactor mp0"
  by (simp add: mp0_def word_sless_alt)

lemma float_lits:
  "t_float_of_int 0 = 0" "t_float_of_int 1 = 1" "t_float_of_int 3 = 3" "t_float_of_int (- 2) = - 2"
  "t_float_of_int 10 = 10" "t_float_of_int 20 = 20" "t_float_of_int 5 = 5"
  by (simp_all add: t_float_of_int_exact)

lemma quot_lits:
  "c_quot 3 1 = 3" "c_quot (- 2) 1 = - 2" "c_quot 10 1 = 10" "c_quot 20 1 = 20"
  by (simp_all add: c_quot_def signed_divide_int_def)

lemma motion_unchanged:
  assumes "(ucast (t_int_of_float dx) :: cint) = 0" and "(ucast (t_int_of_float dy) :: cint) = 0"
  shows "mousepad_motion h mp dx dy = Some ([], mp)"
  using assms by (simp add: mousepad_motion_def)

lemma motion_moved:
  assumes nz: "\<not> ((ucast (t_int_of_float dx) :: cint) = 0 \<and> (ucast (t_int_of_float dy) :: cint) = 0)" and z: "0 <s zoomfactor mp"
  shows "mousepad_motion h mp dx dy =
     Some (forward h mp (sendname mp \<noteq> symEmpty) symDrag
             [A_FLOAT (t_float_of_int (c_quot (xval mp + (ucast (t_int_of_float dx) :: cint)) (zoomfactor mp))),
              A_FLOAT (t_float_of_int (c_quot (yval mp + (ucast (t_int_of_float dy) :: cint)) (zoomfactor mp)))]
           @ forward h mp (sendname mp \<noteq> symEmpty) symDeltas
             [A_FLOAT (t_float_of_int (c_quot ((ucast (t_int_of_float dx) :: cint)) (zoomfactor mp))),
              A_FLOAT (t_float_of_int (c_quot ((ucast (t_int_of_float dy) :: cint)) (zoomfactor mp)))],
           mp\<lparr>xval := xval mp + (ucast (t_int_of_float dx) :: cint), yval := yval mp + (ucast (t_int_of_float dy) :: cint),
              out0 := A_FLOAT (t_float_of_int (c_quot ((ucast (t_int_of_float dx) :: cint)) (zoomfactor mp))),
              out1 := A_FLOAT (t_float_of_int (c_quot ((ucast (t_int_of_float dy) :: cint)) (zoomfactor mp)))\<rparr>)"
proof -
  from nz have "(ucast (t_int_of_float dx) :: cint) OR (ucast (t_int_of_float dy) :: cint) \<noteq> 0"
    by (simp add: or_eq_0_iff)
  moreover note d = c_div_pos [OF z]
  ultimately show ?thesis
    by (simp add: mousepad_motion_def Let_def d forward_def)
qed

text \<open>
  Claim C2. With \<open>int deltax = (t_int)dx\<close> and \<open>int deltay = (t_int)dy\<close>: if both are 0 the callback
  emits nothing and returns the object as it was. Otherwise (for a positive zoom factor,
  so that the divisions are defined) it adds the deltas to \<open>xval\<close> and \<open>yval\<close> and emits,
  in this order, \<open>drag\<close> with \<open>(xval / zoomfactor, yval / zoomfactor)\<close> and \<open>deltas\<close> with
  \<open>(deltax / zoomfactor, deltay / zoomfactor)\<close>, each to the outlet and then, exactly when
  the send name is not \<open>empty\<close> and has receivers, to the send name.
\<close>

theorem mousepad_motion_forwards:
  "((ucast (t_int_of_float dx) :: cint) = 0 \<and> (ucast (t_int_of_float dy) :: cint) = 0 \<longrightarrow> mousepad_motion h mp dx dy = Some ([], mp))
   \<and> (\<not> ((ucast (t_int_of_float dx) :: cint) = 0 \<and> (ucast (t_int_of_float dy) :: cint) = 0) \<and> 0 <s zoomfactor mp \<longrightarrow>
        mousepad_motion h mp dx dy =
          (let deltax = (ucast (t_int_of_float dx) :: cint);
               deltay = (ucast (t_int_of_float dy) :: cint);
               z = zoomfactor mp;
               drag = [A_FLOAT (t_float_of_int (c_quot (xval mp + deltax) z)),
                       A_FLOAT (t_float_of_int (c_quot (yval mp + deltay) z))];
               deltas = [A_FLOAT (t_float_of_int (c_quot deltax z)),
                         A_FLOAT (t_float_of_int (c_quot deltay z))];
               repeated = (sendname mp \<noteq> symEmpty \<and> s_thing h (sendname mp))
           in Some ([Outlet_anything symDrag drag]
                    @ (if repeated then [Typedmess (sendname mp) symDrag drag] else [])
                    @ [Outlet_anything symDeltas deltas]
                    @ (if repeated then [Typedmess (sendname mp) symDeltas deltas] else []),
                    mp\<lparr>xval := xval mp + deltax, yval := yval mp + deltay,
                       out0 := deltas ! 0, out1 := deltas ! 1\<rparr>)))"
proof (intro conjI impI)
  assume "(ucast (t_int_of_float dx) :: cint) = 0 \<and> (ucast (t_int_of_float dy) :: cint) = 0"
  then show "mousepad_motion h mp dx dy = Some ([], mp)"
    by (simp add: motion_unchanged)
next
  assume a: "\<not> ((ucast (t_int_of_float dx) :: cint) = 0 \<and> (ucast (t_int_of_float dy) :: cint) = 0) \<and> 0 <s zoomfactor mp"
  then have n: "\<not> ((ucast (t_int_of_float dx) :: cint) = 0 \<and> (ucast (t_int_of_float dy) :: cint) = 0)" and z: "0 <s zoomfactor mp"
    by simp_all
  show "mousepad_motion h mp dx dy =
          (let deltax = (ucast (t_int_of_float dx) :: cint);
               deltay = (ucast (t_int_of_float dy) :: cint);
               z = zoomfactor mp;
               drag = [A_FLOAT (t_float_of_int (c_quot (xval mp + deltax) z)),
                       A_FLOAT (t_float_of_int (c_quot (yval mp + deltay) z))];
               deltas = [A_FLOAT (t_float_of_int (c_quot deltax z)),
                         A_FLOAT (t_float_of_int (c_quot deltay z))];
               repeated = (sendname mp \<noteq> symEmpty \<and> s_thing h (sendname mp))
           in Some ([Outlet_anything symDrag drag]
                    @ (if repeated then [Typedmess (sendname mp) symDrag drag] else [])
                    @ [Outlet_anything symDeltas deltas]
                    @ (if repeated then [Typedmess (sendname mp) symDeltas deltas] else []),
                    mp\<lparr>xval := xval mp + deltax, yval := yval mp + deltay,
                       out0 := deltas ! 0, out1 := deltas ! 1\<rparr>))"
    unfolding motion_moved [OF n z] Let_def
    by (simp add: forward_def)
qed

theorem mousepad_motion_forwards_witness:
  "(ucast (t_int_of_float 0) :: cint) = 0 \<and> mousepad_motion host0 mp0 0 0 = Some ([], mp0)
   \<and> (ucast (t_int_of_float 3) :: cint) \<noteq> 0 \<and> 0 <s zoomfactor mp0
   \<and> mousepad_motion host0 mp0 3 (- 2) =
       Some ([Outlet_anything ''drag'' [A_FLOAT 3, A_FLOAT (- 2)],
              Typedmess ''foo'' ''drag'' [A_FLOAT 3, A_FLOAT (- 2)],
              Outlet_anything ''deltas'' [A_FLOAT 3, A_FLOAT (- 2)],
              Typedmess ''foo'' ''deltas'' [A_FLOAT 3, A_FLOAT (- 2)]],
             mp0\<lparr>xval := 3, yval := - 2, out0 := A_FLOAT 3, out1 := A_FLOAT (- 2)\<rparr>)"
proof -
  have s: "sendname mp0 = ''foo''" "xval mp0 = 0" "yval mp0 = 0" "zoomfactor mp0 = 1"
    by (simp_all add: mp0_def)
  have h: "s_thing host0 ''foo''" by (simp add: host0_def)
  from mousepad_motion_forwards [of 0 0 host0 mp0] mousepad_motion_forwards [of 3 "- 2" host0 mp0]
    zoom0
  show ?thesis
    by (simp add: cif_lits s h quot_lits float_lits symEmpty_def symDrag_def symDeltas_def Let_def)
qed

text \<open>
  Claim C3. \<open>mousepad_click\<close> (for a positive zoom factor) emits \<open>button\<close> with
  \<open>(buttonstate, shift, alt ? 1 : 0)\<close> exactly when the incoming button state differs from
  the stored one, and stores the incoming state; it sets \<open>xval\<close>, \<open>yval\<close> to the pointer
  position minus the object's pixel position and emits them divided by the zoom factor as
  \<open>drag\<close> when the button is down (after grabbing the mouse) and as \<open>hover\<close> when it is
  up; every message goes to the outlet and then, exactly when the send name is not \<open>empty\<close>
  and has receivers, to the send name; the result is 1.
\<close>

theorem mousepad_click_forwards:
  "0 <s zoomfactor mp \<Longrightarrow>
   mousepad_click h mp xpix ypix shift alt dbl b =
     (let z = zoomfactor mp;
          repeated = (sendname mp \<noteq> symEmpty \<and> s_thing h (sendname mp));
          button = [A_FLOAT (t_float_of_int b), A_FLOAT (t_float_of_int shift),
                    A_FLOAT (t_float_of_int (if alt \<noteq> 0 then 1 else 0))];
          x = xpix - text_xpix h (te_xpix mp);
          y = ypix - text_ypix h (te_ypix mp);
          pos = [A_FLOAT (t_float_of_int (c_quot x z)), A_FLOAT (t_float_of_int (c_quot y z))];
          sel = (if b \<noteq> 0 then symDrag else symHover)
      in Some ((if b \<noteq> buttonstate mp
                then [Outlet_anything symButton button]
                     @ (if repeated then [Typedmess (sendname mp) symButton button] else [])
                else [])
               @ (if b \<noteq> 0 then [Glist_grab (t_float_of_int xpix) (t_float_of_int ypix)] else [])
               @ [Outlet_anything sel pos]
               @ (if repeated then [Typedmess (sendname mp) sel pos] else []),
               mp\<lparr>buttonstate := b, xval := x, yval := y, out0 := pos ! 0, out1 := pos ! 1,
                  out2 := (if b \<noteq> buttonstate mp then button ! 2 else out2 mp)\<rparr>,
               1))"
proof -
  assume z: "0 <s zoomfactor mp"
  note d = c_div_pos [OF z]
  show ?thesis
  proof (cases "b = buttonstate mp")
    case True
    then show ?thesis
      by (simp add: mousepad_click_def Let_def d forward_def)
  next
    case False
    then show ?thesis
      by (simp add: mousepad_click_def Let_def d forward_def)
  qed
qed

theorem mousepad_click_forwards_witness:
  "0 <s zoomfactor mp0
   \<and> mousepad_click host0 mp0 10 20 0 5 0 1 =
       Some ([Outlet_anything ''button'' [A_FLOAT 1, A_FLOAT 0, A_FLOAT 1],
              Typedmess ''foo'' ''button'' [A_FLOAT 1, A_FLOAT 0, A_FLOAT 1],
              Glist_grab 10 20,
              Outlet_anything ''drag'' [A_FLOAT 10, A_FLOAT 20],
              Typedmess ''foo'' ''drag'' [A_FLOAT 10, A_FLOAT 20]],
             mp0\<lparr>buttonstate := 1, xval := 10, yval := 20,
                  out0 := A_FLOAT 10, out1 := A_FLOAT 20, out2 := A_FLOAT 1\<rparr>, 1)"
proof -
  have s: "sendname mp0 = ''foo''" "buttonstate mp0 = 0" "zoomfactor mp0 = 1"
    "te_xpix mp0 = 0" "te_ypix mp0 = 0"
    by (simp_all add: mp0_def)
  have h: "s_thing host0 ''foo''" "text_xpix host0 0 = 0" "text_ypix host0 0 = 0"
    by (simp_all add: host0_def)
  from mousepad_click_forwards [OF zoom0, of host0 10 20 0 5 0 1] zoom0
  show ?thesis
    by (simp add: s h quot_lits float_lits symEmpty_def symDrag_def symButton_def Let_def)
qed

section \<open>Pixel rectangles\<close>

lemma part_bits:
  "(1 :: cint) AND 1 \<noteq> 0" "(1 :: cint) AND 2 = 0" "(1 :: cint) AND 4 = 0"
  "(3 :: cint) AND 1 \<noteq> 0" "(3 :: cint) AND 2 \<noteq> 0" "(3 :: cint) AND 4 = 0"
  "(5 :: cint) AND 1 \<noteq> 0" "(5 :: cint) AND 2 = 0" "(5 :: cint) AND 4 \<noteq> 0"
  "(7 :: cint) AND 1 \<noteq> 0" "(7 :: cint) AND 2 \<noteq> 0" "(7 :: cint) AND 4 \<noteq> 0"
  "(1 :: cint) OR 2 = 3" "(1 :: cint) OR 4 = 5" "(3 :: cint) OR 4 = 7"
  by simp_all

lemma default_rects_bits:
  "default_rects mp AND 1 = 0 \<longleftrightarrow> False"
  "default_rects mp AND 2 = 0 \<longleftrightarrow> sendname mp \<noteq> symEmpty"
  "default_rects mp AND 4 = 0 \<longleftrightarrow> receivename mp \<noteq> symEmpty"
  by (simp_all add: default_rects_def BASE_def INLET_def OUTLET_def part_bits)

text \<open>
  Claim C4. With \<open>(x, y)\<close> the pixel position of the object and \<open>z\<close> its zoom factor:
  \<open>mousepad_getrect\<close> reports \<open>(x, y, x + pixw, y + pixh)\<close>; every rectangle that
  \<open>mousepad_draw\<close> creates or moves is the base at \<open>(x, y, x + pixw, y + pixh)\<close>, the inlet
  at \<open>(x, y, x + IOWIDTH * z, y + 3 * z)\<close> or the outlet at
  \<open>(x, y + pixh - 3 * z, x + IOWIDTH * z, y + pixh)\<close>; and a full draw (\<open>rects = 0\<close>, on a
  new or visible object) places the base always, the inlet exactly when the send name is
  \<open>empty\<close> and the outlet exactly when the receive name is \<open>empty\<close>.
\<close>

theorem pixel_rectangles:
  "mousepad_getrect h mp =
     (text_xpix h (te_xpix mp), text_ypix h (te_ypix mp),
      text_xpix h (te_xpix mp) + pixw mp, text_ypix h (te_ypix mp) + pixh mp)
   \<and> (\<forall>e \<in> set (mousepad_draw h mp isnew rects). \<forall>part pix w.
         e = Sys_vgui_create part pix w \<or> e = Sys_vgui_coords part pix \<longrightarrow>
           (let x = text_xpix h (te_xpix mp); y = text_ypix h (te_ypix mp); z = zoomfactor mp
            in part = BASE \<and> pix = [x, y, x + pixw mp, y + pixh mp]
             \<or> part = INLET \<and> pix = [x, y, x + IOWIDTH h * z, y + 3 * z]
             \<or> part = OUTLET \<and> pix = [x, y + pixh mp - 3 * z, x + IOWIDTH h * z, y + pixh mp]))
   \<and> (isnew \<or> glist_isvisible h \<longrightarrow>
        (let x = text_xpix h (te_xpix mp); y = text_ypix h (te_ypix mp); z = zoomfactor mp;
             drawn = (\<lambda>part pix. draw_rect part pix z isnew \<in> set (mousepad_draw h mp isnew 0))
         in drawn BASE [x, y, x + pixw mp, y + pixh mp]
          \<and> (drawn INLET [x, y, x + IOWIDTH h * z, y + 3 * z] \<longleftrightarrow> sendname mp = symEmpty)
          \<and> (drawn OUTLET [x, y + pixh mp - 3 * z, x + IOWIDTH h * z, y + pixh mp]
                \<longleftrightarrow> receivename mp = symEmpty)))"
  apply (intro conjI)
  subgoal by (simp add: mousepad_getrect_def)
  subgoal
    by (auto simp add: mousepad_draw_def Let_def draw_rect_def draw_fillcolor_def
        base_rect_def inlet_rect_def outlet_rect_def IOHEIGHT_def split: if_splits)
  subgoal
    by (auto simp add: mousepad_draw_def Let_def draw_rect_def draw_fillcolor_def default_rects_bits
        base_rect_def inlet_rect_def outlet_rect_def IOHEIGHT_def BASE_def INLET_def OUTLET_def)
  done

theorem pixel_rectangles_witness:
  "glist_isvisible host0
   \<and> Sys_vgui_coords INLET [0, 0, 7, 3] \<in> set (mousepad_draw host0 (mp0\<lparr>sendname := symEmpty\<rparr>) False 0)
   \<and> Sys_vgui_coords BASE [0, 0, 100, 50] \<in> set (mousepad_draw host0 (mp0\<lparr>sendname := symEmpty\<rparr>) False 0)
   \<and> mousepad_getrect host0 (mp0\<lparr>sendname := symEmpty\<rparr>) = (0, 0, 100, 50)"
proof -
  have v: "glist_isvisible host0" by (simp add: host0_def)
  have s: "text_xpix host0 (te_xpix (mp0\<lparr>sendname := symEmpty\<rparr>)) = 0"
    "text_ypix host0 (te_ypix (mp0\<lparr>sendname := symEmpty\<rparr>)) = 0"
    "pixw (mp0\<lparr>sendname := symEmpty\<rparr>) = 100" "pixh (mp0\<lparr>sendname := symEmpty\<rparr>) = 50"
    "zoomfactor (mp0\<lparr>sendname := symEmpty\<rparr>) = 1" "IOWIDTH host0 = 7"
    "sendname (mp0\<lparr>sendname := symEmpty\<rparr>) = symEmpty"
    by (simp_all add: host0_def mp0_def)
  from pixel_rectangles [of host0 "mp0\<lparr>sendname := symEmpty\<rparr>" False 0] v
  show ?thesis
    unfolding s Let_def by (simp add: draw_rect_def)
qed

section \<open>Settings\<close>

lemma hexcolor2int_scan_total:
  "i < length s \<Longrightarrow> \<exists>r. hexcolor2int_scan i s buf = Some r"
proof (induction i s buf rule: hexcolor2int_scan.induct)
  case (1 i hexcolor intbuf)
  show ?case
  proof (cases "i < 6")
    case False
    then show ?thesis by simp
  next
    case True
    show ?thesis
    proof (cases "Suc i < length hexcolor")
      case False
      with "1.prems" have "c_char_at hexcolor (i + 1) = Some 0"
        by (simp add: c_char_at_def)
      with True show ?thesis by simp
    next
      case less: True
      then have c: "c_char_at hexcolor (i + 1) = Some (of_char (hexcolor ! (i + 1)))"
        by (simp add: c_char_at_def)
      show ?thesis
      proof (cases "(of_char (hexcolor ! (i + 1)) :: cint) = 0")
        case True
        with c \<open>i < 6\<close> show ?thesis by simp
      next
        case False
        from "1.IH" [OF \<open>i < 6\<close> c False] less
        obtain r where "hexcolor2int_scan (i + 1) hexcolor
            (store_digit (of_char (hexcolor ! (i + 1))) i intbuf) = Some r"
          by auto
        with c False \<open>i < 6\<close> show ?thesis by simp
      qed
    qed
  qed
qed

lemma hexcolor2int_total: "s \<noteq> [] \<Longrightarrow> \<exists>c. hexcolor2int s = Some c"
proof -
  assume "s \<noteq> []"
  then have "0 < length s" by simp
  from hexcolor2int_scan_total [OF this]
  obtain r where "hexcolor2int_scan 0 s (replicate 6 0) = Some r" by blast
  then show ?thesis by (cases r) (simp add: hexcolor2int_def)
qed

lemma int_atoms_sub: "int_atoms argv \<Longrightarrow> set argv' \<subseteq> set argv \<Longrightarrow> int_atoms argv'"
  by (auto simp add: int_atoms_def)

lemma mousepad_color_total:
  assumes "int_atoms argv"
  shows "\<exists>r. mousepad_color h mp argv = Some r"
proof (cases argv)
  case Nil
  then show ?thesis by (simp add: mousepad_color_def)
next
  case (Cons a rest)
  show ?thesis
  proof (cases a)
    case (A_FLOAT f)
    with assms Cons obtain i where "c_int_of_float f = Some i"
      by (auto simp add: int_atoms_def)
    with Cons A_FLOAT show ?thesis
      by (simp add: mousepad_color_def atom_getfloatarg_def)
  next
    case (A_SYMBOL s)
    show ?thesis
    proof (cases "s \<noteq> [] \<and> hd s = CHR ''#''")
      case True
      with hexcolor2int_total [of s] obtain c where "hexcolor2int s = Some c" by blast
      with True Cons A_SYMBOL show ?thesis
        by (cases s) (simp_all add: mousepad_color_def atom_getsymbolarg_def)
    next
      case False
      with Cons A_SYMBOL show ?thesis
        by (cases s) (simp_all add: mousepad_color_def atom_getsymbolarg_def)
    qed
  qed (simp_all add: Cons mousepad_color_def)
qed

lemma sint_and_24: "sint (x AND 0xFFFFFF) = sint x mod 2 ^ 24" for x :: cint
proof -
  have m: "(0xFFFFFF :: cint) = mask 24" by (simp add: mask_eq_exp_minus_1)
  have "sint (take_bit 24 x) = signed_take_bit 31 (take_bit 24 (uint x))"
    by (simp only: sint_uint unsigned_take_bit_eq) simp
  also have "\<dots> = take_bit 24 (uint x)"
    by (simp add: signed_take_bit_take_bit)
  also have "\<dots> = take_bit 24 (signed_take_bit 31 (uint x))"
    by (simp add: take_bit_signed_take_bit)
  also have "\<dots> = take_bit 24 (sint x)"
    by (simp only: sint_uint) simp
  finally show ?thesis
    unfolding m by (simp only: take_bit_eq_mask [symmetric] take_bit_eq_mod)
qed

lemma sint_of_int:
  assumes "- (2 ^ 31) \<le> k" and "k < 2 ^ 31"
  shows "sint (word_of_int k :: cint) = k"
proof -
  from assms have "signed_take_bit 31 k = k"
    by (intro signed_take_bit_int_eq_self) simp_all
  then show ?thesis unfolding sint_sbintrunc' by simp
qed

lemma c_int_of_float_Some:
  "c_int_of_float f = Some i \<longleftrightarrow>
     - (2 ^ 31) \<le> c_trunc f \<and> c_trunc f < 2 ^ 31 \<and> i = word_of_int (c_trunc f)"
  by (auto simp add: c_int_of_float_def)

text \<open>
  Claim C8. \<open>mousepad_color\<close> with no argument returns at once and changes nothing. With a
  float \<open>f\<close> first, where \<open>(int)f\<close> has a value (\<open>f\<close> without its fraction is an \<open>int\<close>), it
  stores \<open>(int)f & 0xFFFFFF\<close>, which is \<open>(int)f\<close> modulo \<open>2 ^ 24\<close>; where \<open>(int)f\<close> has no
  value, neither has the callback. With a symbol first that begins with \<open>#\<close> it stores what
  \<open>hexcolor2int\<close> returns for the name (and \<open>hexcolor2int\<close> does return); with a symbol
  that does not begin with \<open>#\<close> it stores the default \<open>0xDDDDDD\<close>. The stored colour is
  also sent to Tk when the glist is visible.
\<close>

theorem mousepad_color_cases:
  "mousepad_color h mp [] = Some ([], mp)
   \<and> (- (2 ^ 31) \<le> c_trunc f \<and> c_trunc f < 2 ^ 31 \<longrightarrow>
        (let c = (word_of_int (c_trunc f) AND 0xFFFFFF :: cint)
         in mousepad_color h mp (A_FLOAT f # rest) =
              Some (if glist_isvisible h then [draw_fillcolor BASE c] else [], mp\<lparr>intcolor := c\<rparr>)
            \<and> sint c = c_trunc f mod 2 ^ 24))
   \<and> (\<not> (- (2 ^ 31) \<le> c_trunc f \<and> c_trunc f < 2 ^ 31) \<longrightarrow>
        mousepad_color h mp (A_FLOAT f # rest) = None)
   \<and> (\<exists>c. hexcolor2int (CHR ''#'' # s) = Some c
         \<and> mousepad_color h mp (A_SYMBOL (CHR ''#'' # s) # rest) =
             Some (if glist_isvisible h then [draw_fillcolor BASE c] else [], mp\<lparr>intcolor := c\<rparr>))
   \<and> (t = [] \<or> hd t \<noteq> CHR ''#'' \<longrightarrow>
        mousepad_color h mp (A_SYMBOL t # rest) =
          Some (if glist_isvisible h then [draw_fillcolor BASE 0xDDDDDD] else [],
                mp\<lparr>intcolor := 0xDDDDDD\<rparr>))"
proof (intro conjI)
  show "mousepad_color h mp [] = Some ([], mp)"
    by (simp add: mousepad_color_def)
  show "- (2 ^ 31) \<le> c_trunc f \<and> c_trunc f < 2 ^ 31 \<longrightarrow>
        (let c = (word_of_int (c_trunc f) AND 0xFFFFFF :: cint)
         in mousepad_color h mp (A_FLOAT f # rest) =
              Some (if glist_isvisible h then [draw_fillcolor BASE c] else [], mp\<lparr>intcolor := c\<rparr>)
            \<and> sint c = c_trunc f mod 2 ^ 24)"
  proof
    assume r: "- (2 ^ 31) \<le> c_trunc f \<and> c_trunc f < 2 ^ 31"
    then have i: "c_int_of_float f = Some (word_of_int (c_trunc f))"
      by (simp add: c_int_of_float_def)
    have "sint (word_of_int (c_trunc f) AND 0xFFFFFF :: cint) = c_trunc f mod 2 ^ 24"
      unfolding sint_and_24 using r by (simp add: sint_of_int)
    then show "let c = (word_of_int (c_trunc f) AND 0xFFFFFF :: cint)
         in mousepad_color h mp (A_FLOAT f # rest) =
              Some (if glist_isvisible h then [draw_fillcolor BASE c] else [], mp\<lparr>intcolor := c\<rparr>)
            \<and> sint c = c_trunc f mod 2 ^ 24"
      unfolding Let_def by (simp add: mousepad_color_def atom_getfloatarg_def i)
  qed
  show "\<not> (- (2 ^ 31) \<le> c_trunc f \<and> c_trunc f < 2 ^ 31) \<longrightarrow>
        mousepad_color h mp (A_FLOAT f # rest) = None"
    by (simp add: mousepad_color_def atom_getfloatarg_def c_int_of_float_def)
  show "\<exists>c. hexcolor2int (CHR ''#'' # s) = Some c
         \<and> mousepad_color h mp (A_SYMBOL (CHR ''#'' # s) # rest) =
             Some (if glist_isvisible h then [draw_fillcolor BASE c] else [], mp\<lparr>intcolor := c\<rparr>)"
    using hexcolor2int_total [of "CHR ''#'' # s"]
    by (auto simp add: mousepad_color_def atom_getsymbolarg_def)
  show "t = [] \<or> hd t \<noteq> CHR ''#'' \<longrightarrow>
        mousepad_color h mp (A_SYMBOL t # rest) =
          Some (if glist_isvisible h then [draw_fillcolor BASE 0xDDDDDD] else [],
                mp\<lparr>intcolor := 0xDDDDDD\<rparr>)"
    by (cases t) (simp_all add: mousepad_color_def atom_getsymbolarg_def DEFCOLOR_def)
qed

theorem mousepad_color_cases_witness:
  "(''red'' = [] \<or> hd ''red'' \<noteq> CHR ''#'')
   \<and> mousepad_color host0 mp0 [A_SYMBOL ''red''] =
       Some ([Sys_vgui_fill 1 0xDDDDDD], mp0\<lparr>intcolor := 0xDDDDDD\<rparr>)
   \<and> - (2 ^ 31) \<le> c_trunc (- 2) \<and> c_trunc (- 2) < 2 ^ 31
   \<and> mousepad_color host0 mp0 [A_FLOAT (- 2)] =
       Some ([Sys_vgui_fill 1 0xFFFFFE], mp0\<lparr>intcolor := 0xFFFFFE\<rparr>)
   \<and> \<not> (- (2 ^ 31) \<le> c_trunc 5000000000 \<and> c_trunc 5000000000 < 2 ^ 31)
   \<and> mousepad_color host0 mp0 [A_FLOAT 5000000000] = None"
proof -
  have v: "glist_isvisible host0" by (simp add: host0_def)
  have t: "c_trunc (- 2) = - 2" "c_trunc 5000000000 = 5000000000"
    by (simp_all add: c_trunc_def)
  have c: "(word_of_int (- 2) AND 0xFFFFFF :: cint) = 0xFFFFFE"
    by simp
  from mousepad_color_cases [of host0 mp0 "- 2" "[]" "[]" "''red''"]
    mousepad_color_cases [of host0 mp0 5000000000 "[]" "[]" "''red''"] v
  show ?thesis
    unfolding t c Let_def by (simp add: draw_fillcolor_def BASE_def)
qed

section \<open>The size invariant\<close>

lemma clamp_ge_1: "1 \<le>s (if v <s 1 then 1 else v)" for v :: cint
  by (simp add: word_sle_eq word_sless_alt)

text \<open>\<open>mousepad_size\<close> writes the four size fields and nothing else.\<close>

lemma size_only:
  assumes "mousepad_size mp argv = Some m"
  shows "\<exists>w hh. 1 \<le>s w \<and> 1 \<le>s hh
           \<and> m = mp\<lparr>width := w, height := hh, pixw := w * zoomfactor mp,
                    pixh := hh * zoomfactor mp\<rparr>"
proof -
  from assms obtain w0 h0 where
    "Some (mp\<lparr>width := (if w0 <s 1 then 1 else w0), height := (if h0 <s 1 then 1 else h0),
             pixw := (if w0 <s 1 then 1 else w0) * zoomfactor mp,
             pixh := (if h0 <s 1 then 1 else h0) * zoomfactor mp\<rparr>) = Some m"
    unfolding mousepad_size_def bind_eq_Some_conv Let_def by blast
  then have "m = mp\<lparr>width := (if w0 <s 1 then 1 else w0), height := (if h0 <s 1 then 1 else h0),
             pixw := (if w0 <s 1 then 1 else w0) * zoomfactor mp,
             pixh := (if h0 <s 1 then 1 else h0) * zoomfactor mp\<rparr>"
    by (simp only: option.inject)
  with clamp_ge_1 [of w0] clamp_ge_1 [of h0] show ?thesis by blast
qed

lemma size_inv_size: "mousepad_size mp argv = Some m \<Longrightarrow> size_inv m"
  using size_only [of mp argv m] by (auto simp add: size_inv_def)

lemma dim_total:
  assumes "int_atoms argv" and "i < length argv"
  shows "\<exists>v. (case argv ! i of A_FLOAT f \<Rightarrow> c_int_of_float f | _ \<Rightarrow> Some DEFSIZE) = Some v"
proof (cases "argv ! i")
  case (A_FLOAT f)
  with assms have "c_int_of_float f \<noteq> None"
    by (metis int_atoms_def nth_mem)
  with A_FLOAT show ?thesis by auto
qed simp_all

lemma mousepad_size_total:
  assumes "int_atoms argv"
  shows "\<exists>m. mousepad_size mp argv = Some m"
proof (cases "1 \<le> length argv")
  case False
  then show ?thesis by (simp add: mousepad_size_def)
next
  case True
  then have "0 < length argv" by (cases argv) simp_all
  from dim_total [OF assms this]
  obtain v where v: "(case argv ! 0 of A_FLOAT f \<Rightarrow> c_int_of_float f | _ \<Rightarrow> Some DEFSIZE) = Some v"
    by blast
  show ?thesis
  proof (cases "length argv = 1")
    case one: True
    with v show ?thesis by (simp add: mousepad_size_def)
  next
    case False
    with True have "1 < length argv" by simp
    from dim_total [OF assms this] obtain u where
      "(case argv ! 1 of A_FLOAT f \<Rightarrow> c_int_of_float f | _ \<Rightarrow> Some DEFSIZE) = Some u"
      by blast
    with v True False show ?thesis by (simp add: mousepad_size_def)
  qed
qed

lemma size_fields_send:
  "width (snd (mousepad_send h mp s)) = width mp" "height (snd (mousepad_send h mp s)) = height mp"
  "pixw (snd (mousepad_send h mp s)) = pixw mp" "pixh (snd (mousepad_send h mp s)) = pixh mp"
  "zoomfactor (snd (mousepad_send h mp s)) = zoomfactor mp"
  by (simp_all add: mousepad_send_def Let_def)

lemma size_fields_receive:
  "width (snd (mousepad_receive h mp s)) = width mp" "height (snd (mousepad_receive h mp s)) = height mp"
  "pixw (snd (mousepad_receive h mp s)) = pixw mp" "pixh (snd (mousepad_receive h mp s)) = pixh mp"
  "zoomfactor (snd (mousepad_receive h mp s)) = zoomfactor mp"
  by (simp_all add: mousepad_receive_def Let_def)

lemma size_inv_color:
  "mousepad_color h mp argv = Some (e, mp') \<Longrightarrow> size_inv mp' = size_inv mp"
  by (auto simp add: mousepad_color_def size_inv_def split: list.splits Option.bind_splits)

lemma size_inv_zoom:
  "size_inv mp \<Longrightarrow> mousepad_zoom h mp z = Some (e, mp') \<Longrightarrow> size_inv mp'"
  by (auto simp add: size_inv_def mousepad_zoom_def Let_def split: Option.bind_splits)

lemma size_inv_motion:
  "mousepad_motion h mp dx dy = Some (e, mp') \<Longrightarrow> size_inv mp' = size_inv mp"
  by (auto simp add: mousepad_motion_def size_inv_def Let_def split: if_splits Option.bind_splits)

lemma size_inv_click:
  "mousepad_click h mp x y s a d b = Some (e, mp', r) \<Longrightarrow> size_inv mp' = size_inv mp"
  by (auto simp add: mousepad_click_def size_inv_def Let_def split: if_splits Option.bind_splits)

lemma size_inv_get:
  "mousepad_get h mp s = Some (e, mp') \<Longrightarrow> size_inv mp' = size_inv mp"
  by (auto simp add: mousepad_get_def size_inv_def Let_def split: if_splits Option.bind_splits)

lemma size_inv_init: "size_inv (mousepad_init_unexpanded h mp) = size_inv mp"
  by (simp add: mousepad_init_unexpanded_def size_inv_def Let_def)

lemma size_inv_binbuf: "size_inv (mp\<lparr>te_binbuf := b\<rparr>) = size_inv mp"
  by (simp add: size_inv_def)

lemma size_inv_resize: "mousepad_resize h mp argv = Some (e, mp') \<Longrightarrow> size_inv mp'"
  by (auto simp add: mousepad_resize_def size_inv_size split: Option.bind_splits)

lemma size_inv_invoke:
  assumes "size_inv mp" and "invoke h cb mp = Some (e, mp')"
  shows "size_inv mp'"
proof (cases cb)
  case (Motion dx dy)
  with assms size_inv_motion show ?thesis by (simp add: invoke_def)
next
  case (Size argv)
  with assms size_inv_resize show ?thesis by (simp add: invoke_def)
next
  case (Color argv)
  with assms size_inv_color show ?thesis by (simp add: invoke_def)
next
  case (Delta dx dy)
  with assms show ?thesis
    by (auto simp add: invoke_def mousepad_delta_def Let_def size_inv_def split: Option.bind_splits)
next
  case (Pos x y)
  with assms show ?thesis
    by (auto simp add: invoke_def mousepad_pos_def Let_def size_inv_def split: Option.bind_splits)
next
  case (Send s)
  with assms size_fields_send [of h mp s] show ?thesis
    by (auto simp add: invoke_def size_inv_def)
next
  case (Receive s)
  with assms size_fields_receive [of h mp s] show ?thesis
    by (auto simp add: invoke_def size_inv_def)
next
  case (Get s)
  with assms size_inv_get show ?thesis by (simp add: invoke_def)
next
  case (Zoom z)
  with assms size_inv_zoom show ?thesis by (simp add: invoke_def)
next
  case (Displace dx dy)
  with assms show ?thesis by (auto simp add: invoke_def mousepad_displace_def Let_def size_inv_def)
next
  case (Click x y s a d b)
  with assms size_inv_click show ?thesis by (auto simp add: invoke_def)
next
  case Init_unexpanded
  with assms size_inv_init show ?thesis by (auto simp add: invoke_def)
qed (use assms in \<open>auto simp add: invoke_def\<close>)

lemma size_inv_run:
  "size_inv mp \<Longrightarrow> run cbs mp = Some (e, mp') \<Longrightarrow> size_inv mp'"
proof (induction cbs arbitrary: mp e)
  case Nil
  then show ?case by simp
next
  case (Cons x cbs)
  obtain h cb b where x: "x = (h, cb, b)" by (cases x)
  let ?m = "case b of None \<Rightarrow> mp | Some bb \<Rightarrow> mp\<lparr>te_binbuf := bb\<rparr>"
  have m: "size_inv ?m" using Cons.prems(1) by (simp add: size_inv_binbuf split: option.splits)
  from Cons.prems(2) x obtain e1 mp1 e2 where
    1: "invoke h cb ?m = Some (e1, mp1)" and 2: "run cbs mp1 = Some (e2, mp')"
    by (auto split: option.splits)
  from size_inv_invoke [OF m 1] Cons.IH 2 show ?case by blast
qed

text \<open>The steps of \<open>mousepad_new\<close>.\<close>

lemma mousepad_new_steps:
  assumes "mousepad_new h self argv = Some (e, mp)"
  shows "\<exists>mp1 e2 mp2 e3 mp3 e4 mp4.
      mousepad_size (pd_new\<lparr>intcolor := DEFCOLOR, zoomfactor := DEFZOOM, xval := 0, yval := 0,
          buttonstate := 0, sendname := symEmpty, receivename := symEmpty\<rparr>) argv = Some mp1
    \<and> mousepad_send h mp1 (atom_getsymbolarg 2 argv) = (e2, mp2)
    \<and> mousepad_receive h mp2 (atom_getsymbolarg 3 argv) = (e3, mp3)
    \<and> (if 5 \<le> length argv then mousepad_color h mp3 (take 1 (drop 4 argv)) else Some ([], mp3))
         = Some (e4, mp4)
    \<and> mp = snd (mousepad_fixed_sendreceive self
         (mp4\<lparr>sendname_unexpanded := symEmpty, receivename_unexpanded := symEmpty\<rparr>))
    \<and> e = Outlet_new # e2 @ e3 @ e4 @ Clock_delay
         # fst (mousepad_fixed_sendreceive self
             (mp4\<lparr>sendname_unexpanded := symEmpty, receivename_unexpanded := symEmpty\<rparr>))"
proof -
  from assms obtain mp1 where
    1: "mousepad_size (pd_new\<lparr>intcolor := DEFCOLOR, zoomfactor := DEFZOOM, xval := 0, yval := 0,
          buttonstate := 0, sendname := symEmpty, receivename := symEmpty\<rparr>) argv = Some mp1"
    by (auto simp add: mousepad_new_def Let_def split: Option.bind_splits)
  obtain e2 mp2 where 2: "mousepad_send h mp1 (atom_getsymbolarg 2 argv) = (e2, mp2)"
    by (rule prod.exhaust)
  obtain e3 mp3 where 3: "mousepad_receive h mp2 (atom_getsymbolarg 3 argv) = (e3, mp3)"
    by (rule prod.exhaust)
  from assms obtain e4 mp4 where
    "(if 5 \<le> length argv then mousepad_color h mp3 (take 1 (drop 4 argv)) else Some ([], mp3))
          = Some (e4, mp4)"
    and "mp = snd (mousepad_fixed_sendreceive self
        (mp4\<lparr>sendname_unexpanded := symEmpty, receivename_unexpanded := symEmpty\<rparr>))"
    and "e = Outlet_new # e2 @ e3 @ e4 @ Clock_delay
                 # fst (mousepad_fixed_sendreceive self
                     (mp4\<lparr>sendname_unexpanded := symEmpty, receivename_unexpanded := symEmpty\<rparr>))"
    by (auto simp add: mousepad_new_def 1 2 3 Let_def split: Option.bind_splits prod.splits)
  with 1 2 3 show ?thesis by blast
qed

lemma mousepad_new_total:
  assumes "int_atoms argv"
  shows "\<exists>e mp. mousepad_new h self argv = Some (e, mp)"
proof -
  obtain mp1 where 1: "mousepad_size (pd_new\<lparr>intcolor := DEFCOLOR, zoomfactor := DEFZOOM, xval := 0,
      yval := 0, buttonstate := 0, sendname := symEmpty, receivename := symEmpty\<rparr>) argv = Some mp1"
    using mousepad_size_total [OF assms] by blast
  obtain e2 mp2 where 2: "mousepad_send h mp1 (atom_getsymbolarg 2 argv) = (e2, mp2)"
    by (rule prod.exhaust)
  obtain e3 mp3 where 3: "mousepad_receive h mp2 (atom_getsymbolarg 3 argv) = (e3, mp3)"
    by (rule prod.exhaust)
  have "set (take 1 (drop 4 argv)) \<subseteq> set argv"
    by (meson set_take_subset set_drop_subset subset_trans)
  from int_atoms_sub [OF assms this]
  obtain r where 4: "mousepad_color h mp3 (take 1 (drop 4 argv)) = Some r"
    using mousepad_color_total by blast
  from 4 show ?thesis
    by (cases r) (simp add: mousepad_new_def 1 2 3 mousepad_fixed_sendreceive_def Let_def)
qed

lemma size_inv_new:
  assumes "mousepad_new h self argv = Some (e, mp)"
  shows "size_inv mp"
proof -
  from mousepad_new_steps [OF assms] obtain mp1 e2 mp2 e3 mp3 e4 mp4 where
    1: "mousepad_size (pd_new\<lparr>intcolor := DEFCOLOR, zoomfactor := DEFZOOM, xval := 0, yval := 0,
          buttonstate := 0, sendname := symEmpty, receivename := symEmpty\<rparr>) argv = Some mp1"
    and 2: "mousepad_send h mp1 (atom_getsymbolarg 2 argv) = (e2, mp2)"
    and 3: "mousepad_receive h mp2 (atom_getsymbolarg 3 argv) = (e3, mp3)"
    and 4: "(if 5 \<le> length argv then mousepad_color h mp3 (take 1 (drop 4 argv)) else Some ([], mp3))
          = Some (e4, mp4)"
    and mp: "mp = snd (mousepad_fixed_sendreceive self
        (mp4\<lparr>sendname_unexpanded := symEmpty, receivename_unexpanded := symEmpty\<rparr>))"
    by blast
  from size_fields_send [of h mp1 "atom_getsymbolarg 2 argv"] 2 size_inv_size [OF 1]
  have i2: "size_inv mp2" by (simp add: size_inv_def)
  from size_fields_receive [of h mp2 "atom_getsymbolarg 3 argv"] 3 i2
  have i3: "size_inv mp3" by (simp add: size_inv_def)
  from 4 i3 size_inv_color have "size_inv mp4" by (auto split: if_splits)
  then show ?thesis
    unfolding mp by (simp add: mousepad_fixed_sendreceive_def Let_def size_inv_def)
qed

text \<open>
  Claim C10. Whatever \<open>mousepad_new\<close> returns satisfies \<open>size_inv\<close>: \<open>width \<ge> 1\<close>,
  \<open>height \<ge> 1\<close>, \<open>pixw = width * zoomfactor\<close>, \<open>pixh = height * zoomfactor\<close>; and it does
  return when the floats among its arguments convert to \<open>int\<close>. \<open>mousepad_size\<close> and the
  \<open>size\<close> method \<open>mousepad_resize\<close> establish the invariant, \<open>mousepad_zoom\<close> keeps it, and
  so does every run of callbacks. With \<open>dim a\<close> the dimension an atom stands for (\<open>(int)f\<close>
  for a float, where that has a value, and the default 64 for any other atom),
  \<open>mousepad_size\<close> sets both dimensions to 64 when there is no argument, sets the width
  and the height to the one dimension when there is one argument, sets the width to the
  first and the height to the second when there are more, and raises each dimension below
  1 to 1.
\<close>

theorem size_invariant:
  "(mousepad_new h self argv = Some (e, m0) \<longrightarrow> size_inv m0)
   \<and> (int_atoms argv \<longrightarrow> mousepad_new h self argv \<noteq> None \<and> mousepad_size mp argv \<noteq> None
         \<and> mousepad_resize h mp argv \<noteq> None)
   \<and> (mousepad_size mp argv = Some m \<longrightarrow> size_inv m)
   \<and> (mousepad_resize h mp argv = Some (e1, m1) \<longrightarrow> size_inv m1)
   \<and> (size_inv mp \<and> mousepad_zoom h mp z = Some (e2, m2) \<longrightarrow> size_inv m2)
   \<and> (c_int_of_float z \<noteq> None \<longrightarrow> mousepad_zoom h mp z \<noteq> None)
   \<and> (size_inv mp \<and> run cbs mp = Some (e', mp') \<longrightarrow> size_inv mp')
   \<and> (let clamp = (\<lambda>v :: cint. if v <s 1 then 1 else v);
           dim = (\<lambda>a. case a of A_FLOAT f \<Rightarrow> c_int_of_float f | _ \<Rightarrow> Some 64);
           dims = map_option (\<lambda>m. (width m, height m))
       in dims (mousepad_size mp []) = Some (64, 64)
        \<and> dims (mousepad_size mp [a]) = map_option (\<lambda>v. (clamp v, clamp v)) (dim a)
        \<and> dims (mousepad_size mp (a # b # rest)) =
            (case dim a of None \<Rightarrow> None
             | Some v \<Rightarrow> map_option (\<lambda>u. (clamp v, clamp u)) (dim b)))"
proof (intro conjI)
  show "mousepad_new h self argv = Some (e, m0) \<longrightarrow> size_inv m0"
    using size_inv_new by blast
  show "int_atoms argv \<longrightarrow> mousepad_new h self argv \<noteq> None \<and> mousepad_size mp argv \<noteq> None
         \<and> mousepad_resize h mp argv \<noteq> None"
    using mousepad_new_total [of argv h self] mousepad_size_total [of argv mp]
    by (auto simp add: mousepad_resize_def)
  show "mousepad_size mp argv = Some m \<longrightarrow> size_inv m"
    using size_inv_size by blast
  show "mousepad_resize h mp argv = Some (e1, m1) \<longrightarrow> size_inv m1"
    using size_inv_resize by blast
  show "size_inv mp \<and> mousepad_zoom h mp z = Some (e2, m2) \<longrightarrow> size_inv m2"
    using size_inv_zoom by blast
  show "c_int_of_float z \<noteq> None \<longrightarrow> mousepad_zoom h mp z \<noteq> None"
    by (auto simp add: mousepad_zoom_def Let_def)
  show "size_inv mp \<and> run cbs mp = Some (e', mp') \<longrightarrow> size_inv mp'"
    using size_inv_run by blast
  show "let clamp = (\<lambda>v :: cint. if v <s 1 then 1 else v);
           dim = (\<lambda>a. case a of A_FLOAT f \<Rightarrow> c_int_of_float f | _ \<Rightarrow> Some 64);
           dims = map_option (\<lambda>m. (width m, height m))
       in dims (mousepad_size mp []) = Some (64, 64)
        \<and> dims (mousepad_size mp [a]) = map_option (\<lambda>v. (clamp v, clamp v)) (dim a)
        \<and> dims (mousepad_size mp (a # b # rest)) =
            (case dim a of None \<Rightarrow> None
             | Some v \<Rightarrow> map_option (\<lambda>u. (clamp v, clamp u)) (dim b))"
    unfolding Let_def
  proof (intro conjI)
    show "map_option (\<lambda>m. (width m, height m)) (mousepad_size mp []) = Some (64, 64)"
      by (simp add: mousepad_size_def DEFSIZE_def word_sless_alt)
    show "map_option (\<lambda>m. (width m, height m)) (mousepad_size mp [a]) =
        map_option (\<lambda>v. (if v <s 1 then 1 else v, if v <s 1 then 1 else v))
          (case a of A_FLOAT f \<Rightarrow> c_int_of_float f | _ \<Rightarrow> Some 64)"
      by (cases a; cases "c_int_of_float (case a of A_FLOAT f \<Rightarrow> f | _ \<Rightarrow> 0)")
        (simp_all add: mousepad_size_def DEFSIZE_def Let_def)
    show "map_option (\<lambda>m. (width m, height m)) (mousepad_size mp (a # b # rest)) =
        (case (case a of A_FLOAT f \<Rightarrow> c_int_of_float f | _ \<Rightarrow> Some 64) of None \<Rightarrow> None
         | Some v \<Rightarrow> map_option (\<lambda>u. (if v <s 1 then 1 else v, if u <s 1 then 1 else u))
             (case b of A_FLOAT f \<Rightarrow> c_int_of_float f | _ \<Rightarrow> Some 64))"
      by (cases a; cases b; cases "c_int_of_float (case a of A_FLOAT f \<Rightarrow> f | _ \<Rightarrow> 0)";
          cases "c_int_of_float (case b of A_FLOAT f \<Rightarrow> f | _ \<Rightarrow> 0)")
        (simp_all add: mousepad_size_def DEFSIZE_def Let_def)
  qed
qed

lemma size_inv_mp0: "size_inv mp0"
  by (simp add: size_inv_def mp0_def word_sle_eq)

lemma run_example:
  "run [(host0, Zoom 2, None), (host0, Size [A_FLOAT 0], None)] mp0 =
     Some ([Outlet_anything ''zoom'' [A_FLOAT 2], Typedmess ''foo'' ''zoom'' [A_FLOAT 2],
            Sys_vgui_coords 1 [0, 0, 2, 2], Canvas_fixlinesfor],
           mp0\<lparr>width := 1, height := 1, pixw := 2, pixh := 2, zoomfactor := 2,
                out0 := A_FLOAT 2\<rparr>)"
  by (simp add: invoke_def mousepad_zoom_def mousepad_resize_def mousepad_size_def
      mousepad_draw_def default_rects_def draw_rect_def base_rect_def forward_def Let_def
      mp0_def host0_def int_lits symEmpty_def symZoom_def BASE_def INLET_def OUTLET_def
      word_sless_alt)

lemma int_atoms_argv0: "int_atoms argv0"
  by (auto simp add: int_atoms_def argv0_def int_lits)

theorem size_invariant_witness:
  "mousepad_new host0 4096 argv0 =
     Some ([Outlet_new, Sys_vgui_delete 2, Pd_bind ''bar'', Sys_vgui_delete 4,
            Sys_vgui_fill 1 0xAABBCC, Clock_delay, Pd_bind ''to-mousepad-0X1000''], mp0)
   \<and> int_atoms argv0 \<and> size_inv mp0
   \<and> run [(host0, Zoom 2, None), (host0, Size [A_FLOAT 0], None)] mp0 =
       Some ([Outlet_anything ''zoom'' [A_FLOAT 2], Typedmess ''foo'' ''zoom'' [A_FLOAT 2],
              Sys_vgui_coords 1 [0, 0, 2, 2], Canvas_fixlinesfor],
             mp0\<lparr>width := 1, height := 1, pixw := 2, pixh := 2, zoomfactor := 2,
                  out0 := A_FLOAT 2\<rparr>)
   \<and> size_inv (mp0\<lparr>width := 1, height := 1, pixw := 2, pixh := 2, zoomfactor := 2,
                     out0 := A_FLOAT 2\<rparr>)
   \<and> c_int_of_float 2 \<noteq> None \<and> mousepad_zoom host0 mp0 2 \<noteq> None
   \<and> mousepad_size mp0 argv0 \<noteq> None"
  using size_invariant [where h = host0 and mp = mp0 and z = 2 and self = 4096 and argv = argv0
      and m0 = mp0
      and e = "[Outlet_new, Sys_vgui_delete 2, Pd_bind ''bar'', Sys_vgui_delete 4,
            Sys_vgui_fill 1 0xAABBCC, Clock_delay, Pd_bind ''to-mousepad-0X1000'']"
      and cbs = "[(host0, Zoom 2, None), (host0, Size [A_FLOAT 0], None)]"
      and e' = "[Outlet_anything ''zoom'' [A_FLOAT 2], Typedmess ''foo'' ''zoom'' [A_FLOAT 2],
        Sys_vgui_coords 1 [0, 0, 2, 2], Canvas_fixlinesfor]"
      and mp' = "mp0\<lparr>width := 1, height := 1, pixw := 2, pixh := 2, zoomfactor := 2,
        out0 := A_FLOAT 2\<rparr>"]
    size_inv_mp0 run_example mousepad_new_example int_atoms_argv0 int_lits(2)
  by blast

section \<open>Receive names and bindings\<close>

lemma bindings_append: "bindings (e1 @ e2) m = bindings e2 (bindings e1 m)"
  by (induction e1 m rule: bindings.induct) simp_all

lemma bindings_none: "filter is_binding e = [] \<Longrightarrow> bindings e m = m"
  by (induction e m rule: bindings.induct) simp_all

lemma draw_no_binding [simp]: "filter is_binding (mousepad_draw h mp isnew rects) = []"
  by (simp add: mousepad_draw_def Let_def draw_rect_def draw_fillcolor_def)

lemma change_io_no_binding [simp]: "filter is_binding (mousepad_change_io h mp change iolet) = []"
  by (simp add: mousepad_change_io_def draw_erase_def)

lemma forward_no_binding [simp]: "filter is_binding (forward h mp b sel av) = []"
  by (simp add: forward_def)

lemma keeps_motion:
  "mousepad_motion h mp dx dy = Some r \<Longrightarrow> keeps_receive r mp"
  by (auto simp add: mousepad_motion_def keeps_receive_def Let_def
      split: if_splits Option.bind_splits)

lemma keeps_click:
  "mousepad_click h mp x y s a d b = Some (e, mp', r) \<Longrightarrow> keeps_receive (e, mp') mp"
  by (auto simp add: mousepad_click_def keeps_receive_def Let_def
      split: if_splits Option.bind_splits)

lemma keeps_get:
  "mousepad_get h mp s = Some r \<Longrightarrow> keeps_receive r mp"
  by (auto simp add: mousepad_get_def keeps_receive_def Let_def
      split: if_splits Option.bind_splits)

lemma keeps_color:
  "mousepad_color h mp argv = Some r \<Longrightarrow> keeps_receive r mp"
  by (auto simp add: mousepad_color_def keeps_receive_def draw_fillcolor_def
      split: list.splits Option.bind_splits)

lemma keeps_send: "keeps_receive (mousepad_send h mp s) mp"
  by (simp add: mousepad_send_def keeps_receive_def Let_def)

lemma keeps_invoke:
  assumes "invoke h cb mp = Some r" and "\<forall>s. cb \<noteq> Receive s"
  shows "keeps_receive r mp"
proof (cases cb)
  case (Motion dx dy)
  with assms keeps_motion show ?thesis by (simp add: invoke_def)
next
  case (Size argv)
  with assms obtain m where "mousepad_size mp argv = Some m" and "r = (mousepad_draw h m False 0, m)"
    by (auto simp add: invoke_def mousepad_resize_def split: Option.bind_splits)
  with size_only [of mp argv m] show ?thesis
    by (auto simp add: keeps_receive_def)
next
  case (Color argv)
  with assms keeps_color show ?thesis by (simp add: invoke_def)
next
  case (Delta dx dy)
  with assms show ?thesis
    by (auto simp add: invoke_def mousepad_delta_def Let_def keeps_receive_def
        split: Option.bind_splits)
next
  case (Pos x y)
  with assms show ?thesis
    by (auto simp add: invoke_def mousepad_pos_def Let_def keeps_receive_def
        split: Option.bind_splits)
next
  case (Send s)
  with assms keeps_send [of h mp s] show ?thesis by (auto simp add: invoke_def)
next
  case (Receive s)
  with assms show ?thesis by simp
next
  case Status
  with assms show ?thesis
    by (auto simp add: invoke_def mousepad_status_def keeps_receive_def)
next
  case (Get s)
  with assms keeps_get show ?thesis by (simp add: invoke_def)
next
  case Dirty
  with assms show ?thesis
    by (auto simp add: invoke_def mousepad_dirty_def keeps_receive_def)
next
  case (Zoom z)
  with assms show ?thesis
    by (auto simp add: invoke_def mousepad_zoom_def Let_def keeps_receive_def
        split: Option.bind_splits)
next
  case Getrect
  with assms show ?thesis by (auto simp add: invoke_def keeps_receive_def)
next
  case (Displace dx dy)
  with assms show ?thesis
    by (auto simp add: invoke_def mousepad_displace_def Let_def keeps_receive_def)
next
  case (Select b)
  with assms show ?thesis
    by (auto simp add: invoke_def mousepad_select_def draw_outlinecolor_def keeps_receive_def)
next
  case Delete
  with assms show ?thesis
    by (auto simp add: invoke_def mousepad_delete_def keeps_receive_def)
next
  case (Vis b)
  with assms show ?thesis
    by (auto simp add: invoke_def mousepad_vis_def draw_erase_def keeps_receive_def)
next
  case (Click x y s a d b)
  with assms keeps_click [of h mp x y s a d b] show ?thesis
    by (auto simp add: invoke_def)
next
  case Save
  with assms show ?thesis by (auto simp add: invoke_def keeps_receive_def)
next
  case Init_unexpanded
  with assms show ?thesis
    by (auto simp add: invoke_def mousepad_init_unexpanded_def Let_def keeps_receive_def)
qed

lemma receive_calls:
  "filter is_binding (fst (mousepad_receive h mp s)) =
     (if receivename mp \<noteq> symEmpty then [Pd_unbind (receivename mp)] else [])
     @ (if canvas_realizedollar h (if s = [] then symEmpty else s) \<noteq> symEmpty
        then [Pd_bind (canvas_realizedollar h (if s = [] then symEmpty else s))] else [])"
  "receivename (snd (mousepad_receive h mp s)) =
     canvas_realizedollar h (if s = [] then symEmpty else s)"
  "receivename_fixed (snd (mousepad_receive h mp s)) = receivename_fixed mp"
  by (simp_all add: mousepad_receive_def Let_def)

lemma bindings_filter: "bindings (filter is_binding e) m = bindings e m"
  by (induction e m rule: bindings.induct) simp_all

lemma bound_inv_receive:
  assumes "bound_inv mp m"
  shows "bound_inv (snd (mousepad_receive h mp s)) (bindings (fst (mousepad_receive h mp s)) m)"
proof -
  have "bindings (fst (mousepad_receive h mp s)) m
      = bindings (filter is_binding (fst (mousepad_receive h mp s))) m"
    by (simp only: bindings_filter)
  then show ?thesis
    using assms by (simp add: receive_calls bound_inv_def)
qed

lemma bound_inv_invoke:
  assumes "bound_inv mp m" and "invoke h cb mp = Some (e, mp')"
  shows "bound_inv mp' (bindings e m) \<and> receivename_fixed mp' = receivename_fixed mp"
proof (cases "\<exists>s. cb = Receive s")
  case True
  then obtain s where "cb = Receive s" ..
  with assms(2) have "(e, mp') = mousepad_receive h mp s" by (simp add: invoke_def)
  then have "e = fst (mousepad_receive h mp s)" "mp' = snd (mousepad_receive h mp s)"
    by (metis fst_conv, metis snd_conv)
  with bound_inv_receive [OF assms(1), of h s] receive_calls(3) [of h mp s]
  show ?thesis by simp
next
  case False
  with keeps_invoke [OF assms(2)] have "keeps_receive (e, mp') mp" by blast
  with assms(1) show ?thesis
    by (simp add: keeps_receive_def bound_inv_def bindings_none)
qed

lemma bound_inv_binbuf: "bound_inv (mp\<lparr>te_binbuf := b\<rparr>) m = bound_inv mp m"
  by (simp add: bound_inv_def)

lemma bound_inv_run:
  "bound_inv mp m \<Longrightarrow> run cbs mp = Some (e, mp') \<Longrightarrow>
     bound_inv mp' (bindings e m) \<and> receivename_fixed mp' = receivename_fixed mp"
proof (induction cbs arbitrary: mp m e)
  case Nil
  then show ?case by simp
next
  case (Cons x cbs)
  obtain h cb b where x: "x = (h, cb, b)" by (cases x)
  let ?m = "case b of None \<Rightarrow> mp | Some bb \<Rightarrow> mp\<lparr>te_binbuf := bb\<rparr>"
  have m: "bound_inv ?m m" "receivename_fixed ?m = receivename_fixed mp"
    using Cons.prems(1) by (simp_all add: bound_inv_binbuf split: option.splits)
  from Cons.prems(2) x obtain e1 mp1 e2 where
    1: "invoke h cb ?m = Some (e1, mp1)" and 2: "run cbs mp1 = Some (e2, mp')" and e: "e = e1 @ e2"
    by (auto split: option.splits)
  from bound_inv_invoke [OF m(1) 1]
  have i: "bound_inv mp1 (bindings e1 m)" and f: "receivename_fixed mp1 = receivename_fixed ?m"
    by simp_all
  from Cons.IH [OF i 2] f m(2) show ?case
    by (simp add: e bindings_append)
qed

lemma bound_inv_new:
  assumes "mousepad_new h self argv = Some (e, mp)"
  shows "bound_inv mp (bindings e {#}) \<and> receivename_fixed mp = ''to-mousepad-'' @ objID mp"
proof -
  from mousepad_new_steps [OF assms] obtain mp1 e2 mp2 e3 mp3 e4 mp4 where
    1: "mousepad_size (pd_new\<lparr>intcolor := DEFCOLOR, zoomfactor := DEFZOOM, xval := 0, yval := 0,
          buttonstate := 0, sendname := symEmpty, receivename := symEmpty\<rparr>) argv = Some mp1"
    and 2: "mousepad_send h mp1 (atom_getsymbolarg 2 argv) = (e2, mp2)"
    and 3: "mousepad_receive h mp2 (atom_getsymbolarg 3 argv) = (e3, mp3)"
    and 4: "(if 5 \<le> length argv then mousepad_color h mp3 (take 1 (drop 4 argv)) else Some ([], mp3))
          = Some (e4, mp4)"
    and mp: "mp = snd (mousepad_fixed_sendreceive self
        (mp4\<lparr>sendname_unexpanded := symEmpty, receivename_unexpanded := symEmpty\<rparr>))"
    and e: "e = Outlet_new # e2 @ e3 @ e4 @ Clock_delay
                 # fst (mousepad_fixed_sendreceive self
                     (mp4\<lparr>sendname_unexpanded := symEmpty, receivename_unexpanded := symEmpty\<rparr>))"
    by blast
  have r1: "receivename mp1 = symEmpty" using size_only [OF 1] by auto
  from keeps_send [of h mp1 "atom_getsymbolarg 2 argv"] 2 r1
  have k2: "filter is_binding e2 = []" "receivename mp2 = symEmpty"
    by (simp_all add: keeps_receive_def)
  from receive_calls(1,2) [of h mp2 "atom_getsymbolarg 3 argv"] 3 k2
  have k3: "bindings e3 {#} = (if receivename mp3 \<noteq> symEmpty then {#receivename mp3#} else {#})"
    by (simp add: bindings_filter [symmetric, of e3])
  from 4 keeps_color [of h mp3 "take 1 (drop 4 argv)" "(e4, mp4)"]
  have k4: "filter is_binding e4 = []" "receivename mp4 = receivename mp3"
    by (auto simp add: keeps_receive_def split: if_splits)
  show ?thesis
    unfolding mp e
    by (simp add: bindings_append bindings_none k2 k3 k4 mousepad_fixed_sendreceive_def Let_def
        bound_inv_def)
qed

text \<open>
  Claim C7. After \<open>mousepad_new\<close> the object is bound to exactly its fixed receive name
  \<open>to-mousepad-<objID>\<close> and, when its expanded receive name is not \<open>empty\<close>, to that name
  (\<open>bound_inv\<close>); every run of callbacks keeps this and leaves the fixed name alone.
  \<open>mousepad_receive\<close> first unbinds the old receive name if it is not \<open>empty\<close>, then binds
  the new expanded name if it is not \<open>empty\<close>; \<open>mousepad_free\<close> unbinds the fixed name and,
  if the receive name is not \<open>empty\<close>, that name, after which nothing is bound.
\<close>

theorem receive_bindings:
  "(mousepad_new h self argv = Some (e, mp) \<longrightarrow>
      bound_inv mp (bindings e {#}) \<and> receivename_fixed mp = ''to-mousepad-'' @ objID mp)
   \<and> (bound_inv mp m \<and> run cbs mp = Some (e', mp') \<longrightarrow>
        bound_inv mp' (bindings e' m) \<and> receivename_fixed mp' = receivename_fixed mp)
   \<and> (let new = canvas_realizedollar h (if s = [] then symEmpty else s)
       in receivename (snd (mousepad_receive h mp s)) = new
        \<and> filter is_binding (fst (mousepad_receive h mp s)) =
            (if receivename mp \<noteq> symEmpty then [Pd_unbind (receivename mp)] else [])
            @ (if new \<noteq> symEmpty then [Pd_bind new] else []))
   \<and> mousepad_free mp =
       Pd_unbind (receivename_fixed mp)
         # (if receivename mp \<noteq> symEmpty then [Pd_unbind (receivename mp)] else [])
   \<and> (bound_inv mp m \<longrightarrow> bindings (mousepad_free mp) m = {#})"
proof (intro conjI)
  show "mousepad_new h self argv = Some (e, mp) \<longrightarrow>
      bound_inv mp (bindings e {#}) \<and> receivename_fixed mp = ''to-mousepad-'' @ objID mp"
    using bound_inv_new by blast
  show "bound_inv mp m \<and> run cbs mp = Some (e', mp') \<longrightarrow>
        bound_inv mp' (bindings e' m) \<and> receivename_fixed mp' = receivename_fixed mp"
    using bound_inv_run by blast
  show "let new = canvas_realizedollar h (if s = [] then symEmpty else s)
       in receivename (snd (mousepad_receive h mp s)) = new
        \<and> filter is_binding (fst (mousepad_receive h mp s)) =
            (if receivename mp \<noteq> symEmpty then [Pd_unbind (receivename mp)] else [])
            @ (if new \<noteq> symEmpty then [Pd_bind new] else [])"
    unfolding Let_def using receive_calls(1,2) [of h mp s] by simp
  show "mousepad_free mp =
       Pd_unbind (receivename_fixed mp)
         # (if receivename mp \<noteq> symEmpty then [Pd_unbind (receivename mp)] else [])"
    by (simp add: mousepad_free_def)
  show "bound_inv mp m \<longrightarrow> bindings (mousepad_free mp) m = {#}"
    by (simp add: mousepad_free_def bound_inv_def)
qed

lemma receive_example:
  "run [(host0, Receive ''baz'', None), (host0, Receive [], None)] mp0 =
     Some ([Pd_unbind ''bar'', Pd_bind ''baz'', Pd_unbind ''baz'',
            Sys_vgui_create 4 [0, 47, 7, 50] 1, Sys_vgui_fill 1 0xAABBCC],
           mp0\<lparr>receivename := ''empty'', receivename_unexpanded := ''empty''\<rparr>)"
  by (simp add: invoke_def mousepad_receive_def mousepad_change_io_def mousepad_draw_def
      draw_rect_def draw_fillcolor_def outlet_rect_def Let_def mp0_def host0_def symEmpty_def
      BASE_def INLET_def OUTLET_def IOHEIGHT_def)

theorem receive_bindings_witness:
  "mousepad_new host0 4096 argv0 =
     Some ([Outlet_new, Sys_vgui_delete 2, Pd_bind ''bar'', Sys_vgui_delete 4,
            Sys_vgui_fill 1 0xAABBCC, Clock_delay, Pd_bind ''to-mousepad-0X1000''], mp0)
   \<and> bound_inv mp0 {#''bar'', ''to-mousepad-0X1000''#}
   \<and> run [(host0, Receive ''baz'', None), (host0, Receive [], None)] mp0 =
       Some ([Pd_unbind ''bar'', Pd_bind ''baz'', Pd_unbind ''baz'',
              Sys_vgui_create 4 [0, 47, 7, 50] 1, Sys_vgui_fill 1 0xAABBCC],
             mp0\<lparr>receivename := ''empty'', receivename_unexpanded := ''empty''\<rparr>)
   \<and> bound_inv (mp0\<lparr>receivename := ''empty'', receivename_unexpanded := ''empty''\<rparr>)
         {#''to-mousepad-0X1000''#}
   \<and> bindings (mousepad_free mp0) {#''bar'', ''to-mousepad-0X1000''#} = {#}"
proof -
  note t = receive_bindings [where h = host0 and self = 4096 and argv = argv0 and mp = mp0
      and e = "[Outlet_new, Sys_vgui_delete 2, Pd_bind ''bar'', Sys_vgui_delete 4,
            Sys_vgui_fill 1 0xAABBCC, Clock_delay, Pd_bind ''to-mousepad-0X1000'']"
      and m = "{#''bar'', ''to-mousepad-0X1000''#}"
      and cbs = "[(host0, Receive ''baz'', None), (host0, Receive [], None)]"
      and e' = "[Pd_unbind ''bar'', Pd_bind ''baz'', Pd_unbind ''baz'',
            Sys_vgui_create 4 [0, 47, 7, 50] 1, Sys_vgui_fill 1 0xAABBCC]"
      and mp' = "mp0\<lparr>receivename := ''empty'', receivename_unexpanded := ''empty''\<rparr>"]
  have b: "bindings [Outlet_new, Sys_vgui_delete 2, Pd_bind ''bar'', Sys_vgui_delete 4,
            Sys_vgui_fill 1 0xAABBCC, Clock_delay, Pd_bind ''to-mousepad-0X1000''] {#}
      = {#''bar'', ''to-mousepad-0X1000''#}"
    by simp
  have b': "bindings [Pd_unbind ''bar'', Pd_bind ''baz'', Pd_unbind ''baz'',
            Sys_vgui_create 4 [0, 47, 7, 50] 1, Sys_vgui_fill 1 0xAABBCC]
            {#''bar'', ''to-mousepad-0X1000''#} = {#''to-mousepad-0X1000''#}"
    by simp
  from t mousepad_new_example receive_example show ?thesis
    unfolding b b' by blast
qed

section \<open>The colour invariant\<close>

lemma digit_range:
  fixes h :: cint
  assumes "lo \<le>s h" and "h \<le>s hi" and "0 \<le> sint lo" and "sint hi - sint lo < 16"
  shows "h - lo < 16"
proof -
  from assms have b: "sint lo \<le> sint h" "sint h \<le> sint hi" by (simp_all add: word_sle_eq)
  have e: "h - lo = word_of_int (sint h - sint lo)" by simp
  have r: "0 \<le> sint h - sint lo" "sint h - sint lo < 2 ^ 32" "sint h - sint lo < 16"
    using b assms(4) by simp_all
  have "uint (word_of_int (sint h - sint lo) :: cint) = sint h - sint lo"
    unfolding uint_word_of_int_eq using r(1,2) by (intro take_bit_int_eq_self) simp_all
  then have "uint (h - lo) = sint h - sint lo" by (simp only: e)
  then have "uint (h - lo) < uint (16 :: cint)" using \<open>sint h - sint lo < 16\<close> by simp
  then show ?thesis by (simp only: word_less_def)
qed

lemma nibbles_update: "nibbles buf \<Longrightarrow> x < 16 \<Longrightarrow> nibbles (buf[i := x])"
  unfolding nibbles_def using set_update_subset_insert [of buf i x] by auto

lemma digit_ranges:
  fixes h :: cint
  shows "48 \<le>s h \<Longrightarrow> h \<le>s 57 \<Longrightarrow> h - 48 < 16"
    and "65 \<le>s h \<Longrightarrow> h \<le>s 70 \<Longrightarrow> h - 55 < 16"
    and "97 \<le>s h \<Longrightarrow> h \<le>s 102 \<Longrightarrow> h - 87 < 16"
proof -
  show "48 \<le>s h \<Longrightarrow> h \<le>s 57 \<Longrightarrow> h - 48 < 16"
    by (rule digit_range [of 48 h 57]) simp_all
  have "55 \<le>s h" if "65 \<le>s h" using that by (simp add: word_sle_eq)
  then show "65 \<le>s h \<Longrightarrow> h \<le>s 70 \<Longrightarrow> h - 55 < 16"
    by (intro digit_range [of 55 h 70]) simp_all
  have "87 \<le>s h" if "97 \<le>s h" using that by (simp add: word_sle_eq)
  then show "97 \<le>s h \<Longrightarrow> h \<le>s 102 \<Longrightarrow> h - 87 < 16"
    by (intro digit_range [of 87 h 102]) simp_all
qed

lemma nibbles_store_digit: "nibbles buf \<Longrightarrow> nibbles (store_digit h i buf)"
  by (simp add: store_digit_def nibbles_update digit_ranges)

lemma nibbles_scan:
  "hexcolor2int_scan i s buf = Some (j, buf') \<Longrightarrow> nibbles buf \<Longrightarrow> nibbles buf'"
proof (induction i s buf rule: hexcolor2int_scan.induct)
  case (1 i hexcolor intbuf)
  show ?case
  proof (cases "i < 6")
    case False
    with "1.prems" show ?thesis by simp
  next
    case True
    from "1.prems"(1) True obtain h where h: "c_char_at hexcolor (i + 1) = Some h"
      by (auto split: option.splits)
    show ?thesis
    proof (cases "h = 0")
      case True
      with h \<open>i < 6\<close> "1.prems" show ?thesis by simp
    next
      case False
      with h \<open>i < 6\<close> "1.prems"(1)
      have "hexcolor2int_scan (i + 1) hexcolor (store_digit h i intbuf) = Some (j, buf')"
        by simp
      from "1.IH" [OF \<open>i < 6\<close> h False this] nibbles_store_digit [OF "1.prems"(2)]
      show ?thesis by blast
    qed
  qed
qed

lemma nibbles_upsample: "nibbles buf \<Longrightarrow> nibbles (upsample buf)"
  unfolding upsample_def Let_def
  by (intro nibbles_update) (auto simp add: nibbles_def)

lemma pack_bound:
  fixes r x :: cint
  assumes "unat r < 16 ^ k" and "x < 16"
  shows "unat (push_bit 4 r + x) < 16 ^ Suc k"
proof -
  have "unat x < 16" using assms(2) by (simp add: word_less_nat_alt)
  have "unat (push_bit 4 r + x) \<le> unat (push_bit 4 r) + unat x"
    by (simp add: unat_word_ariths)
  also have "unat (push_bit 4 r) \<le> unat r * 16"
    by (simp add: push_bit_eq_mult unat_word_ariths)
  finally have "unat (push_bit 4 r + x) \<le> unat r * 16 + unat x" by simp
  also have "\<dots> < 16 ^ k * 16" using assms(1) \<open>unat x < 16\<close> by simp
  finally show ?thesis by simp
qed

lemma nibbles_pack:
  assumes "nibbles buf"
  shows "0 \<le>s hexcolor2int_pack 0 buf 0 \<and> hexcolor2int_pack 0 buf 0 \<le>s 0xFFFFFF"
proof -
  from assms have "length buf = Suc (Suc (Suc (Suc (Suc (Suc 0)))))"
    by (simp add: nibbles_def)
  then obtain a b c d e f where buf: "buf = [a, b, c, d, e, f]"
    by (auto simp add: length_Suc_conv)
  with assms have n: "a < 16" "b < 16" "c < 16" "d < 16" "e < 16" "f < 16"
    by (simp_all add: nibbles_def)
  have 1: "unat a < 16 ^ Suc 0" using n(1) by (simp add: word_less_nat_alt)
  note 2 = pack_bound [OF 1 n(2)]
  note 3 = pack_bound [OF 2 n(3)]
  note 4 = pack_bound [OF 3 n(4)]
  note 5 = pack_bound [OF 4 n(5)]
  note 6 = pack_bound [OF 5 n(6)]
  define p where "p = hexcolor2int_pack 0 buf 0"
  have "unat p < 16 ^ Suc (Suc (Suc (Suc (Suc (Suc 0)))))"
    unfolding p_def buf pack6 by (rule 6)
  then have "unat p < 16777216" by simp
  then have "int (unat p) < 16777216" by linarith
  then have i: "uint p \<le> 16777215"
    by (simp only: uint_nat)
  have j: "0 \<le> uint p" by (rule uint_ge_0)
  then have k: "- 2147483648 \<le> uint p" by linarith
  have "signed_take_bit 31 (uint p) = uint p"
    by (rule signed_take_bit_int_eq_self) (use i k in simp_all)
  then have "sint p = uint p"
    by (simp only: sint_uint) simp
  with i j have "0 \<le>s p \<and> p \<le>s 0xFFFFFF" by (simp add: word_sle_eq)
  then show ?thesis by (simp only: p_def)
qed

lemma hexcolor2int_range:
  assumes "hexcolor2int s = Some c"
  shows "0 \<le>s c \<and> c \<le>s 0xFFFFFF"
proof -
  have z: "nibbles (replicate 6 0)" by (simp add: nibbles_def)
  from assms obtain i buf where s: "hexcolor2int_scan 0 s (replicate 6 0) = Some (i, buf)"
    and c: "c = hexcolor2int_pack 0 (if i = 3 then upsample buf else buf) 0"
    by (auto simp add: hexcolor2int_def split: option.splits simp del: hexcolor2int_pack.simps)
  from nibbles_scan [OF s z] have "nibbles (if i = 3 then upsample buf else buf)"
    by (simp add: nibbles_upsample)
  from nibbles_pack [OF this] c show ?thesis by simp
qed

lemma and_24_range: "0 \<le>s x AND 0xFFFFFF \<and> x AND 0xFFFFFF \<le>s 0xFFFFFF" for x :: cint
proof -
  have "0 \<le> sint x mod 2 ^ 24" "sint x mod 2 ^ 24 < 2 ^ 24" by simp_all
  then show ?thesis
    unfolding word_sle_eq sint_and_24 by simp
qed

lemma color_inv_color:
  assumes "mousepad_color h mp argv = Some (e, mp')" and "color_inv mp"
  shows "color_inv mp'"
proof (cases argv)
  case Nil
  with assms show ?thesis by (simp add: mousepad_color_def)
next
  case (Cons a rest)
  with assms(1) obtain c where
    c: "(case a of
           A_FLOAT f \<Rightarrow>
             map_option (\<lambda>i. i AND 0xFFFFFF) (c_int_of_float (atom_getfloatarg 0 [a]))
         | A_SYMBOL s \<Rightarrow>
             (case atom_getsymbolarg 0 [a] of
                [] \<Rightarrow> Some DEFCOLOR
              | ch # _ \<Rightarrow>
                  if ch = CHR ''#'' then hexcolor2int (atom_getsymbolarg 0 [a]) else Some DEFCOLOR)
         | _ \<Rightarrow> Some DEFCOLOR) = Some c"
    and mp': "mp' = mp\<lparr>intcolor := c\<rparr>"
    by (auto simp add: mousepad_color_def split: Option.bind_splits)
  have d: "0 \<le>s DEFCOLOR \<and> DEFCOLOR \<le>s 0xFFFFFF"
    by (simp add: DEFCOLOR_def word_sle_eq)
  from c have "0 \<le>s c \<and> c \<le>s 0xFFFFFF"
    using d and_24_range hexcolor2int_range
    by (auto split: t_atom.splits list.splits if_splits)
  then show ?thesis by (simp add: mp' color_inv_def)
qed

lemma intcolor_send: "intcolor (snd (mousepad_send h mp s)) = intcolor mp"
  by (simp add: mousepad_send_def Let_def)

lemma intcolor_receive: "intcolor (snd (mousepad_receive h mp s)) = intcolor mp"
  by (simp add: mousepad_receive_def Let_def)

lemma intcolor_motion:
  "mousepad_motion h mp dx dy = Some (e, mp') \<Longrightarrow> intcolor mp' = intcolor mp"
  by (auto simp add: mousepad_motion_def Let_def split: if_splits Option.bind_splits)

lemma intcolor_click:
  "mousepad_click h mp x y s a d b = Some (e, mp', r) \<Longrightarrow> intcolor mp' = intcolor mp"
  by (auto simp add: mousepad_click_def Let_def split: if_splits Option.bind_splits)

lemma intcolor_get:
  "mousepad_get h mp s = Some (e, mp') \<Longrightarrow> intcolor mp' = intcolor mp"
  by (auto simp add: mousepad_get_def Let_def split: if_splits Option.bind_splits)

lemma color_inv_invoke:
  assumes "color_inv mp" and "invoke h cb mp = Some (e, mp')"
  shows "color_inv mp'"
proof (cases cb)
  case (Motion dx dy)
  with assms intcolor_motion [of h mp dx dy e mp'] show ?thesis
    by (simp add: invoke_def color_inv_def)
next
  case (Size argv)
  with assms obtain m where "mousepad_size mp argv = Some m" and "mp' = m"
    by (auto simp add: invoke_def mousepad_resize_def split: Option.bind_splits)
  with size_only [of mp argv m] assms(1) show ?thesis
    by (auto simp add: color_inv_def)
next
  case (Color argv)
  with assms color_inv_color show ?thesis by (simp add: invoke_def)
next
  case (Delta dx dy)
  with assms show ?thesis
    by (auto simp add: invoke_def mousepad_delta_def Let_def color_inv_def split: Option.bind_splits)
next
  case (Pos x y)
  with assms show ?thesis
    by (auto simp add: invoke_def mousepad_pos_def Let_def color_inv_def split: Option.bind_splits)
next
  case (Send s)
  with assms intcolor_send [of h mp s] show ?thesis
    by (auto simp add: invoke_def color_inv_def)
next
  case (Receive s)
  with assms intcolor_receive [of h mp s] show ?thesis
    by (auto simp add: invoke_def color_inv_def)
next
  case (Get s)
  with assms intcolor_get [of h mp s e mp'] show ?thesis
    by (simp add: invoke_def color_inv_def)
next
  case (Zoom z)
  with assms show ?thesis
    by (auto simp add: invoke_def mousepad_zoom_def Let_def color_inv_def split: Option.bind_splits)
next
  case (Displace dx dy)
  with assms show ?thesis by (auto simp add: invoke_def mousepad_displace_def Let_def color_inv_def)
next
  case (Click x y s a d b)
  with assms intcolor_click [of h mp x y s a d b] show ?thesis
    by (auto simp add: invoke_def color_inv_def)
next
  case Init_unexpanded
  with assms show ?thesis
    by (auto simp add: invoke_def mousepad_init_unexpanded_def Let_def color_inv_def)
qed (use assms in \<open>auto simp add: invoke_def\<close>)

lemma color_inv_run:
  "color_inv mp \<Longrightarrow> run cbs mp = Some (e, mp') \<Longrightarrow> color_inv mp'"
proof (induction cbs arbitrary: mp e)
  case Nil
  then show ?case by simp
next
  case (Cons x cbs)
  obtain h cb b where x: "x = (h, cb, b)" by (cases x)
  let ?m = "case b of None \<Rightarrow> mp | Some bb \<Rightarrow> mp\<lparr>te_binbuf := bb\<rparr>"
  have m: "color_inv ?m" using Cons.prems(1) by (simp add: color_inv_def split: option.splits)
  from Cons.prems(2) x obtain e1 mp1 e2 where
    1: "invoke h cb ?m = Some (e1, mp1)" and 2: "run cbs mp1 = Some (e2, mp')"
    by (auto split: option.splits)
  from color_inv_invoke [OF m 1] Cons.IH 2 show ?case by blast
qed

text \<open>What \<open>mousepad_new\<close> returns, field by field.\<close>

lemma size_dims:
  "map_option (\<lambda>m. (width m, height m)) (mousepad_size mp argv) =
   map_option (\<lambda>m. (width m, height m)) (mousepad_size mp' argv)"
  by (auto simp add: mousepad_size_def Let_def split: Option.bind_split)

lemma mousepad_new_fields:
  assumes "mousepad_new h self argv = Some (e, mp)"
  shows "map_option (\<lambda>m. (width m, height m)) (mousepad_size pd_new argv)
           = Some (width mp, height mp)"
    and "sendname mp =
           canvas_realizedollar h
             (if atom_getsymbolarg 2 argv = [] then symEmpty else atom_getsymbolarg 2 argv)"
    and "receivename mp =
           canvas_realizedollar h
             (if atom_getsymbolarg 3 argv = [] then symEmpty else atom_getsymbolarg 3 argv)"
    and "length argv < 5 \<Longrightarrow> intcolor mp = DEFCOLOR"
    and "5 \<le> length argv \<Longrightarrow>
           \<exists>e4 mp4. mousepad_color h pd_new [argv ! 4] = Some (e4, mp4) \<and> intcolor mp = intcolor mp4"
    and "sendname_unexpanded mp = symEmpty" and "receivename_unexpanded mp = symEmpty"
    and "te_binbuf mp = []"
proof -
  from mousepad_new_steps [OF assms] obtain mp1 e2 mp2 e3 mp3 e4 mp4 where
    1: "mousepad_size (pd_new\<lparr>intcolor := DEFCOLOR, zoomfactor := DEFZOOM, xval := 0, yval := 0,
          buttonstate := 0, sendname := symEmpty, receivename := symEmpty\<rparr>) argv = Some mp1"
    and 2: "mousepad_send h mp1 (atom_getsymbolarg 2 argv) = (e2, mp2)"
    and 3: "mousepad_receive h mp2 (atom_getsymbolarg 3 argv) = (e3, mp3)"
    and 4: "(if 5 \<le> length argv then mousepad_color h mp3 (take 1 (drop 4 argv)) else Some ([], mp3))
          = Some (e4, mp4)"
    and mp: "mp = snd (mousepad_fixed_sendreceive self
        (mp4\<lparr>sendname_unexpanded := symEmpty, receivename_unexpanded := symEmpty\<rparr>))"
    by blast
  have mp2: "mp2 = snd (mousepad_send h mp1 (atom_getsymbolarg 2 argv))" by (simp add: 2)
  have mp3: "mp3 = snd (mousepad_receive h mp2 (atom_getsymbolarg 3 argv))" by (simp add: 3)
  have c4: "width mp4 = width mp3 \<and> height mp4 = height mp3 \<and> sendname mp4 = sendname mp3
      \<and> receivename mp4 = receivename mp3 \<and> te_binbuf mp4 = te_binbuf mp3"
    using 4 by (auto simp add: mousepad_color_def split: if_splits list.splits Option.bind_splits)
  have f: "width mp = width mp4" "height mp = height mp4" "sendname mp = sendname mp4"
    "receivename mp = receivename mp4" "intcolor mp = intcolor mp4" "te_binbuf mp = te_binbuf mp4"
    unfolding mp by (simp_all add: mousepad_fixed_sendreceive_def Let_def)
  from size_only [OF 1] have i1: "intcolor mp1 = DEFCOLOR" "te_binbuf mp1 = []"
    by (auto simp add: pd_new_def)
  have w: "width mp = width mp1" "height mp = height mp1"
    using c4 by (simp_all add: f mp3 mp2 mousepad_receive_def mousepad_send_def Let_def)
  from size_dims [of pd_new argv "pd_new\<lparr>intcolor := DEFCOLOR, zoomfactor := DEFZOOM, xval := 0,
      yval := 0, buttonstate := 0, sendname := symEmpty, receivename := symEmpty\<rparr>"]
  show "map_option (\<lambda>m. (width m, height m)) (mousepad_size pd_new argv)
           = Some (width mp, height mp)"
    by (simp add: 1 w)
  show "sendname mp = canvas_realizedollar h
      (if atom_getsymbolarg 2 argv = [] then symEmpty else atom_getsymbolarg 2 argv)"
    using c4 by (simp add: f mp3 mp2 mousepad_receive_def mousepad_send_def Let_def)
  show "receivename mp = canvas_realizedollar h
      (if atom_getsymbolarg 3 argv = [] then symEmpty else atom_getsymbolarg 3 argv)"
    using c4 by (simp add: f mp3 mousepad_receive_def Let_def)
  have i3: "intcolor mp3 = DEFCOLOR"
    by (simp add: mp3 mp2 mousepad_receive_def mousepad_send_def i1 Let_def)
  show "intcolor mp = DEFCOLOR" if "length argv < 5"
    using that 4 i3 by (auto simp add: f)
  show "\<exists>e4 mp4. mousepad_color h pd_new [argv ! 4] = Some (e4, mp4) \<and> intcolor mp = intcolor mp4"
    if "5 \<le> length argv"
  proof -
    from that have t: "take 1 (drop 4 argv) = [argv ! 4]"
      by (cases "drop 4 argv") (auto simp add: nth_via_drop)
    from 4 that have "mousepad_color h mp3 [argv ! 4] = Some (e4, mp4)" by (simp only: t) simp
    then show ?thesis
      by (auto simp add: f mousepad_color_def split: Option.bind_splits)
  qed
  show "sendname_unexpanded mp = symEmpty" "receivename_unexpanded mp = symEmpty"
    unfolding mp by (simp_all add: mousepad_fixed_sendreceive_def Let_def)
  show "te_binbuf mp = []"
    using c4 by (simp add: f mp3 mp2 mousepad_receive_def mousepad_send_def i1 Let_def)
qed

lemma color_inv_new:
  assumes "mousepad_new h self argv = Some (e, mp)"
  shows "color_inv mp"
proof (cases "5 \<le> length argv")
  case True
  from mousepad_new_fields(5) [OF assms True] obtain e4 mp4 where
    "mousepad_color h pd_new [argv ! 4] = Some (e4, mp4)" and i: "intcolor mp = intcolor mp4"
    by blast
  from color_inv_color [OF this(1)] have "color_inv mp4"
    by (simp add: color_inv_def pd_new_def word_sle_eq)
  with i show ?thesis by (simp add: color_inv_def)
next
  case False
  with mousepad_new_fields(4) [OF assms] show ?thesis
    by (simp add: color_inv_def DEFCOLOR_def word_sle_eq)
qed

section \<open>Saving and loading\<close>

lemma c_trunc_of_int: "c_trunc (real_of_int k) = k"
  by (simp add: c_trunc_def)

lemma float_roundtrip:
  assumes "float_exact w"
  shows "c_int_of_float (t_float_of_int w) = Some w"
proof -
  from assms have "t_float_of_int w = real_of_int (sint w)"
    by (simp only: float_exact_def t_float_of_int_def)
  then have t: "c_trunc (t_float_of_int w) = sint w"
    by (simp only: c_trunc_of_int)
  have "- (2 ^ 31) \<le> sint w" "sint w < 2 ^ 31"
    using sint_ge [of w] sint_lt [of w] by simp_all
  then show ?thesis by (simp add: c_int_of_float_def t)
qed

lemma clamp_id: "1 \<le>s w \<Longrightarrow> (if w <s 1 then 1 else w) = w" for w :: cint
  by (simp add: word_sle_eq word_sless_alt)

lemma save_line:
  assumes "te_binbuf mp = a # b" and "0 <s zoomfactor mp"
  shows "mousepad_save mp =
    Some [A_SYMBOL ''#X'', A_SYMBOL ''obj'',
          A_FLOAT (t_float_of_int (c_quot (scast (te_xpix mp)) (zoomfactor mp))),
          A_FLOAT (t_float_of_int (c_quot (scast (te_ypix mp)) (zoomfactor mp))),
          A_SYMBOL (atom_getsymbol a),
          A_FLOAT (t_float_of_int (width mp)), A_FLOAT (t_float_of_int (height mp)),
          A_SYMBOL (sendname_unexpanded mp), A_SYMBOL (receivename_unexpanded mp),
          A_SYMBOL (int2hexcolor (intcolor mp)), A_SEMI]"
  using assms by (simp add: mousepad_save_def c_div_pos)

lemma saved_args_line:
  "saved_args [x0, x1, x2, x3, x4, w, h, s, r, c, semi] = [w, h, s, r, c]"
  by (simp add: saved_args_def)

lemma size_saved:
  assumes "float_exact w" and "float_exact hh" and "1 \<le>s w" and "1 \<le>s hh"
  shows "map_option (\<lambda>m. (width m, height m))
           (mousepad_size m0 [A_FLOAT (t_float_of_int w), A_FLOAT (t_float_of_int hh), s, r, c])
         = Some (w, hh)"
  using assms by (simp add: mousepad_size_def float_roundtrip clamp_id Let_def)

lemma restore:
  assumes b: "te_binbuf mp \<noteq> []" and z: "0 <s zoomfactor mp"
    and s: "size_inv mp" and c: "color_inv mp"
    and fw: "float_exact (width mp)" and fh: "float_exact (height mp)"
  shows "\<exists>e mp'. reload h self mp = Some (e, mp')
        \<and> width mp' = width mp \<and> height mp' = height mp \<and> intcolor mp' = intcolor mp
        \<and> sendname mp' = expansion h (sendname_unexpanded mp)
        \<and> receivename mp' = expansion h (receivename_unexpanded mp)"
proof -
  from b obtain a rest where ab: "te_binbuf mp = a # rest" by (cases "te_binbuf mp") auto
  let ?args = "[A_FLOAT (t_float_of_int (width mp)), A_FLOAT (t_float_of_int (height mp)),
          A_SYMBOL (sendname_unexpanded mp), A_SYMBOL (receivename_unexpanded mp),
          A_SYMBOL (int2hexcolor (intcolor mp))]"
  have r: "reload h self mp = mousepad_new h self ?args"
    by (simp add: reload_def save_line [OF ab z] saved_args_line)
  have "int_atoms ?args"
    by (auto simp add: int_atoms_def float_roundtrip [OF fw] float_roundtrip [OF fh])
  from mousepad_new_total [OF this] obtain e mp' where n: "mousepad_new h self ?args = Some (e, mp')"
    by blast
  note f = mousepad_new_fields [OF n]
  from s have w1: "1 \<le>s width mp" "1 \<le>s height mp" by (simp_all add: size_inv_def)
  from f(1) size_saved [OF fw fh w1, of pd_new]
  have "width mp' = width mp" "height mp' = height mp"
    by simp_all
  moreover have "sendname mp' = expansion h (sendname_unexpanded mp)"
    by (simp add: f(2) atom_getsymbolarg_def expansion_def)
  moreover have "receivename mp' = expansion h (receivename_unexpanded mp)"
    by (simp add: f(3) atom_getsymbolarg_def expansion_def)
  moreover have "intcolor mp' = intcolor mp"
  proof -
    from c have cr: "0 \<le>s intcolor mp" "intcolor mp \<le>s 0xFFFFFF" by (simp_all add: color_inv_def)
    from f(5) obtain e4 mp4 where
      4: "mousepad_color h pd_new [A_SYMBOL (int2hexcolor (intcolor mp))] = Some (e4, mp4)"
      and i: "intcolor mp' = intcolor mp4"
      by auto
    have "hexcolor2int (int2hexcolor (intcolor mp)) = Some (intcolor mp)"
      by (simp add: hexcolor2int_int2hexcolor color_range [OF cr])
    moreover have "int2hexcolor (intcolor mp) = CHR ''#'' # tl (int2hexcolor (intcolor mp))"
      by (simp add: int2hexcolor_string)
    ultimately have "intcolor mp4 = intcolor mp"
      using 4 by (auto simp add: mousepad_color_def atom_getsymbolarg_def
          split: list.splits Option.bind_splits if_splits)
    with i show ?thesis by simp
  qed
  ultimately show ?thesis using r n by simp
qed

lemma float_exact_small: "- (2 ^ 24) < sint i \<Longrightarrow> sint i < 2 ^ 24 \<Longrightarrow> float_exact i"
  by (simp add: float_exact_def float_round_exact)

lemma float_exponent_le:
  fixes a :: int
  assumes "a < 2 ^ (24 + j)"
  shows "length (filter (\<lambda>i. 2 ^ (24 + i) \<le> a) [0..<8]) \<le> min j 8"
proof -
  let ?P = "\<lambda>i :: nat. (2 :: int) ^ (24 + i) \<le> a"
  have "i < j" if "?P i" for i
  proof (rule ccontr)
    assume "\<not> i < j"
    then have "(2 :: int) ^ (24 + j) \<le> 2 ^ (24 + i)"
      by (intro power_increasing) simp_all
    with that assms show False by linarith
  qed
  then have "set (filter ?P [0..<8]) \<subseteq> {..<min j 8}" by auto
  then have "card (set (filter ?P [0..<8])) \<le> card {..<min j 8}"
    by (intro card_mono) simp_all
  moreover have "distinct (filter ?P [0..<8])" by simp
  then have "card (set (filter ?P [0..<8])) = length (filter ?P [0..<8])"
    by (rule distinct_card)
  ultimately show ?thesis
    by (simp only: card_lessThan)
qed

lemma float_round_dvd:
  assumes d: "2 ^ j dvd v" and b: "\<bar>v\<bar> < 2 ^ (24 + j)"
  shows "float_round v = v"
proof -
  define e where "e = length (filter (\<lambda>i. 2 ^ (24 + i) \<le> \<bar>v\<bar>) [0..<8])"
  have "e \<le> j" using float_exponent_le [OF b] by (simp add: e_def)
  then have "(2 :: int) ^ e dvd 2 ^ j" by (rule le_imp_power_dvd)
  with d have "2 ^ e dvd v" by (meson dvd_trans)
  then have "2 ^ e dvd \<bar>v\<bar>" by simp
  then have r: "\<bar>v\<bar> mod 2 ^ e = 0" and q: "\<bar>v\<bar> div 2 ^ e * 2 ^ e = \<bar>v\<bar>"
    by simp_all
  have p: "\<not> (2 :: int) ^ e < 0" "(2 :: int) ^ e \<noteq> 0" by simp_all
  show ?thesis
    unfolding float_round_def Let_def e_def [symmetric] r
    using p q by (simp add: mult_sgn_abs)
qed

lemma float_round_dvd_256:
  assumes d: "2 ^ 8 dvd v" and b: "\<bar>v\<bar> \<le> 2 ^ 31"
  shows "float_round v = v"
  by (rule float_round_dvd [of 8]) (use assms in simp_all)

lemma trunc_bound:
  fixes f :: real and n :: int
  assumes "\<bar>f\<bar> \<le> of_int n"
  shows "\<bar>c_trunc f\<bar> \<le> n"
proof (cases "0 \<le> f")
  case True
  then have "0 \<le> \<lfloor>f\<rfloor>" by simp
  moreover from True assms have "\<lfloor>f\<rfloor> \<le> n" by (simp add: floor_le_iff | linarith)+
  ultimately show ?thesis using True by (simp add: c_trunc_def)
next
  case False
  then have "\<lceil>f\<rceil> \<le> 0" by (simp add: ceiling_le_iff)
  moreover from False assms have "- n \<le> \<lceil>f\<rceil>" by (simp add: le_ceiling_iff | linarith)+
  ultimately show ?thesis using False by (simp add: c_trunc_def)
qed

lemma float_exact_small_int:
  assumes "\<bar>t\<bar> < 2 ^ 24"
  shows "float_exact (word_of_int t)"
proof -
  from assms have "signed_take_bit 31 t = t"
    by (intro signed_take_bit_int_eq_self) simp_all
  then have "sint (word_of_int t :: cint) = t" unfolding sint_sbintrunc' by simp
  with assms show ?thesis by (simp add: float_exact_def float_round_exact)
qed

lemma float_exact_scaled:
  assumes m: "\<bar>m\<bar> < 2 ^ 24"
  shows "float_exact (word_of_int (m * 2 ^ k))"
proof -
  let ?t = "m * 2 ^ k"
  have s: "sint (word_of_int ?t :: cint) = signed_take_bit 31 ?t"
    unfolding sint_sbintrunc' by simp
  show ?thesis
  proof (cases "k < 8")
    case True
    have "\<bar>?t\<bar> = \<bar>m\<bar> * 2 ^ k" by (simp add: abs_mult)
    also have "\<dots> < 2 ^ 24 * 2 ^ k" using m by simp
    finally have b: "\<bar>?t\<bar> < 2 ^ (24 + k)" by (simp add: power_add)
    have "(2 :: int) ^ (24 + k) \<le> 2 ^ 31" using True by (intro power_increasing) simp_all
    with b have "\<bar>?t\<bar> < 2 ^ 31" by linarith
    then have "signed_take_bit 31 ?t = ?t"
      by (intro signed_take_bit_int_eq_self) linarith+
    moreover have "float_round ?t = ?t"
      by (rule float_round_dvd [OF _ b]) simp
    ultimately show ?thesis unfolding float_exact_def s by simp
  next
    case False
    then have "(2 :: int) ^ 8 dvd 2 ^ k" by (intro le_imp_power_dvd) simp
    then have d: "(2 :: int) ^ 8 dvd ?t" by (rule dvd_mult)
    have "(2 :: int) ^ 8 dvd 2 ^ 32" by (intro le_imp_power_dvd) simp
    with d have "(2 :: int) ^ 8 dvd ?t mod 2 ^ 32" by (simp add: dvd_mod)
    moreover have "(2 :: int) ^ 8 dvd 2 ^ 32 * of_bool (bit ?t 31)"
      using \<open>(2 :: int) ^ 8 dvd 2 ^ 32\<close> by (rule dvd_mult2)
    ultimately have "(2 :: int) ^ 8 dvd signed_take_bit 31 ?t"
      unfolding signed_take_bit_eq_take_bit_minus take_bit_eq_mod by simp
    moreover have "- (2 ^ 31) \<le> signed_take_bit 31 ?t" "signed_take_bit 31 ?t < 2 ^ 31"
      by (rule signed_take_bit_int_greater_eq_minus_exp, rule signed_take_bit_int_less_exp)
    then have "\<bar>signed_take_bit 31 ?t\<bar> \<le> 2 ^ 31" by linarith
    ultimately have "float_round (signed_take_bit 31 ?t) = signed_take_bit 31 ?t"
      by (rule float_round_dvd_256)
    then show ?thesis unfolding float_exact_def s by simp
  qed
qed

lemma float_exact_c_int_of_float:
  assumes "is_t_float f" and "c_int_of_float f = Some i"
  shows "float_exact i"
proof -
  from assms(2) have i: "i = word_of_int (c_trunc f)"
    by (simp add: c_int_of_float_Some)
  from assms(1) obtain m :: int and k :: nat where m: "\<bar>m\<bar> < 2 ^ 24"
    and f: "f = of_int m * 2 ^ k \<or> f = of_int m / 2 ^ k"
    by (auto simp add: is_t_float_def)
  from f show ?thesis
  proof
    assume "f = of_int m * 2 ^ k"
    then have "f = real_of_int (m * 2 ^ k)" by simp
    then have "c_trunc f = m * 2 ^ k"
      by (simp only: c_trunc_of_int)
    with float_exact_scaled [OF m] i show ?thesis by simp
  next
    assume d: "f = of_int m / 2 ^ k"
    have "\<bar>f\<bar> = \<bar>real_of_int m\<bar> / 2 ^ k" by (simp add: d)
    also have "\<dots> \<le> \<bar>real_of_int m\<bar>" by (simp add: divide_le_eq_1 mult_le_cancel_left1 field_simps)
    finally have "\<bar>f\<bar> \<le> of_int \<bar>m\<bar>" by simp
    from trunc_bound [OF this] m
    have "\<bar>c_trunc f\<bar> < 2 ^ 24" by linarith
    from float_exact_small_int [OF this] i show ?thesis
      by simp
  qed
qed

lemma float_exact_consts: "float_exact DEFSIZE" "float_exact 1"
  by (simp_all add: DEFSIZE_def float_exact_small)

lemma float_exact_arg:
  assumes "float_atoms argv" and "i < length argv"
    and "(case argv ! i of A_FLOAT f \<Rightarrow> c_int_of_float f | _ \<Rightarrow> Some DEFSIZE) = Some v"
  shows "float_exact v"
proof (cases "argv ! i")
  case (A_FLOAT f)
  with assms have "is_t_float f"
    by (metis float_atoms_def nth_mem)
  with A_FLOAT assms(3) show ?thesis by (simp add: float_exact_c_int_of_float)
qed (use assms(3) in \<open>auto simp add: float_exact_consts\<close>)

lemma float_size_size:
  assumes "float_atoms argv" and "mousepad_size mp argv = Some m"
  shows "float_size m"
proof -
  have c: "float_exact (if v <s 1 then 1 else v)" if "float_exact v" for v
    using that by (simp add: float_exact_consts)
  from assms(2) obtain w0 h0 where
    w0: "(if 1 \<le> length argv
          then (case argv ! 0 of A_FLOAT f \<Rightarrow> c_int_of_float f | _ \<Rightarrow> Some DEFSIZE)
          else Some DEFSIZE) = Some w0"
    and h0: "(if 1 \<le> length argv
          then (if length argv = 1 then Some w0
                else (case argv ! 1 of A_FLOAT f \<Rightarrow> c_int_of_float f | _ \<Rightarrow> Some DEFSIZE))
          else Some DEFSIZE) = Some h0"
    and m: "width m = (if w0 <s 1 then 1 else w0)" "height m = (if h0 <s 1 then 1 else h0)"
    by (auto simp add: mousepad_size_def Let_def split: Option.bind_splits)
  have fw: "float_exact w0"
  proof (cases "1 \<le> length argv")
    case True
    then have "0 < length argv" by (cases argv) simp_all
    from float_exact_arg [OF assms(1) this, of w0] w0 True show ?thesis by simp
  next
    case False
    with w0 show ?thesis by (auto simp add: float_exact_consts)
  qed
  have fh: "float_exact h0"
  proof (cases "1 \<le> length argv")
    case True
    show ?thesis
    proof (cases "length argv = 1")
      case one: True
      with h0 fw show ?thesis by simp
    next
      case False
      with True have "1 < length argv" by simp
      from float_exact_arg [OF assms(1) this, of h0] h0 True False show ?thesis by simp
    qed
  next
    case False
    with h0 show ?thesis by (auto simp add: float_exact_consts)
  qed
  from c [OF fw] c [OF fh] show ?thesis
    by (simp add: float_size_def m)
qed

lemma float_size_color:
  "mousepad_color h mp argv = Some (e, mp') \<Longrightarrow> float_size mp' = float_size mp"
  by (auto simp add: mousepad_color_def float_size_def split: list.splits Option.bind_splits)

lemma float_size_motion:
  "mousepad_motion h mp dx dy = Some (e, mp') \<Longrightarrow> float_size mp' = float_size mp"
  by (auto simp add: mousepad_motion_def float_size_def Let_def split: if_splits Option.bind_splits)

lemma float_size_click:
  "mousepad_click h mp x y s a d b = Some (e, mp', r) \<Longrightarrow> float_size mp' = float_size mp"
  by (auto simp add: mousepad_click_def float_size_def Let_def split: if_splits Option.bind_splits)

lemma float_size_get:
  "mousepad_get h mp s = Some (e, mp') \<Longrightarrow> float_size mp' = float_size mp"
  by (auto simp add: mousepad_get_def float_size_def Let_def split: if_splits Option.bind_splits)

lemma float_size_invoke:
  assumes "float_size mp" and "invoke h cb mp = Some (e, mp')" and "float_callback cb"
  shows "float_size mp'"
proof (cases cb)
  case (Motion dx dy)
  with assms float_size_motion show ?thesis by (simp add: invoke_def)
next
  case (Size argv)
  with assms float_size_size [of argv mp mp'] show ?thesis
    by (auto simp add: invoke_def mousepad_resize_def float_callback_def split: Option.bind_splits)
next
  case (Color argv)
  with assms float_size_color show ?thesis by (simp add: invoke_def)
next
  case (Delta dx dy)
  with assms show ?thesis
    by (auto simp add: invoke_def mousepad_delta_def Let_def float_size_def split: Option.bind_splits)
next
  case (Pos x y)
  with assms show ?thesis
    by (auto simp add: invoke_def mousepad_pos_def Let_def float_size_def split: Option.bind_splits)
next
  case (Send s)
  with assms size_fields_send [of h mp s] show ?thesis
    by (auto simp add: invoke_def float_size_def)
next
  case (Receive s)
  with assms size_fields_receive [of h mp s] show ?thesis
    by (auto simp add: invoke_def float_size_def)
next
  case (Get s)
  with assms float_size_get show ?thesis by (simp add: invoke_def)
next
  case (Zoom z)
  with assms show ?thesis
    by (auto simp add: invoke_def mousepad_zoom_def Let_def float_size_def split: Option.bind_splits)
next
  case (Displace dx dy)
  with assms show ?thesis by (auto simp add: invoke_def mousepad_displace_def Let_def float_size_def)
next
  case (Click x y s a d b)
  with assms float_size_click show ?thesis by (auto simp add: invoke_def)
next
  case Init_unexpanded
  with assms show ?thesis
    by (auto simp add: invoke_def mousepad_init_unexpanded_def Let_def float_size_def)
qed (use assms in \<open>auto simp add: invoke_def\<close>)

lemma float_size_run:
  "float_size mp \<Longrightarrow> run cbs mp = Some (e, mp') \<Longrightarrow>
   \<forall>x \<in> set cbs. float_callback (fst (snd x)) \<Longrightarrow> float_size mp'"
proof (induction cbs arbitrary: mp e)
  case Nil
  then show ?case by simp
next
  case (Cons x cbs)
  obtain h cb b where x: "x = (h, cb, b)" by (cases x)
  let ?m = "case b of None \<Rightarrow> mp | Some bb \<Rightarrow> mp\<lparr>te_binbuf := bb\<rparr>"
  have m: "float_size ?m" using Cons.prems(1) by (simp add: float_size_def split: option.splits)
  from Cons.prems(2) x obtain e1 mp1 e2 where
    1: "invoke h cb ?m = Some (e1, mp1)" and 2: "run cbs mp1 = Some (e2, mp')"
    by (auto split: option.splits)
  from Cons.prems(3) x have 3: "float_callback cb" "\<forall>x \<in> set cbs. float_callback (fst (snd x))"
    by simp_all
  from float_size_invoke [OF m 1 3(1)] Cons.IH 2 3(2) show ?case by blast
qed

lemma float_size_new:
  assumes "mousepad_new h self argv = Some (e, mp)" and "float_atoms argv"
  shows "float_size mp"
proof -
  from mousepad_new_fields(1) [OF assms(1)] obtain m where
    "mousepad_size pd_new argv = Some m" and "width m = width mp" and "height m = height mp"
    by auto
  with float_size_size [OF assms(2), of pd_new m] show ?thesis
    by (simp add: float_size_def)
qed

lemma reached_inv:
  assumes "reached mp"
  shows "size_inv mp \<and> color_inv mp \<and> float_size mp"
proof -
  from assms obtain h self argv e mp0 cbs e' where
    n: "mousepad_new h self argv = Some (e, mp0)" and a: "float_atoms argv"
    and r: "run cbs mp0 = Some (e', mp)" and c: "\<forall>x \<in> set cbs. float_callback (fst (snd x))"
    by (auto simp add: reached_def)
  from size_inv_run [OF size_inv_new [OF n] r] color_inv_run [OF color_inv_new [OF n] r]
    float_size_run [OF float_size_new [OF n a] r c]
  show ?thesis by simp
qed

text \<open>The names stay in step: \<open>send\<close> and \<open>receive\<close> set a name and its expansion
  together, and no other callback but the clock callback writes any of the four.\<close>

lemma names_kept:
  assumes "invoke h cb mp = Some (e, mp')"
    and "\<forall>s. cb \<noteq> Send s" and "\<forall>s. cb \<noteq> Receive s" and "cb \<noteq> Init_unexpanded"
  shows "sendname mp' = sendname mp \<and> receivename mp' = receivename mp
       \<and> sendname_unexpanded mp' = sendname_unexpanded mp
       \<and> receivename_unexpanded mp' = receivename_unexpanded mp
       \<and> te_binbuf mp' = te_binbuf mp"
proof (cases cb)
  case (Motion dx dy)
  with assms show ?thesis
    by (auto simp add: invoke_def mousepad_motion_def Let_def split: if_splits Option.bind_splits)
next
  case (Size argv)
  with assms obtain m where "mousepad_size mp argv = Some m" and "mp' = m"
    by (auto simp add: invoke_def mousepad_resize_def split: Option.bind_splits)
  with size_only [of mp argv m] show ?thesis by auto
next
  case (Color argv)
  with assms show ?thesis
    by (auto simp add: invoke_def mousepad_color_def split: list.splits Option.bind_splits)
next
  case (Delta dx dy)
  with assms show ?thesis
    by (auto simp add: invoke_def mousepad_delta_def Let_def split: Option.bind_splits)
next
  case (Pos x y)
  with assms show ?thesis
    by (auto simp add: invoke_def mousepad_pos_def Let_def split: Option.bind_splits)
next
  case (Get s)
  with assms show ?thesis
    by (auto simp add: invoke_def mousepad_get_def Let_def split: if_splits Option.bind_splits)
next
  case (Zoom z)
  with assms show ?thesis
    by (auto simp add: invoke_def mousepad_zoom_def Let_def split: Option.bind_splits)
next
  case (Displace dx dy)
  with assms show ?thesis by (auto simp add: invoke_def mousepad_displace_def Let_def)
next
  case (Click x y s a d b)
  with assms show ?thesis
    by (auto simp add: invoke_def mousepad_click_def Let_def split: if_splits Option.bind_splits)
qed (use assms in \<open>auto simp add: invoke_def\<close>)

lemma names_inv_invoke:
  assumes "names_inv h mp" and "invoke h' cb mp = Some (e, mp')" and "cb \<noteq> Init_unexpanded"
    and r: "canvas_realizedollar h' = canvas_realizedollar h"
  shows "names_inv h mp' \<and> te_binbuf mp' = te_binbuf mp"
proof (cases "(\<exists>s. cb = Send s) \<or> (\<exists>s. cb = Receive s)")
  case True
  then show ?thesis
  proof
    assume "\<exists>s. cb = Send s"
    then obtain s where "cb = Send s" ..
    with assms(2) have "mp' = snd (mousepad_send h' mp s)" by (auto simp add: invoke_def)
    with assms(1) show ?thesis
      by (simp add: mousepad_send_def Let_def names_inv_def expansion_def r symEmpty_def)
  next
    assume "\<exists>s. cb = Receive s"
    then obtain s where "cb = Receive s" ..
    with assms(2) have "mp' = snd (mousepad_receive h' mp s)" by (auto simp add: invoke_def)
    with assms(1) show ?thesis
      by (simp add: mousepad_receive_def Let_def names_inv_def expansion_def r symEmpty_def)
  qed
next
  case False
  with names_kept [OF assms(2)] assms(1,3) show ?thesis
    by (simp add: names_inv_def)
qed

lemma names_inv_run:
  "names_inv h mp \<Longrightarrow> run cbs mp = Some (e, mp') \<Longrightarrow> \<forall>x \<in> set cbs. later h x \<Longrightarrow>
     names_inv h mp' \<and> te_binbuf mp' = te_binbuf mp"
proof (induction cbs arbitrary: mp e)
  case Nil
  then show ?case by simp
next
  case (Cons x cbs)
  obtain h' cb b where x: "x = (h', cb, b)" by (cases x)
  from Cons.prems(3) x have l: "canvas_realizedollar h' = canvas_realizedollar h"
    "cb \<noteq> Init_unexpanded" "b = None" and ls: "\<forall>x \<in> set cbs. later h x"
    by (simp_all add: later_def)
  from Cons.prems(2) x l(3) obtain e1 mp1 e2 where
    1: "invoke h' cb mp = Some (e1, mp1)" and 2: "run cbs mp1 = Some (e2, mp')"
    by (auto split: option.splits)
  from names_inv_invoke [OF Cons.prems(1) 1 l(2) l(1)]
  have i: "names_inv h mp1" and t: "te_binbuf mp1 = te_binbuf mp" by simp_all
  from Cons.IH [OF i 2 ls] t show ?case by simp
qed

lemma names_pre_invoke:
  assumes "names_pre h m0 mp" and "invoke h' cb mp = Some (e, mp')" and "early h (h', cb, b)"
  shows "names_pre h m0 mp' \<and> te_binbuf mp' = te_binbuf mp"
proof -
  from assms(3) have r: "canvas_realizedollar h' = canvas_realizedollar h"
    and i: "cb \<noteq> Init_unexpanded"
    by (simp_all add: early_def later_def)
  show ?thesis
  proof (cases "(\<exists>s. cb = Send s) \<or> (\<exists>s. cb = Receive s)")
    case True
    then show ?thesis
    proof
      assume "\<exists>s. cb = Send s"
      then obtain s where c: "cb = Send s" ..
      with assms(3) have s: "s \<noteq> []" "s \<noteq> symEmpty" by (simp_all add: early_def)
      from c assms(2) have "mp' = snd (mousepad_send h' mp s)" by (auto simp add: invoke_def)
      with assms(1) s show ?thesis
        by (simp add: mousepad_send_def Let_def names_pre_def expansion_def r)
    next
      assume "\<exists>s. cb = Receive s"
      then obtain s where c: "cb = Receive s" ..
      with assms(3) have s: "s \<noteq> []" "s \<noteq> symEmpty" by (simp_all add: early_def)
      from c assms(2) have "mp' = snd (mousepad_receive h' mp s)" by (auto simp add: invoke_def)
      with assms(1) s show ?thesis
        by (simp add: mousepad_receive_def Let_def names_pre_def expansion_def r)
    qed
  next
    case False
    with names_kept [OF assms(2)] assms(1) i show ?thesis
      by (simp add: names_pre_def)
  qed
qed

lemma names_pre_run:
  "names_pre h m0 mp \<Longrightarrow> run pre mp = Some (e, mp') \<Longrightarrow> \<forall>x \<in> set pre. early h x \<Longrightarrow>
     names_pre h m0 mp' \<and> te_binbuf mp' = te_binbuf mp"
proof (induction pre arbitrary: mp e)
  case Nil
  then show ?case by simp
next
  case (Cons x pre)
  obtain h' cb b where x: "x = (h', cb, b)" by (cases x)
  from Cons.prems(3) x have l: "early h (h', cb, b)" "b = None"
    and ls: "\<forall>x \<in> set pre. early h x"
    by (simp_all add: early_def later_def)
  from Cons.prems(2) x l(2) obtain e1 mp1 e2 where
    1: "invoke h' cb mp = Some (e1, mp1)" and 2: "run pre mp1 = Some (e2, mp')"
    by (auto split: option.splits)
  from names_pre_invoke [OF Cons.prems(1) 1 l(1)]
  have i: "names_pre h m0 mp1" and t: "te_binbuf mp1 = te_binbuf mp" by simp_all
  from Cons.IH [OF i 2 ls] t show ?case by simp
qed

lemma names_inv_init:
  assumes "names_pre h m0 mp" and "box_names h (te_binbuf mp) m0"
  shows "names_inv h (mousepad_init_unexpanded h mp)"
  using assms
  by (auto simp add: names_pre_def box_names_def names_inv_def mousepad_init_unexpanded_def
      Let_def split: if_splits)

lemma run_append:
  "run (xs @ ys) mp = Some (e, mp') \<Longrightarrow>
     \<exists>e1 mp1 e2. run xs mp = Some (e1, mp1) \<and> run ys mp1 = Some (e2, mp')"
proof (induction xs arbitrary: mp e)
  case Nil
  then show ?case by simp
next
  case (Cons x xs)
  obtain h cb b where x: "x = (h, cb, b)" by (cases x)
  let ?m = "case b of None \<Rightarrow> mp | Some bb \<Rightarrow> mp\<lparr>te_binbuf := bb\<rparr>"
  from Cons.prems x obtain e1 mp1 e2 where
    1: "invoke h cb ?m = Some (e1, mp1)" and 2: "run (xs @ ys) mp1 = Some (e2, mp')"
    by (auto split: option.splits)
  from Cons.IH [OF 2] obtain e3 mp3 e4 where
    "run xs mp1 = Some (e3, mp3)" "run ys mp3 = Some (e4, mp')"
    by blast
  with 1 x show ?case by simp
qed

lemma run_binbuf:
  "xs \<noteq> [] \<Longrightarrow> \<forall>x \<in> set xs. snd (snd x) = None \<Longrightarrow>
     \<exists>ys. run ys mp = run xs (mp\<lparr>te_binbuf := bb\<rparr>)
        \<and> map (\<lambda>x. fst (snd x)) ys = map (\<lambda>x. fst (snd x)) xs"
proof (cases xs)
  case Nil
  assume "xs \<noteq> []"
  with Nil show ?thesis by simp
next
  case (Cons x rest)
  assume "\<forall>x \<in> set xs. snd (snd x) = None"
  with Cons obtain h cb where x: "x = (h, cb, None)" by (cases x) auto
  have "run ((h, cb, Some bb) # rest) mp = run xs (mp\<lparr>te_binbuf := bb\<rparr>)"
    by (simp add: Cons x)
  moreover have "map (\<lambda>x. fst (snd x)) ((h, cb, Some bb) # rest) = map (\<lambda>x. fst (snd x)) xs"
    by (simp add: Cons x)
  ultimately show ?thesis by blast
qed

lemma loaded_inv:
  assumes "loaded h mp"
  shows "reached mp \<and> names_inv h mp \<and> te_binbuf mp \<noteq> []"
proof -
  from assms obtain self argv e0 m0 bb pre cbs e where
    n: "mousepad_new h self argv = Some (e0, m0)" and a: "float_atoms argv"
    and bx: "box_names h bb m0"
    and r: "run (pre @ (h, Init_unexpanded, None) # cbs) (m0\<lparr>te_binbuf := bb\<rparr>) = Some (e, mp)"
    and p: "\<forall>x \<in> set pre. early h x" and l: "\<forall>x \<in> set cbs. later h x"
    by (auto simp add: loaded_def)
  from run_append [OF r] obtain e1 m1 e2 where
    r1: "run pre (m0\<lparr>te_binbuf := bb\<rparr>) = Some (e1, m1)"
    and r2: "run ((h, Init_unexpanded, None) # cbs) m1 = Some (e2, mp)"
    by blast
  note f = mousepad_new_fields [OF n]
  from f(6,7) have "names_pre h m0 (m0\<lparr>te_binbuf := bb\<rparr>)"
    by (simp add: names_pre_def)
  from names_pre_run [OF this r1 p] have i1: "names_pre h m0 m1" and t1: "te_binbuf m1 = bb"
    by simp_all
  from r2 obtain e3 where r3: "run cbs (mousepad_init_unexpanded h m1) = Some (e3, mp)"
    by (auto simp add: invoke_def split: option.splits)
  from bx t1 names_inv_init [OF i1] have i2: "names_inv h (mousepad_init_unexpanded h m1)"
    by simp
  have t2: "te_binbuf (mousepad_init_unexpanded h m1) = bb"
    using t1 by (simp add: mousepad_init_unexpanded_def Let_def)
  from bx have ne: "bb \<noteq> []" by (simp add: box_names_def)
  from names_inv_run [OF i2 r3 l] t2 ne have "names_inv h mp" "te_binbuf mp \<noteq> []"
    by simp_all
  moreover have "reached mp"
  proof -
    let ?xs = "pre @ (h, Init_unexpanded, None) # cbs"
    have fl: "\<forall>x \<in> set ?xs. float_callback (fst (snd x))"
      using p l by (auto simp add: early_def later_def float_callback_def)
    have "\<forall>x \<in> set ?xs. snd (snd x) = None"
      using p l by (auto simp add: early_def later_def)
    from run_binbuf [OF _ this, of m0 bb] obtain ys where
      ys: "run ys m0 = run ?xs (m0\<lparr>te_binbuf := bb\<rparr>)"
      and m: "map (\<lambda>x. fst (snd x)) ys = map (\<lambda>x. fst (snd x)) ?xs"
      by auto
    from m have "(\<lambda>x. fst (snd x)) ` set ys = (\<lambda>x. fst (snd x)) ` set ?xs"
      by (metis set_map)
    with fl have "\<forall>x \<in> set ys. float_callback (fst (snd x))"
      by (metis (no_types, lifting) image_iff)
    with n a ys r show ?thesis
      unfolding reached_def by metis
  qed
  ultimately show ?thesis by simp
qed

text \<open>
  Claim C5, amended. \<open>mousepad_save\<close> (with a non-empty binbuf and a positive zoom factor)
  writes \<open>#X obj\<close>, the position divided by the zoom factor, the class name, the nominal
  width and height, the unexpanded send and receive names, the colour as \<open>int2hexcolor\<close>
  renders it, and a semicolon. For every object reached from \<open>mousepad_new\<close> by callbacks,
  a new object made from the five saved arguments has the same width, height and colour.
  It has the same expanded send and receive names as well if the object is loaded: its
  box gives both names or none, the clock callback has run, and no message has set a
  name to \<open>empty\<close> before it.
\<close>

theorem save_and_restore:
  "(te_binbuf mp = a # b \<and> 0 <s zoomfactor mp \<longrightarrow>
      mousepad_save mp =
        Some [A_SYMBOL ''#X'', A_SYMBOL ''obj'',
              A_FLOAT (t_float_of_int (c_quot (scast (te_xpix mp)) (zoomfactor mp))),
              A_FLOAT (t_float_of_int (c_quot (scast (te_ypix mp)) (zoomfactor mp))),
              A_SYMBOL (atom_getsymbol a),
              A_FLOAT (t_float_of_int (width mp)), A_FLOAT (t_float_of_int (height mp)),
              A_SYMBOL (sendname_unexpanded mp), A_SYMBOL (receivename_unexpanded mp),
              A_SYMBOL (int2hexcolor (intcolor mp)), A_SEMI])
   \<and> (reached mp \<and> te_binbuf mp \<noteq> [] \<and> 0 <s zoomfactor mp \<longrightarrow>
        (\<exists>e mp'. reload h self mp = Some (e, mp')
           \<and> width mp' = width mp \<and> height mp' = height mp \<and> intcolor mp' = intcolor mp))
   \<and> (loaded h mp \<and> 0 <s zoomfactor mp \<longrightarrow>
        (\<exists>e mp'. reload h self mp = Some (e, mp')
           \<and> width mp' = width mp \<and> height mp' = height mp \<and> intcolor mp' = intcolor mp
           \<and> sendname mp' = sendname mp \<and> receivename mp' = receivename mp))"
proof (intro conjI)
  show "te_binbuf mp = a # b \<and> 0 <s zoomfactor mp \<longrightarrow>
      mousepad_save mp =
        Some [A_SYMBOL ''#X'', A_SYMBOL ''obj'',
              A_FLOAT (t_float_of_int (c_quot (scast (te_xpix mp)) (zoomfactor mp))),
              A_FLOAT (t_float_of_int (c_quot (scast (te_ypix mp)) (zoomfactor mp))),
              A_SYMBOL (atom_getsymbol a),
              A_FLOAT (t_float_of_int (width mp)), A_FLOAT (t_float_of_int (height mp)),
              A_SYMBOL (sendname_unexpanded mp), A_SYMBOL (receivename_unexpanded mp),
              A_SYMBOL (int2hexcolor (intcolor mp)), A_SEMI]"
    using save_line by blast
  show "reached mp \<and> te_binbuf mp \<noteq> [] \<and> 0 <s zoomfactor mp \<longrightarrow>
        (\<exists>e mp'. reload h self mp = Some (e, mp')
           \<and> width mp' = width mp \<and> height mp' = height mp \<and> intcolor mp' = intcolor mp)"
  proof
    assume a: "reached mp \<and> te_binbuf mp \<noteq> [] \<and> 0 <s zoomfactor mp"
    with reached_inv [of mp] have "size_inv mp" "color_inv mp" "float_exact (width mp)"
      "float_exact (height mp)"
      by (simp_all add: float_size_def)
    with a restore [of mp h self] show "\<exists>e mp'. reload h self mp = Some (e, mp')
           \<and> width mp' = width mp \<and> height mp' = height mp \<and> intcolor mp' = intcolor mp"
      by blast
  qed
  show "loaded h mp \<and> 0 <s zoomfactor mp \<longrightarrow>
        (\<exists>e mp'. reload h self mp = Some (e, mp')
           \<and> width mp' = width mp \<and> height mp' = height mp \<and> intcolor mp' = intcolor mp
           \<and> sendname mp' = sendname mp \<and> receivename mp' = receivename mp)"
  proof
    assume a: "loaded h mp \<and> 0 <s zoomfactor mp"
    with loaded_inv [of h mp] have l: "reached mp" "names_inv h mp" "te_binbuf mp \<noteq> []"
      by simp_all
    with reached_inv [of mp] have "size_inv mp" "color_inv mp" "float_exact (width mp)"
      "float_exact (height mp)"
      by (simp_all add: float_size_def)
    with a l(3) restore [of mp h self] obtain e mp' where
      "reload h self mp = Some (e, mp')" "width mp' = width mp" "height mp' = height mp"
      "intcolor mp' = intcolor mp" "sendname mp' = expansion h (sendname_unexpanded mp)"
      "receivename mp' = expansion h (receivename_unexpanded mp)"
      by blast
    with l(2) show "\<exists>e mp'. reload h self mp = Some (e, mp')
           \<and> width mp' = width mp \<and> height mp' = height mp \<and> intcolor mp' = intcolor mp
           \<and> sendname mp' = sendname mp \<and> receivename mp' = receivename mp"
      by (simp add: names_inv_def)
  qed
qed

lemma is_t_float_int: "\<bar>m\<bar> < 2 ^ 24 \<Longrightarrow> is_t_float (of_int m)"
  unfolding is_t_float_def by (intro exI [of _ m] exI [of _ 0]) simp

lemma float_atoms_argv0: "float_atoms argv0"
  using is_t_float_int [of 100] is_t_float_int [of 50]
  by (auto simp add: float_atoms_def argv0_def)

text \<open>The example object, after the message \<open>send baz\<close>, the clock callback and the
  message \<open>receive empty\<close>.\<close>

lemma run2:
  "run ([(host0, Send ''baz'', None)] @ (host0, Init_unexpanded, None)
          # [(host0, Receive ''empty'', None)]) (mp0\<lparr>te_binbuf := binbuf0\<rparr>) =
     Some ([Pd_unbind ''bar'', Sys_vgui_create 4 [0, 47, 7, 50] 1, Sys_vgui_fill 1 0xAABBCC],
           mp2\<lparr>sendname_unexpanded := ''baz'', sendname := ''baz'',
                receivename_unexpanded := ''empty'', receivename := ''empty''\<rparr>)"
  by (simp add: invoke_def mousepad_init_unexpanded_def mousepad_send_def mousepad_receive_def
      mousepad_change_io_def mousepad_draw_def draw_rect_def draw_fillcolor_def outlet_rect_def
      mp0_def mp2_def binbuf0_def argv0_def host0_def symEmpty_def Let_def
      BASE_def INLET_def OUTLET_def IOHEIGHT_def)

lemma loaded_mp2:
  "loaded host0 (mp2\<lparr>sendname_unexpanded := ''baz'', sendname := ''baz'',
                       receivename_unexpanded := ''empty'', receivename := ''empty''\<rparr>)"
proof -
  have b: "box_names host0 binbuf0 mp0"
    by (simp add: box_names_def binbuf0_def argv0_def mp0_def host0_def expansion_def)
  have p: "\<forall>x \<in> set [(host0, Send ''baz'', None)]. early host0 x"
    by (simp add: early_def later_def float_callback_def symEmpty_def)
  have l: "\<forall>x \<in> set [(host0, Receive ''empty'', None)]. later host0 x"
    by (simp add: later_def float_callback_def)
  from mousepad_new_example float_atoms_argv0 b run2 p l show ?thesis
    unfolding loaded_def by blast
qed

theorem save_and_restore_witness:
  "loaded host0 (mp2\<lparr>sendname_unexpanded := ''baz'', sendname := ''baz'',
                       receivename_unexpanded := ''empty'', receivename := ''empty''\<rparr>)
   \<and> reached (mp2\<lparr>sendname_unexpanded := ''baz'', sendname := ''baz'',
                   receivename_unexpanded := ''empty'', receivename := ''empty''\<rparr>)
   \<and> te_binbuf (mp2\<lparr>sendname_unexpanded := ''baz'', sendname := ''baz'',
                     receivename_unexpanded := ''empty'', receivename := ''empty''\<rparr>)
       = A_SYMBOL ''mousepad'' # argv0
   \<and> 0 <s zoomfactor (mp2\<lparr>sendname_unexpanded := ''baz'', sendname := ''baz'',
                           receivename_unexpanded := ''empty'', receivename := ''empty''\<rparr>)
   \<and> (\<exists>e mp'. reload host0 8192
                  (mp2\<lparr>sendname_unexpanded := ''baz'', sendname := ''baz'',
                       receivename_unexpanded := ''empty'', receivename := ''empty''\<rparr>)
                = Some (e, mp')
         \<and> sendname mp' = ''baz'' \<and> receivename mp' = ''empty''
         \<and> width mp' = 100 \<and> height mp' = 50 \<and> intcolor mp' = 0xAABBCC)"
proof -
  let ?m = "mp2\<lparr>sendname_unexpanded := ''baz'', sendname := ''baz'',
                receivename_unexpanded := ''empty'', receivename := ''empty''\<rparr>"
  have f: "te_binbuf ?m = A_SYMBOL ''mousepad'' # argv0" "0 <s zoomfactor ?m"
    "sendname ?m = ''baz''" "receivename ?m = ''empty''" "width ?m = 100" "height ?m = 50"
    "intcolor ?m = 0xAABBCC"
    by (simp_all add: mp2_def mp0_def binbuf0_def word_sless_alt)
  from loaded_inv [OF loaded_mp2] have r: "reached ?m" by simp
  from save_and_restore [where mp = ?m and a = "A_SYMBOL ''mousepad''" and b = argv0
      and h = host0 and self = 8192]
    f loaded_mp2 r
  show ?thesis
    by auto
qed

lemmas new_defs =
  mousepad_new_def pd_new_def mousepad_size_def
  mousepad_send_def mousepad_receive_def mousepad_color_def mousepad_fixed_sendreceive_def
  mousepad_change_io_def draw_erase_def draw_fillcolor_def atom_getsymbolarg_def
  atom_getfloatarg_def int_lits symEmpty_def
  DEFCOLOR_def DEFZOOM_def DEFSIZE_def INLET_def OUTLET_def BASE_def Let_def word_sless_alt

lemma sprintf_8192: "sprintf_lX 8192 = ''0X2000''"
  by (simp add: sprintf_lX_def)

lemma hex_AABBCC: "int2hexcolor 0xAABBCC = ''#AABBCC''" "hexcolor2int ''#AABBCC'' = Some 0xAABBCC"
  by code_simp+

lemma float_lits2: "t_float_of_int 64 = 64" "t_float_of_int 100 = 100" "t_float_of_int 50 = 50"
  by (simp_all add: t_float_of_int_exact)

lemma quot_0: "c_quot 0 1 = 0"
  by (simp add: c_quot_def)

lemma save3:
  "mousepad_save mp3 =
     Some [A_SYMBOL ''#X'', A_SYMBOL ''obj'', A_FLOAT 0, A_FLOAT 0, A_SYMBOL ''mousepad'',
           A_FLOAT 100, A_FLOAT 50, A_SYMBOL ''empty'', A_SYMBOL ''empty'',
           A_SYMBOL ''#AABBCC'', A_SEMI]"
  by (simp add: mousepad_save_def mp3_def mp0_def binbuf0_def c_div_def quot_0 float_lits
      float_lits2 hex_AABBCC atom_getsymbol_def)

lemma window3: "run [(host0, Save, Some binbuf0)] mp0 = Some ([], mp3)"
  using save3 by (simp add: invoke_def mp3_def)

lemma reload3:
  "reload host0 8192 mp3 =
     Some ([Outlet_new, Sys_vgui_fill 1 0xAABBCC, Clock_delay, Pd_bind ''to-mousepad-0X2000''],
           mp0\<lparr>sendname := ''empty'', receivename := ''empty'', objID := ''0X2000'',
               sendname_fixed := ''from-mousepad-0X2000'',
               receivename_fixed := ''to-mousepad-0X2000''\<rparr>)"
  unfolding reload_def save3
  by (simp add: saved_args_def new_defs host0_def mp0_def sprintf_8192 hex_AABBCC)

text \<open>
  Claim C5 as stated fails. The object \<open>mousepad 100 50 foo bar #abc\<close> sends to \<open>foo\<close> and
  receives from \<open>bar\<close>; until the clock callback has run its unexpanded names are \<open>empty\<close>,
  so a save in that time writes \<open>empty empty\<close> and the object made from the saved arguments
  has neither name.
\<close>

theorem save_restore_counterexample:
  "mousepad_new host0 4096 argv0 =
     Some ([Outlet_new, Sys_vgui_delete 2, Pd_bind ''bar'', Sys_vgui_delete 4,
            Sys_vgui_fill 1 0xAABBCC, Clock_delay, Pd_bind ''to-mousepad-0X1000''], mp0)
   \<and> run [(host0, Save, Some binbuf0)] mp0 = Some ([], mp3)
   \<and> sendname mp3 = ''foo'' \<and> receivename mp3 = ''bar''
   \<and> mousepad_save mp3 =
       Some [A_SYMBOL ''#X'', A_SYMBOL ''obj'', A_FLOAT 0, A_FLOAT 0, A_SYMBOL ''mousepad'',
             A_FLOAT 100, A_FLOAT 50, A_SYMBOL ''empty'', A_SYMBOL ''empty'',
             A_SYMBOL ''#AABBCC'', A_SEMI]
   \<and> map_option (sendname \<circ> snd) (reload host0 8192 mp3) = Some ''empty''
   \<and> map_option (receivename \<circ> snd) (reload host0 8192 mp3) = Some ''empty''"
proof -
  have n: "sendname mp3 = ''foo''" "receivename mp3 = ''bar''"
    by (simp_all add: mp3_def mp0_def)
  have r: "map_option (sendname \<circ> snd) (reload host0 8192 mp3) = Some ''empty''"
    "map_option (receivename \<circ> snd) (reload host0 8192 mp3) = Some ''empty''"
    by (simp_all add: reload3)
  from mousepad_new_example window3 save3 n r show ?thesis
    by blast
qed

text \<open>
  A send name given alone. The object \<open>mousepad 64 64 foo\<close> sends to \<open>foo\<close>. Its binbuf has
  four atoms, with the send name at index 3, and \<open>mousepad_init_unexpanded\<close> reads the
  names only from a binbuf of more than four: the unexpanded send name stays \<open>empty\<close>, the
  object saves \<open>empty\<close>, and the object made from the saved arguments sends nowhere.
\<close>

lemma hex_DDDDDD: "int2hexcolor 0xDDDDDD = ''#DDDDDD''" "hexcolor2int ''#DDDDDD'' = Some 0xDDDDDD"
  by code_simp+

lemma new1:
  "mousepad_new host0 4096 argv1 =
     Some ([Outlet_new, Sys_vgui_delete 2, Clock_delay, Pd_bind ''to-mousepad-0X1000''],
           mp1\<lparr>te_binbuf := []\<rparr>)"
  by (simp add: new_defs host0_def argv1_def mp1_def hex_upper_4096)

lemma init1: "run [(host0, Init_unexpanded, Some binbuf1)] (mp1\<lparr>te_binbuf := []\<rparr>) = Some ([], mp1)"
  by (simp add: invoke_def mousepad_init_unexpanded_def mp1_def binbuf1_def argv1_def)

lemma save1:
  "mousepad_save mp1 =
     Some [A_SYMBOL ''#X'', A_SYMBOL ''obj'', A_FLOAT 0, A_FLOAT 0, A_SYMBOL ''mousepad'',
           A_FLOAT 64, A_FLOAT 64, A_SYMBOL ''empty'', A_SYMBOL ''empty'',
           A_SYMBOL ''#DDDDDD'', A_SEMI]"
  by (simp add: mousepad_save_def mp1_def binbuf1_def c_div_def quot_0 float_lits float_lits2
      hex_DDDDDD atom_getsymbol_def)

lemma reload1:
  "reload host0 8192 mp1 =
     Some ([Outlet_new, Sys_vgui_fill 1 0xDDDDDD, Clock_delay, Pd_bind ''to-mousepad-0X2000''],
           mp1\<lparr>te_binbuf := [], sendname := ''empty'', objID := ''0X2000'',
               sendname_fixed := ''from-mousepad-0X2000'',
               receivename_fixed := ''to-mousepad-0X2000''\<rparr>)"
  unfolding reload_def save1
  by (simp add: saved_args_def new_defs host0_def mp1_def sprintf_8192 hex_DDDDDD)

lemma send_name_alone:
  "mousepad_new host0 4096 argv1 =
     Some ([Outlet_new, Sys_vgui_delete 2, Clock_delay, Pd_bind ''to-mousepad-0X1000''],
           mp1\<lparr>te_binbuf := []\<rparr>)
   \<and> run [(host0, Init_unexpanded, Some binbuf1)] (mp1\<lparr>te_binbuf := []\<rparr>) = Some ([], mp1)
   \<and> sendname mp1 = ''foo'' \<and> sendname_unexpanded mp1 = ''empty''
   \<and> map_option (sendname \<circ> snd) (reload host0 8192 mp1) = Some ''empty''"
  using new1 init1 by (simp add: reload1) (simp add: mp1_def)

section \<open>Redrawing and rebinding\<close>

lemma draw_visible:
  "glist_isvisible h \<Longrightarrow> Sys_vgui_coords BASE (base_rect h mp) \<in> set (mousepad_draw h mp False 0)"
  by (simp add: mousepad_draw_def Let_def draw_rect_def default_rects_bits BASE_def)

lemma draw_invisible: "\<not> glist_isvisible h \<Longrightarrow> mousepad_draw h mp False 0 = []"
  by (simp add: mousepad_draw_def)

lemma of_bool_change:
  "(of_bool a - of_bool b :: cint) = (if a = b then 0 else if a then 1 else - 1)"
  by (cases a; cases b) simp_all

lemma color_sent:
  assumes "mousepad_color h mp argv = Some (e, mp')"
  shows "e = (if argv \<noteq> [] \<and> glist_isvisible h then [Sys_vgui_fill BASE (intcolor mp')] else [])"
  using assms
  by (cases argv) (auto simp add: mousepad_color_def draw_fillcolor_def split: Option.bind_splits)

text \<open>
  Claim C6, amended. The \<open>size\<close> and \<open>pos\<close> handlers, whenever their float arguments
  convert to \<open>int\<close>, call \<open>mousepad_draw\<close> on the object they have updated, and it moves
  the rectangles exactly when the glist is visible. The \<open>color\<close> handler sends the colour
  it stores to Tk exactly when it has an argument and the glist is visible. The \<open>receive\<close>
  handler unbinds the old name if it is not \<open>empty\<close>, binds the new expanded name if it is
  not \<open>empty\<close>, and, if the glist is visible, draws the outlet when the object stops being
  receivable and erases it when the object becomes receivable. The \<open>send\<close> handler binds
  nothing; for a name that is \<open>empty\<close> exactly when its expansion is, it draws the inlet
  when the object stops being sendable and erases it when the object becomes sendable, if
  the glist is visible, and does nothing otherwise.
\<close>

theorem settings_redraw_or_rebind:
  "(case mousepad_resize h mp argv of
      None \<Rightarrow> mousepad_size mp argv = None
    | Some (e, mp') \<Rightarrow> mousepad_size mp argv = Some mp' \<and> e = mousepad_draw h mp' False 0)
   \<and> (case mousepad_pos h mp x y of
        None \<Rightarrow> c_int_of_float x = None \<or> c_int_of_float y = None
      | Some (e, mp') \<Rightarrow> e = mousepad_draw h mp' False 0)
   \<and> (int_atoms argv \<longrightarrow> mousepad_resize h mp argv \<noteq> None \<and> mousepad_color h mp argv \<noteq> None)
   \<and> (glist_isvisible h \<longrightarrow>
        Sys_vgui_coords BASE (base_rect h mp) \<in> set (mousepad_draw h mp False 0))
   \<and> (\<not> glist_isvisible h \<longrightarrow> mousepad_draw h mp False 0 = [])
   \<and> (mousepad_color h mp argv = Some (e, mp') \<longrightarrow>
        e = (if argv \<noteq> [] \<and> glist_isvisible h then [Sys_vgui_fill BASE (intcolor mp')] else []))
   \<and> filter is_binding (fst (mousepad_send h mp s)) = []
   \<and> ((expansion h s = symEmpty) = (s = [] \<or> s = symEmpty) \<longrightarrow>
        fst (mousepad_send h mp s) =
          (let was = (sendname mp \<noteq> symEmpty);
               mp' = snd (mousepad_send h mp s);
               now = (sendname mp' \<noteq> symEmpty)
           in if glist_isvisible h \<and> was \<and> \<not> now
              then [Sys_vgui_create INLET (inlet_rect h mp') (zoomfactor mp'),
                    Sys_vgui_fill BASE (intcolor mp')]
              else if glist_isvisible h \<and> \<not> was \<and> now then [Sys_vgui_delete INLET]
              else []))
   \<and> fst (mousepad_receive h mp s) =
       (let was = (receivename mp \<noteq> symEmpty);
            mp' = snd (mousepad_receive h mp s);
            now = (receivename mp' \<noteq> symEmpty)
        in (if was then [Pd_unbind (receivename mp)] else [])
           @ (if now then [Pd_bind (receivename mp')] else [])
           @ (if glist_isvisible h \<and> was \<and> \<not> now
              then [Sys_vgui_create OUTLET (outlet_rect h mp') (zoomfactor mp'),
                    Sys_vgui_fill BASE (intcolor mp')]
              else if glist_isvisible h \<and> \<not> was \<and> now then [Sys_vgui_delete OUTLET]
              else []))"
proof (intro conjI)
  show "case mousepad_resize h mp argv of
      None \<Rightarrow> mousepad_size mp argv = None
    | Some (e, mp') \<Rightarrow> mousepad_size mp argv = Some mp' \<and> e = mousepad_draw h mp' False 0"
    by (cases "mousepad_size mp argv") (simp_all add: mousepad_resize_def)
  show "case mousepad_pos h mp x y of
        None \<Rightarrow> c_int_of_float x = None \<or> c_int_of_float y = None
      | Some (e, mp') \<Rightarrow> e = mousepad_draw h mp' False 0"
    by (cases "c_int_of_float x"; cases "c_int_of_float y") (simp_all add: mousepad_pos_def Let_def)
  show "int_atoms argv \<longrightarrow> mousepad_resize h mp argv \<noteq> None \<and> mousepad_color h mp argv \<noteq> None"
    using mousepad_size_total [of argv mp] mousepad_color_total [of argv h mp]
    by (auto simp add: mousepad_resize_def)
  show "glist_isvisible h \<longrightarrow>
        Sys_vgui_coords BASE (base_rect h mp) \<in> set (mousepad_draw h mp False 0)"
    by (simp add: draw_visible)
  show "\<not> glist_isvisible h \<longrightarrow> mousepad_draw h mp False 0 = []"
    by (simp add: draw_invisible)
  show "mousepad_color h mp argv = Some (e, mp') \<longrightarrow>
        e = (if argv \<noteq> [] \<and> glist_isvisible h then [Sys_vgui_fill BASE (intcolor mp')] else [])"
    using color_sent by blast
  show "filter is_binding (fst (mousepad_send h mp s)) = []"
    by (simp add: mousepad_send_def Let_def)
  show "(expansion h s = symEmpty) = (s = [] \<or> s = symEmpty) \<longrightarrow>
        fst (mousepad_send h mp s) =
          (let was = (sendname mp \<noteq> symEmpty);
               mp' = snd (mousepad_send h mp s);
               now = (sendname mp' \<noteq> symEmpty)
           in if glist_isvisible h \<and> was \<and> \<not> now
              then [Sys_vgui_create INLET (inlet_rect h mp') (zoomfactor mp'),
                    Sys_vgui_fill BASE (intcolor mp')]
              else if glist_isvisible h \<and> \<not> was \<and> now then [Sys_vgui_delete INLET]
              else [])"
  proof
    assume a: "(expansion h s = symEmpty) = (s = [] \<or> s = symEmpty)"
    have n: "sendname (snd (mousepad_send h mp s)) = expansion h s"
      by (simp add: mousepad_send_def Let_def expansion_def)
    have t: "((if s = [] then symEmpty else s) \<noteq> symEmpty) = (expansion h s \<noteq> symEmpty)"
      using a by auto
    show "fst (mousepad_send h mp s) =
          (let was = (sendname mp \<noteq> symEmpty);
               mp' = snd (mousepad_send h mp s);
               now = (sendname mp' \<noteq> symEmpty)
           in if glist_isvisible h \<and> was \<and> \<not> now
              then [Sys_vgui_create INLET (inlet_rect h mp') (zoomfactor mp'),
                    Sys_vgui_fill BASE (intcolor mp')]
              else if glist_isvisible h \<and> \<not> was \<and> now then [Sys_vgui_delete INLET]
              else [])"
      unfolding Let_def n
      by (simp add: mousepad_send_def Let_def t of_bool_change mousepad_change_io_def
          mousepad_draw_def draw_rect_def draw_fillcolor_def draw_erase_def
          BASE_def INLET_def OUTLET_def)
  qed
  show "fst (mousepad_receive h mp s) =
       (let was = (receivename mp \<noteq> symEmpty);
            mp' = snd (mousepad_receive h mp s);
            now = (receivename mp' \<noteq> symEmpty)
        in (if was then [Pd_unbind (receivename mp)] else [])
           @ (if now then [Pd_bind (receivename mp')] else [])
           @ (if glist_isvisible h \<and> was \<and> \<not> now
              then [Sys_vgui_create OUTLET (outlet_rect h mp') (zoomfactor mp'),
                    Sys_vgui_fill BASE (intcolor mp')]
              else if glist_isvisible h \<and> \<not> was \<and> now then [Sys_vgui_delete OUTLET]
              else []))"
    by (simp add: mousepad_receive_def Let_def of_bool_change mousepad_change_io_def
        mousepad_draw_def draw_rect_def draw_fillcolor_def draw_erase_def
        BASE_def INLET_def OUTLET_def)
qed

lemma send_empty0:
  "snd (mousepad_send host0 mp0 ''empty'') = mp0\<lparr>sendname_unexpanded := ''empty'', sendname := ''empty''\<rparr>"
  by (simp add: mousepad_send_def Let_def host0_def symEmpty_def)

theorem settings_redraw_or_rebind_witness:
  "glist_isvisible host0
   \<and> Sys_vgui_coords BASE [0, 0, 100, 50] \<in> set (mousepad_draw host0 mp0 False 0)
   \<and> \<not> glist_isvisible (host0\<lparr>glist_isvisible := False\<rparr>)
   \<and> mousepad_draw (host0\<lparr>glist_isvisible := False\<rparr>) mp0 False 0 = []
   \<and> (expansion host0 ''empty'' = symEmpty) = (''empty'' = [] \<or> ''empty'' = symEmpty)
   \<and> fst (mousepad_send host0 mp0 ''empty'') =
       [Sys_vgui_create INLET [0, 0, 7, 3] 1, Sys_vgui_fill BASE 0xAABBCC]
   \<and> int_atoms [A_FLOAT 10] \<and> mousepad_resize host0 mp0 [A_FLOAT 10] \<noteq> None"
proof -
  have b: "base_rect host0 mp0 = [0, 0, 100, 50]"
    by (simp add: base_rect_def host0_def mp0_def)
  have v: "glist_isvisible host0" "\<not> glist_isvisible (host0\<lparr>glist_isvisible := False\<rparr>)"
    by (simp_all add: host0_def)
  have x: "(expansion host0 ''empty'' = symEmpty) = (''empty'' = [] \<or> ''empty'' = symEmpty)"
    by (simp add: expansion_def host0_def symEmpty_def)
  have i: "inlet_rect host0 (mp0\<lparr>sendname_unexpanded := ''empty'', sendname := ''empty''\<rparr>)
      = [0, 0, 7, 3]"
    by (simp add: inlet_rect_def host0_def mp0_def IOHEIGHT_def)
  have f: "sendname mp0 \<noteq> ''empty''" "zoomfactor mp0 = 1" "intcolor mp0 = 0xAABBCC"
    by (simp_all add: mp0_def)
  have a: "int_atoms [A_FLOAT 10]"
    by (simp add: int_atoms_def int_lits)
  from settings_redraw_or_rebind [where h = host0 and mp = mp0 and s = "''empty''"
      and argv = "[A_FLOAT 10]" and x = 0 and y = 0 and e = "[]" and mp' = mp0]
    settings_redraw_or_rebind [where h = "host0\<lparr>glist_isvisible := False\<rparr>" and mp = mp0
      and s = "''empty''" and argv = "[A_FLOAT 10]" and x = 0 and y = 0 and e = "[]" and mp' = mp0]
    v x a
  show ?thesis
    unfolding b send_empty0 Let_def by (simp add: i f symEmpty_def)
qed

text \<open>
  Claim C6 as stated fails: on a visible glist, \<open>send baz\<close> to an object that already has a
  send name makes no call at all, and neither does \<open>color\<close> without arguments; on an
  invisible glist \<open>size\<close> and \<open>pos\<close> draw nothing.
\<close>

theorem settings_redraw_counterexample:
  "glist_isvisible host0
   \<and> mousepad_send host0 mp0 ''baz'' =
       ([], mp0\<lparr>sendname := ''baz'', sendname_unexpanded := ''baz''\<rparr>)
   \<and> mousepad_color host0 mp0 [] = Some ([], mp0)
   \<and> map_option fst (mousepad_resize (host0\<lparr>glist_isvisible := False\<rparr>) mp0 [A_FLOAT 10]) = Some []
   \<and> map_option fst (mousepad_pos (host0\<lparr>glist_isvisible := False\<rparr>) mp0 10 10) = Some []"
  by (simp add: host0_def mp0_def mousepad_send_def mousepad_color_def mousepad_resize_def
      mousepad_size_def mousepad_pos_def mousepad_draw_def Let_def symEmpty_def int_lits)

end
